(* ===== verification/Prelude.thy ===== *)
theory Prelude
  imports Complex_Main "HOL-Library.Word" "HOL-Library.Multiset"
    "HOL-Library.Char_ord" "HOL-Library.List_Lexorder"
begin

text \<open>
  The shared vocabulary of the development: the error codes and the \<open>Result\<close> type of
  \<^verbatim>\<open>include/socrates/result.h\<close>, machine integers as words, the parts of the C++ standard
  library that the components use (sorting, decimal conversion, substring search, checked
  byte-buffer accesses), and the generic lemmas about them.
\<close>

unbundle bit_operations_syntax

named_theorems sort_facts \<open>facts about the sort models\<close>
named_theorems str_facts \<open>facts about decimal printing and substring search\<close>
named_theorems wire_facts \<open>facts about little-endian fields and buffer writes\<close>

section \<open>Types\<close>

type_synonym u8 = "8 word"
type_synonym u16 = "16 word"
type_synonym u32 = "32 word"
type_synonym u64 = "64 word"
type_synonym i32 = int
type_synonym i64 = int
type_synonym bytes = "u8 list"

text \<open>
  A finite \<open>double\<close> is a rational number. The modelled code copies doubles and compares
  them, both exact here; where it divides, the machine rounds and the model does not.
\<close>

type_synonym double = rat

text \<open>Clock readings and durations, in nanoseconds.\<close>

type_synonym time_point = int
type_synonym duration = int

section \<open>Errors and results\<close>

datatype error_code =
    kOk | kCancelled | kInvalidArgument | kNotFound | kAlreadyExists | kPermissionDenied
  | kResourceExhausted | kFailedPrecondition | kUnavailable | kDeadlineExceeded | kDataLoss
  | kUnauthenticated | kInternal

record runtime_error =
  err_code :: error_code
  err_message :: string

type_synonym 'a result = "runtime_error + 'a"

abbreviation Ok :: "'a \<Rightarrow> 'a result" where
  "Ok \<equiv> Inr"

definition Err :: "error_code \<Rightarrow> string \<Rightarrow> 'a result" where
  "Err c m = Inl \<lparr>err_code = c, err_message = m\<rparr>"

definition is_ok :: "'a result \<Rightarrow> bool" where
  "is_ok r = (case r of Inl _ \<Rightarrow> False | Inr _ \<Rightarrow> True)"

definition is_err :: "'a result \<Rightarrow> bool" where
  "is_err r = (\<not> is_ok r)"

definition value_or :: "'a result \<Rightarrow> 'a \<Rightarrow> 'a" where
  "value_or r fallback = (case r of Inl _ \<Rightarrow> fallback | Inr v \<Rightarrow> v)"

definition result_error_code :: "'a result \<Rightarrow> error_code" where
  "result_error_code r = (case r of Inl e \<Rightarrow> err_code e | Inr _ \<Rightarrow> kOk)"

text \<open>
  The outcome of a method of a stateful class: what it returns or throws (\<open>Inl\<close>), the
  object afterwards, and the arguments of the callbacks it invoked, in order.
\<close>

type_synonym ('s, 'e, 'a) outcome = "'a result \<times> 's \<times> 'e list"

abbreviation outcome_result :: "('s, 'e, 'a) outcome \<Rightarrow> 'a result" where
  "outcome_result \<equiv> fst"

abbreviation outcome_state :: "('s, 'e, 'a) outcome \<Rightarrow> 's" where
  "outcome_state r \<equiv> fst (snd r)"

abbreviation outcome_events :: "('s, 'e, 'a) outcome \<Rightarrow> 'e list" where
  "outcome_events r \<equiv> snd (snd r)"

section \<open>Sorting\<close>

text \<open>
  \<open>std::stable_sort\<close> has one possible result for a strict weak order; \<open>insert_by\<close>
  puts an element in front of the first one that is not smaller.
\<close>

fun insert_by :: "('a \<Rightarrow> 'a \<Rightarrow> bool) \<Rightarrow> 'a \<Rightarrow> 'a list \<Rightarrow> 'a list" where
  "insert_by lt x [] = [x]"
| "insert_by lt x (y # ys) = (if lt y x then y # insert_by lt x ys else x # y # ys)"

definition stable_sort :: "('a \<Rightarrow> 'a \<Rightarrow> bool) \<Rightarrow> 'a list \<Rightarrow> 'a list" where
  "stable_sort lt xs = foldr (insert_by lt) xs []"

text \<open>
  \<open>std::sort\<close> may permute equivalent elements in any way. A sort function is a parameter
  of the definitions that call \<open>std::sort\<close>; this is what the standard guarantees of it.
\<close>

locale std_sort =
  fixes lt :: "'a \<Rightarrow> 'a \<Rightarrow> bool" and srt :: "'a list \<Rightarrow> 'a list"
  assumes sort_permutes: "mset (srt xs) = mset xs"
    and sort_orders: "sorted_wrt (\<lambda>a b. \<not> lt b a) (srt xs)"
begin

lemma sort_set: "set (srt xs) = set xs"
  using sort_permutes by (metis set_mset_mset)

lemma sort_length: "length (srt xs) = length xs"
  using sort_permutes by (metis size_mset)

lemma sort_nil: "srt [] = []"
  using sort_length [of "[]"] by simp

lemma sort_filter_mset: "mset (filter P (srt xs)) = mset (filter P xs)"
  by (simp add: sort_permutes)

lemma sort_head_minimal:
  assumes "srt xs = y # ys" "x \<in> set xs"
  shows "\<not> lt x y \<or> x = y"
  using assms sort_orders [of xs] sort_set [of xs] by auto

end

text \<open>A strict weak order, the precondition of both sorts.\<close>

definition strict_weak_order :: "('a \<Rightarrow> 'a \<Rightarrow> bool) \<Rightarrow> bool" where
  "strict_weak_order lt \<longleftrightarrow>
     (\<forall>a. \<not> lt a a) \<and> (\<forall>a b c. lt a b \<longrightarrow> lt b c \<longrightarrow> lt a c) \<and>
     (\<forall>a b c. \<not> lt a b \<longrightarrow> \<not> lt b c \<longrightarrow> \<not> lt a c)"

section \<open>Decimal numbers\<close>

definition digit_char :: "nat \<Rightarrow> char" where
  "digit_char d = char_of (48 + d)"

definition is_digit :: "char \<Rightarrow> bool" where
  "is_digit c \<longleftrightarrow> 48 \<le> (of_char c :: nat) \<and> (of_char c :: nat) \<le> 57"

definition digit_val :: "char \<Rightarrow> nat" where
  "digit_val c = of_char c - 48"

fun dec :: "nat \<Rightarrow> string" where
  "dec n = (if n < 10 then [digit_char n] else dec (n div 10) @ [digit_char (n mod 10)])"

declare dec.simps [simp del]

text \<open>\<open>std::to_string\<close> on unsigned and signed integers.\<close>

definition to_string :: "'a::len word \<Rightarrow> string" where
  "to_string w = dec (unat w)"

definition to_string_int :: "int \<Rightarrow> string" where
  "to_string_int i = (if i < 0 then ''-'' @ dec (nat (- i)) else dec (nat i))"

text \<open>\<open>os << std::hex << n\<close>.\<close>

definition hex_digit :: "nat \<Rightarrow> char" where
  "hex_digit d = char_of (if d < 10 then 48 + d else 87 + d)"

fun hex :: "nat \<Rightarrow> string" where
  "hex n = (if n < 16 then [hex_digit n] else hex (n div 16) @ [hex_digit (n mod 16)])"

declare hex.simps [simp del]

definition digits_val :: "string \<Rightarrow> nat" where
  "digits_val s = foldl (\<lambda>a c. a * 10 + digit_val c) 0 s"

text \<open>
  \<open>std::stoi\<close> and \<open>std::stoul\<close>: leading white space, an optional sign, digits, anything
  after them; \<open>None\<close> is the exception for no digits or a value out of range. \<open>stoul\<close>
  negates a signed number modulo \<open>2^64\<close>.
\<close>

definition is_space_char :: "char \<Rightarrow> bool" where
  "is_space_char c \<longleftrightarrow> (of_char c :: nat) = 32 \<or> (9 \<le> (of_char c :: nat) \<and> (of_char c :: nat) \<le> 13)"

definition strip_sign :: "string \<Rightarrow> bool \<times> string" where
  "strip_sign s =
     (case s of [] \<Rightarrow> (False, [])
      | c # cs \<Rightarrow> if c = CHR ''-'' then (True, cs) else if c = CHR ''+'' then (False, cs) else (False, c # cs))"

definition parse_number :: "string \<Rightarrow> (bool \<times> nat) option" where
  "parse_number s =
     (let (neg, rest) = strip_sign (dropWhile is_space_char s); ds = takeWhile is_digit rest in
      if ds = [] then None else Some (neg, digits_val ds))"

definition stoi :: "string \<Rightarrow> int option" where
  "stoi s = Option.bind (parse_number s) (\<lambda>(neg, n).
     let i = (if neg then - int n else int n) in
     if - (2 ^ 31) \<le> i \<and> i < 2 ^ 31 then Some i else None)"

definition stoul :: "string \<Rightarrow> u64 option" where
  "stoul s = Option.bind (parse_number s) (\<lambda>(neg, n).
     if n < 2 ^ 64 then Some (if neg then - of_nat n else of_nat n) else None)"

section \<open>Substrings\<close>

text \<open>
  \<open>s.find(pat, pos)\<close>: the least position from \<open>pos\<close> on where \<open>pat\<close> occurs;
  \<open>None\<close> is \<open>npos\<close>.
\<close>

definition occurs_at :: "string \<Rightarrow> string \<Rightarrow> nat \<Rightarrow> bool" where
  "occurs_at s pat i \<longleftrightarrow> take (length pat) (drop i s) = pat"

definition str_find :: "string \<Rightarrow> string \<Rightarrow> nat \<Rightarrow> nat option" where
  "str_find s pat pos = List.find (occurs_at s pat) [pos ..< Suc (length s - length pat)]"

text \<open>\<open>s.substr(pos, n)\<close> for \<open>pos\<close> within the string.\<close>

definition substr :: "string \<Rightarrow> nat \<Rightarrow> nat \<Rightarrow> string" where
  "substr s pos n = take n (drop pos s)"

definition contains_str :: "string \<Rightarrow> string \<Rightarrow> bool" where
  "contains_str s pat \<longleftrightarrow> str_find s pat 0 \<noteq> None"

definition starts_with :: "string \<Rightarrow> string \<Rightarrow> bool" where
  "starts_with s pat \<longleftrightarrow> str_find s pat 0 = Some 0"

section \<open>Byte buffers\<close>

text \<open>
  A store of \<open>bs\<close> at offset \<open>off\<close> of a buffer, and a load of \<open>n\<close> bytes from it.
  An access outside the buffer is undefined behaviour in C++ and \<open>None\<close> here.
\<close>

definition poke :: "nat \<Rightarrow> bytes \<Rightarrow> bytes \<Rightarrow> bytes option" where
  "poke off bs buf =
     (if off + length bs \<le> length buf
      then Some (take off buf @ bs @ drop (off + length bs) buf) else None)"

definition peek :: "nat \<Rightarrow> nat \<Rightarrow> bytes \<Rightarrow> bytes option" where
  "peek off n buf = (if off + n \<le> length buf then Some (take n (drop off buf)) else None)"

text \<open>Little-endian integers: byte \<open>i\<close> is \<open>(v >> 8 i) & 0xFF\<close>.\<close>

fun le_bytes :: "nat \<Rightarrow> nat \<Rightarrow> bytes" where
  "le_bytes 0 v = []"
| "le_bytes (Suc k) v = of_nat (v mod 256) # le_bytes k (v div 256)"

fun le_value :: "bytes \<Rightarrow> nat" where
  "le_value [] = 0"
| "le_value (b # bs) = unat b + 256 * le_value bs"

section \<open>Lemmas: results\<close>

lemma is_ok_simps [simp]: "is_ok (Ok v)" "\<not> is_ok (Err c m)" "\<not> is_ok (Inl e)"
  by (simp_all add: is_ok_def Err_def)

lemma is_err_not_ok [simp]: "is_err r \<longleftrightarrow> \<not> is_ok r"
  by (simp add: is_err_def is_ok_def split: sum.splits)

lemma find_append: "List.find P (xs @ ys) = (case List.find P xs of None \<Rightarrow> List.find P ys | Some x \<Rightarrow> Some x)"
  by (induction xs) simp_all

lemma Err_neq_Ok [simp]: "Err c m \<noteq> Ok v" "Ok v \<noteq> Err c m"
  by (simp_all add: Err_def)

lemma Err_eq_Err [simp]: "Err c m = Err c' m' \<longleftrightarrow> c = c' \<and> m = m'"
  by (simp add: Err_def)

lemma is_ok_iff: "is_ok r \<longleftrightarrow> (\<exists>v. r = Ok v)"
  by (cases r) simp_all

lemma result_error_code_simps [simp]:
  "result_error_code (Ok v) = kOk" "result_error_code (Err c m) = c"
  by (simp_all add: result_error_code_def Err_def)

section \<open>Lemmas: lists\<close>

lemma list_all2_update:
  "i < length xs \<Longrightarrow> (\<And>x. R x x) \<Longrightarrow> R (xs ! i) y \<Longrightarrow> list_all2 R xs (xs[i := y])"
  by (auto simp: list_all2_conv_all_nth nth_list_update)

lemma list_all2_map_same: "(\<And>x. R x (f x)) \<Longrightarrow> list_all2 R xs (map f xs)"
  by (simp add: list_all2_conv_all_nth)

lemma map_id_on: "(\<And>x. x \<in> set xs \<Longrightarrow> f x = x) \<Longrightarrow> map f xs = xs"
  by (induction xs) auto

lemma list_all2_in_right: "list_all2 R xs ys \<Longrightarrow> y \<in> set ys \<Longrightarrow> \<exists>x \<in> set xs. R x y"
  by (induction rule: list_all2_induct) auto

section \<open>Lemmas: sorting\<close>

lemma mset_insert_by [sort_facts]: "mset (insert_by lt x xs) = add_mset x (mset xs)"
  by (induction xs) auto

lemma set_insert_by [sort_facts]: "set (insert_by lt x xs) = insert x (set xs)"
  by (induction xs) auto

lemma mset_stable_sort [simp]: "mset (stable_sort lt xs) = mset xs"
  by (induction xs) (simp_all add: stable_sort_def mset_insert_by)

lemma set_stable_sort [simp]: "set (stable_sort lt xs) = set xs"
  by (metis mset_stable_sort set_mset_mset)

lemma length_stable_sort [simp]: "length (stable_sort lt xs) = length xs"
  by (metis mset_stable_sort size_mset)

lemma swo_irrefl: "strict_weak_order lt \<Longrightarrow> \<not> lt a a"
  by (simp add: strict_weak_order_def)

lemma swo_trans: "strict_weak_order lt \<Longrightarrow> lt a b \<Longrightarrow> lt b c \<Longrightarrow> lt a c"
  unfolding strict_weak_order_def by blast

lemma swo_neg_trans: "strict_weak_order lt \<Longrightarrow> \<not> lt a b \<Longrightarrow> \<not> lt b c \<Longrightarrow> \<not> lt a c"
  unfolding strict_weak_order_def by blast

lemma swo_asym: "strict_weak_order lt \<Longrightarrow> lt a b \<Longrightarrow> \<not> lt b a"
  unfolding strict_weak_order_def by blast

lemma sorted_insert_by [sort_facts]:
  assumes "strict_weak_order lt" "sorted_wrt (\<lambda>a b. \<not> lt b a) xs"
  shows "sorted_wrt (\<lambda>a b. \<not> lt b a) (insert_by lt x xs)"
  using assms(2)
proof (induction xs)
  case (Cons y ys)
  show ?case
  proof (cases "lt y x")
    case True
    with Cons swo_asym [OF assms(1) True] show ?thesis by (auto simp: set_insert_by)
  next
    case False
    with Cons.prems show ?thesis using swo_neg_trans [OF assms(1)] by auto
  qed
qed simp

lemma sorted_stable_sort [sort_facts]:
  "strict_weak_order lt \<Longrightarrow> sorted_wrt (\<lambda>a b. \<not> lt b a) (stable_sort lt xs)"
  by (induction xs) (simp_all add: stable_sort_def sorted_insert_by)

text \<open>A stable sort is one of the results \<open>std::sort\<close> may produce.\<close>

lemma std_sort_stable_sort: "strict_weak_order lt \<Longrightarrow> std_sort lt (stable_sort lt)"
  by unfold_locales (simp_all add: sorted_stable_sort)

text \<open>Stability: elements equivalent to \<open>k\<close> keep their order.\<close>

lemma filter_insert_by_equiv:
  assumes swo: "strict_weak_order lt" and srt: "sorted_wrt (\<lambda>a b. \<not> lt b a) xs"
  shows "filter (\<lambda>y. \<not> lt y k \<and> \<not> lt k y) (insert_by lt x xs) =
     filter (\<lambda>y. \<not> lt y k \<and> \<not> lt k y) (x # xs)"
  using srt
proof (induction xs)
  case (Cons y ys)
  show ?case
  proof (cases "lt y x")
    case True
    have "\<not> ((\<not> lt y k \<and> \<not> lt k y) \<and> (\<not> lt x k \<and> \<not> lt k x))"
      using True swo_neg_trans [OF swo, of y k x] by blast
    with Cons True show ?thesis by auto
  qed simp
qed simp

lemma stable_sort_stable [sort_facts]:
  assumes "strict_weak_order lt"
  shows "filter (\<lambda>y. \<not> lt y k \<and> \<not> lt k y) (stable_sort lt xs) =
     filter (\<lambda>y. \<not> lt y k \<and> \<not> lt k y) xs"
proof (induction xs)
  case (Cons x xs)
  have "filter (\<lambda>y. \<not> lt y k \<and> \<not> lt k y) (insert_by lt x (stable_sort lt xs)) =
      filter (\<lambda>y. \<not> lt y k \<and> \<not> lt k y) (x # stable_sort lt xs)"
    by (rule filter_insert_by_equiv [OF assms sorted_stable_sort [OF assms]])
  with Cons show ?case by (simp add: stable_sort_def)
qed (simp add: stable_sort_def)

section \<open>Lemmas: decimal numbers\<close>

lemma digit_val_digit_char: "d < 10 \<Longrightarrow> digit_val (digit_char d) = d"
  by (simp add: digit_val_def digit_char_def)

lemma is_digit_digit_char: "d < 10 \<Longrightarrow> is_digit (digit_char d)"
  by (simp add: is_digit_def digit_char_def)

lemma dec_nonempty [simp]: "dec n \<noteq> []"
  by (subst dec.simps) simp

lemma dec_digits [str_facts]: "c \<in> set (dec n) \<Longrightarrow> is_digit c"
proof (induction n rule: dec.induct)
  case (1 n)
  then show ?case
    by (subst (asm) (2) dec.simps) (auto simp: is_digit_digit_char split: if_splits)
qed

lemma digits_val_snoc: "digits_val (s @ [c]) = digits_val s * 10 + digit_val c"
  by (simp add: digits_val_def)

lemma digits_val_dec [simp]: "digits_val (dec n) = n"
proof (induction n rule: dec.induct)
  case (1 n)
  show ?case
  proof (cases "n < 10")
    case True
    then show ?thesis
      by (subst dec.simps) (simp add: digits_val_def digit_val_digit_char)
  next
    case False
    with 1 show ?thesis
      by (subst dec.simps) (simp add: digits_val_snoc digit_val_digit_char)
  qed
qed

lemma dec_inject [simp]: "dec m = dec n \<longleftrightarrow> m = n"
  by (metis digits_val_dec)

lemma takeWhile_digits_dec:
  assumes "rest = [] \<or> \<not> is_digit (hd rest)"
  shows "takeWhile is_digit (dec n @ rest) = dec n"
proof -
  have "takeWhile is_digit (dec n @ rest) = dec n @ takeWhile is_digit rest"
    by (rule takeWhile_append2) (simp add: dec_digits)
  with assms show ?thesis by (cases rest) auto
qed

lemma split_dec_unique:
  assumes eq: "dec a @ c # xs = dec b @ c # ys" and c: "\<not> is_digit c"
  shows "a = b \<and> xs = ys"
proof -
  have "dec a = dec b"
    using arg_cong [OF eq, of "takeWhile is_digit"] c by (simp add: takeWhile_digits_dec)
  with eq show ?thesis by simp
qed

section \<open>Lemmas: substrings\<close>

lemma find_upt_Some:
  "List.find P [i ..< j] = Some k \<longleftrightarrow> i \<le> k \<and> k < j \<and> P k \<and> (\<forall>l. i \<le> l \<and> l < k \<longrightarrow> \<not> P l)"
proof
  assume "List.find P [i ..< j] = Some k"
  then obtain n where n: "n < j - i" "P (i + n)" "k = i + n" "\<forall>l < n. \<not> P (i + l)"
    by (auto simp: find_Some_iff)
  moreover have "\<not> P l" if "i \<le> l" "l < k" for l
    using n(3) n(4) [rule_format, of "l - i"] that by simp
  ultimately show "i \<le> k \<and> k < j \<and> P k \<and> (\<forall>l. i \<le> l \<and> l < k \<longrightarrow> \<not> P l)"
    by auto
next
  assume "i \<le> k \<and> k < j \<and> P k \<and> (\<forall>l. i \<le> l \<and> l < k \<longrightarrow> \<not> P l)"
  then show "List.find P [i ..< j] = Some k"
    unfolding find_Some_iff by (intro exI [of _ "k - i"]) auto
qed

lemma occurs_at_bound: "occurs_at s pat i \<Longrightarrow> pat \<noteq> [] \<Longrightarrow> i + length pat \<le> length s"
proof -
  assume "occurs_at s pat i" "pat \<noteq> []"
  then have "length (take (length pat) (drop i s)) = length pat" by (simp add: occurs_at_def)
  with \<open>pat \<noteq> []\<close> show ?thesis by (cases pat) auto
qed

lemma str_find_Some [str_facts]:
  assumes "pat \<noteq> []"
  shows "str_find s pat pos = Some k \<longleftrightarrow>
     pos \<le> k \<and> occurs_at s pat k \<and> (\<forall>l. pos \<le> l \<and> l < k \<longrightarrow> \<not> occurs_at s pat l)"
  unfolding str_find_def find_upt_Some using occurs_at_bound [OF _ assms, of s k] by fastforce

lemma str_find_None [str_facts]:
  assumes "pat \<noteq> []"
  shows "str_find s pat pos = None \<longleftrightarrow> (\<forall>l. pos \<le> l \<longrightarrow> \<not> occurs_at s pat l)"
  unfolding str_find_def find_None_iff using occurs_at_bound [OF _ assms, of s] by fastforce

lemma occurs_at_append: "occurs_at (xs @ pat @ ys) pat (length xs)"
  by (simp add: occurs_at_def)

section \<open>Lemmas: buffers and little-endian integers\<close>

lemma length_le_bytes [simp]: "length (le_bytes k v) = k"
  by (induction k arbitrary: v) auto

lemma le_value_le_bytes [wire_facts]: "le_value (le_bytes k v) = v mod 256 ^ k"
proof (induction k arbitrary: v)
  case (Suc k)
  have "unat (of_nat (v mod 256) :: u8) = v mod 256"
    by (simp add: unat_of_nat)
  then have "le_value (le_bytes (Suc k) v) = v mod 256 + 256 * (v div 256 mod 256 ^ k)"
    using Suc by simp
  also have "\<dots> = v mod 256 ^ Suc k"
    by (simp add: mod_mult2_eq)
  finally show ?case .
qed simp

lemma le_value_bound [wire_facts]: "le_value bs < 256 ^ length bs"
proof (induction bs)
  case (Cons b bs)
  have "unat b < 256" using unsigned_less [where 'a = nat, of b] by simp
  with Cons show ?case by simp
qed simp

lemma poke_Some_iff:
  "poke off bs buf = Some buf' \<longleftrightarrow>
     off + length bs \<le> length buf \<and> buf' = take off buf @ bs @ drop (off + length bs) buf"
  by (auto simp: poke_def)

lemma length_poke [wire_facts]: "poke off bs buf = Some buf' \<Longrightarrow> length buf' = length buf"
  by (auto simp: poke_Some_iff)

section \<open>Write-once tables\<close>

text \<open>
  The contract of a table whose entries are never overwritten or removed: what \<open>get\<close> finds, it
  still finds after any run of \<open>put\<close>.
\<close>

locale write_once =
  fixes put :: "'a \<Rightarrow> 'i \<Rightarrow> 'i" and get :: "'k \<Rightarrow> 'i \<Rightarrow> 'v option"
  assumes keeps: "get k i = Some v \<Longrightarrow> get k (put a i) = Some v"
begin

lemma run_keeps: "get k i = Some v \<Longrightarrow> get k (fold put as i) = Some v"
  by (induction "as" arbitrary: i) (simp_all add: keeps)

end

end
