(* ===== verification/Types.thy ===== *)
theory Types
  imports Prelude
begin

text \<open>
  The value types of \<^verbatim>\<open>include/socrates/types.h\<close>, \<^verbatim>\<open>scheduler/scheduler.h\<close>,
  \<^verbatim>\<open>cluster/membership_service.h\<close>, \<^verbatim>\<open>discovery/discovery_service.h\<close> and
  \<^verbatim>\<open>security/identity_provider.h\<close>. A struct is a record with the source's fields (prefixed,
  since the names of record fields are global), an \<open>enum class\<close> a datatype with the source's
  enumerators, and a strong identifier its string.
\<close>

section \<open>Identifiers and enumerations (types.h)\<close>

type_synonym node_id = string
type_synonym request_id = string
type_synonym session_id = string
type_synonym model_id = string
type_synonym shard_id = string
type_synonym fencing_token = string
type_synonym attributes = "(string \<times> string) list"

datatype tensor_layout = kRowMajor | kColumnMajor

datatype quantization_kind = kFp16 | kInt8 | kInt4 | kInt2 | kTernary

datatype quantization_scheme = kPerTensor | kPerChannel | kPerGroup

datatype quantization_activation = kActFp8 | kActFp16 | kActInt16 | kActInt32

datatype backend_kind = kLlamaCpp | kExecuTorchQnn | kExecuTorchCpu | kMlx | kLiteRt

datatype compute_unit = kCpu | kGpu | kNpu

datatype element_type =
    kElInt8 | kElInt16 | kElInt32 | kElInt64 | kFloat16 | kBf16 | kFloat32 | kFloat64

datatype runtime_state =
    kStarting | kDiscovering | kRtJoining | kElecting | kReady | kReplanning | kDegraded
  | kStopping | kStopped

section \<open>Value types (types.h)\<close>

record layer_range =
  lr_start :: u32
  lr_end_exclusive :: u32

definition layer_range_valid :: "layer_range \<Rightarrow> bool" where
  "layer_range_valid r \<longleftrightarrow> lr_end_exclusive r > lr_start r"

definition layer_range_count :: "layer_range \<Rightarrow> u32" where
  "layer_range_count r = lr_end_exclusive r - lr_start r"

record quantization_identity =
  qi_kind :: quantization_kind
  qi_scheme :: quantization_scheme
  qi_activation :: quantization_activation
  qi_group_size :: u32
  qi_has_act_order :: bool
  qi_has_gptq :: bool

text \<open>\<open>QuantizationIdentity{kind}\<close>: the other fields take their default initialisers.\<close>

definition quantization_of :: "quantization_kind \<Rightarrow> quantization_identity" where
  "quantization_of k = \<lparr>qi_kind = k, qi_scheme = kPerTensor, qi_activation = kActFp16,
     qi_group_size = 0, qi_has_act_order = False, qi_has_gptq = False\<rparr>"

text \<open>\<open>QuantizationIdentity{kind, scheme, activation, group_size}\<close>.\<close>

definition quantization_with :: "quantization_kind \<Rightarrow> quantization_scheme \<Rightarrow> quantization_activation \<Rightarrow> u32 \<Rightarrow> quantization_identity" where
  "quantization_with k s a g = (quantization_of k)\<lparr>qi_scheme := s, qi_activation := a, qi_group_size := g\<rparr>"

record tensor_shape =
  ts_dims :: "i64 list"
  ts_dynamic_min :: "i64 option"
  ts_dynamic_max :: "i64 option"
  ts_alignment :: i32

text \<open>
  The element type of a tensor is its \<open>uint8_t\<close> representation: the codec casts any
  number it reads to \<open>ElementType\<close>.
\<close>

record tensor_spec =
  sp_element_type :: u8
  sp_layout :: tensor_layout
  sp_shape :: tensor_shape
  sp_maximum_encoded_bytes :: u64

record tensor =
  tn_spec :: tensor_spec
  tn_data :: bytes

record network_metrics =
  nm_round_trip_latency :: duration
  nm_available_bandwidth :: u64
  nm_measured_at :: time_point

definition network_metrics_valid :: "network_metrics \<Rightarrow> bool" where
  "network_metrics_valid m \<longleftrightarrow> nm_round_trip_latency m > 0"

record backend_capability =
  bc_kind :: backend_kind
  bc_version :: string
  bc_quantizations :: "quantization_identity list"
  bc_compute_units :: "compute_unit list"
  bc_allows_cpu_fallback :: bool

record backend_benchmark =
  bb_backend :: backend_kind
  bb_quantization :: quantization_identity
  bb_sequence_length :: u32
  bb_prefill_tokens_per_second :: double
  bb_decode_tokens_per_second :: double
  bb_first_token_latency_us :: int
  bb_peak_memory_bytes :: u64

record capability_profile =
  cp_node_id :: node_id
  cp_revision :: u64
  cp_measured_at :: time_point
  cp_received_at :: time_point
  cp_valid_for :: duration
  cp_total_memory_bytes :: u64
  cp_available_memory_bytes :: u64
  cp_cpu_model :: string
  cp_logical_cpu_count :: u32
  cp_accelerators :: "string list"
  cp_backends :: "backend_capability list"
  cp_measured_benchmarks :: "backend_benchmark list"
  cp_network_to_leader :: network_metrics
  cp_extensions :: attributes

text \<open>\<open>CapabilityProfile::expired()\<close>, at the clock reading \<open>now\<close>.\<close>

definition capability_expired :: "time_point \<Rightarrow> capability_profile \<Rightarrow> bool" where
  "capability_expired now p \<longleftrightarrow> now \<ge> cp_received_at p + cp_valid_for p"

record leadership_fence =
  lf_term :: u64
  lf_token :: fencing_token
  lf_membership_revision :: u64

definition newer_than :: "leadership_fence \<Rightarrow> leadership_fence \<Rightarrow> bool" where
  "newer_than a b \<longleftrightarrow> lf_term a > lf_term b"

definition default_fence :: leadership_fence where
  "default_fence = \<lparr>lf_term = 0, lf_token = [], lf_membership_revision = 0\<rparr>"

section \<open>Discovery and identity\<close>

datatype discovery_method = kMdns | kUdpBroadcast | kBluetoothLowEnergy

datatype discovery_event_kind = kFound | kUpdated | kExpired

record peer_advertisement =
  pa_node_id :: node_id
  pa_incarnation :: u64
  pa_endpoints :: "string list"
  pa_public_key_fingerprint :: string
  pa_metadata :: attributes

definition default_peer :: peer_advertisement where
  "default_peer = \<lparr>pa_node_id = [], pa_incarnation = 0, pa_endpoints = [],
     pa_public_key_fingerprint = [], pa_metadata = []\<rparr>"

record discovery_event =
  de_kind :: discovery_event_kind
  de_peer :: peer_advertisement

record local_identity =
  li_node_id :: node_id
  li_certificate_pem :: string
  li_public_key_fingerprint :: string

record peer_identity =
  pi_node_id :: node_id
  pi_certificate_pem :: string
  pi_public_key_fingerprint :: string

section \<open>Membership\<close>

datatype member_state = kJoining | kAlive | kSuspect | kLeft | kRemoved

datatype node_role = kLeech | kParticipant

record model_presence =
  mp_model_id :: model_id
  mp_manifest_revision :: string
  mp_quantization :: string
  mp_downloaded_bytes :: u64
  mp_total_bytes :: u64
  mp_ready :: bool

record member =
  mb_peer :: peer_advertisement
  mb_state :: member_state
  mb_role :: node_role
  mb_capability :: "capability_profile option"
  mb_models :: "model_presence list"
  mb_last_seen :: time_point

record membership_snapshot =
  snap_revision :: u64
  snap_members :: "member list"

section \<open>Scheduling\<close>

datatype stage_kind = kTokenEmbedding | kTransformerLayers | kOutputNormalization | kLmHead

record artifact_descriptor =
  ad_uri :: string
  ad_sha256_hex :: string
  ad_format :: string
  ad_format_version :: string
  ad_file_bytes :: u64

record boundary_tensor_contract =
  btc_tensor_id :: string
  btc_element_type :: element_type
  btc_maximum_shape :: "i64 list"
  btc_layout :: string
  btc_maximum_encoded_bytes :: u64

record boundary_contract =
  bd_boundary_id :: string
  bd_producer_stage_id :: string
  bd_consumer_stage_id :: string
  bd_tensors :: "boundary_tensor_contract list"
  bd_transferable :: bool
  bd_reliable_ordered_required :: bool

record shard_option =
  so_shard_id :: shard_id
  so_stage_ids :: "string list"
  so_input_boundary_ids :: "string list"
  so_output_boundary_ids :: "string list"
  so_stage_kind :: stage_kind
  so_layers :: "layer_range option"
  so_quantization :: quantization_kind
  so_artifact :: artifact_descriptor
  so_execution_profile_id :: string
  so_peak_runtime_memory_bytes :: u64
  so_estimated_kv_bytes_per_token :: u64
  so_compatible_backends :: "backend_kind list"
  so_required_compute_units :: "compute_unit list"
  so_required_operator_ids :: "string list"
  so_estimated_prefill_microseconds :: double
  so_estimated_decode_microseconds :: double
  so_sensitivity_score :: double

record network_link =
  nl_source :: node_id
  nl_destination :: node_id
  nl_latency :: duration
  nl_available_bandwidth :: u64

datatype scheduling_policy = kMemoryBased | kSensitivityAware

record scheduling_input =
  in_model_id :: model_id
  in_manifest_revision :: string
  in_total_layers :: u32
  in_shard_options :: "shard_option list"
  in_boundaries :: "boundary_contract list"
  in_membership :: membership_snapshot
  in_network_links :: "network_link list"
  in_fence :: leadership_fence
  in_policy :: scheduling_policy
  in_maximum_context_tokens :: u32
  in_maximum_generation_tokens :: u32
  in_per_device_memory_reserve_bytes :: u64
  in_maximum_quality_loss_score :: double
  in_compute_balance_weight :: double
  in_transfer_latency_weight :: double
  in_use_calibrated_costs :: bool

record stage_assignment =
  sa_ordinal :: u32
  sa_node_id :: node_id
  sa_shard_id :: shard_id
  sa_stage_ids :: "string list"
  sa_input_boundary_ids :: "string list"
  sa_output_boundary_ids :: "string list"
  sa_stage_kind :: stage_kind
  sa_layers :: "layer_range option"
  sa_quantization :: quantization_kind
  sa_backend :: backend_kind
  sa_execution_profile_id :: string
  sa_artifact :: artifact_descriptor
  sa_reserved_memory_bytes :: u64
  sa_estimated_stage_microseconds :: double

record pipeline_plan =
  pp_plan_id :: string
  pp_model_id :: model_id
  pp_manifest_revision :: string
  pp_fence :: leadership_fence
  pp_stages :: "stage_assignment list"
  pp_boundaries :: "boundary_contract list"
  pp_issued_at_utc :: time_point
  pp_valid_for_ms :: int

datatype calibration_phase = kPrefill | kDecode | kTransfer

record calibration_sample =
  cs_node_id :: node_id
  cs_shard_id :: shard_id
  cs_backend :: backend_kind
  cs_phase :: calibration_phase
  cs_batch_size :: u32
  cs_sequence_length :: u32
  cs_transferred_bytes :: u64
  cs_measured_duration :: duration
  cs_peak_memory_bytes :: u64

text \<open>Default-constructed values.\<close>

definition default_artifact :: artifact_descriptor where
  "default_artifact = \<lparr>ad_uri = [], ad_sha256_hex = [], ad_format = [], ad_format_version = [],
     ad_file_bytes = 0\<rparr>"

definition default_shard_option :: shard_option where
  "default_shard_option = \<lparr>so_shard_id = [], so_stage_ids = [], so_input_boundary_ids = [],
     so_output_boundary_ids = [], so_stage_kind = kTransformerLayers, so_layers = None,
     so_quantization = kFp16, so_artifact = default_artifact, so_execution_profile_id = [],
     so_peak_runtime_memory_bytes = 0, so_estimated_kv_bytes_per_token = 0,
     so_compatible_backends = [], so_required_compute_units = [], so_required_operator_ids = [],
     so_estimated_prefill_microseconds = 0, so_estimated_decode_microseconds = 0,
     so_sensitivity_score = 0\<rparr>"

definition default_stage :: stage_assignment where
  "default_stage = \<lparr>sa_ordinal = 0, sa_node_id = [], sa_shard_id = [], sa_stage_ids = [],
     sa_input_boundary_ids = [], sa_output_boundary_ids = [], sa_stage_kind = kTransformerLayers,
     sa_layers = None, sa_quantization = kFp16, sa_backend = kLlamaCpp,
     sa_execution_profile_id = [], sa_artifact = default_artifact,
     sa_reserved_memory_bytes = 0, sa_estimated_stage_microseconds = 0\<rparr>"

definition default_plan :: pipeline_plan where
  "default_plan = \<lparr>pp_plan_id = [], pp_model_id = [], pp_manifest_revision = [],
     pp_fence = default_fence, pp_stages = [], pp_boundaries = [], pp_issued_at_utc = 0,
     pp_valid_for_ms = 0\<rparr>"

definition default_scheduling_input :: scheduling_input where
  "default_scheduling_input = \<lparr>in_model_id = [], in_manifest_revision = [], in_total_layers = 0,
     in_shard_options = [], in_boundaries = [],
     in_membership = \<lparr>snap_revision = 0, snap_members = []\<rparr>, in_network_links = [],
     in_fence = default_fence, in_policy = kMemoryBased, in_maximum_context_tokens = 0,
     in_maximum_generation_tokens = 0, in_per_device_memory_reserve_bytes = 0,
     in_maximum_quality_loss_score = 0, in_compute_balance_weight = 1,
     in_transfer_latency_weight = 1, in_use_calibrated_costs = False\<rparr>"

definition default_profile :: "time_point \<Rightarrow> capability_profile" where
  "default_profile now = \<lparr>cp_node_id = [], cp_revision = 0, cp_measured_at = 0,
     cp_received_at = now, cp_valid_for = 0, cp_total_memory_bytes = 0,
     cp_available_memory_bytes = 0, cp_cpu_model = [], cp_logical_cpu_count = 0,
     cp_accelerators = [], cp_backends = [], cp_measured_benchmarks = [],
     cp_network_to_leader = \<lparr>nm_round_trip_latency = 0, nm_available_bandwidth = 0,
       nm_measured_at = 0\<rparr>, cp_extensions = []\<rparr>"

section \<open>Lemmas\<close>

text \<open>A fence is newer than another exactly when its term is: a strict weak order on fences.\<close>

lemma newer_than_order: "strict_weak_order newer_than"
  unfolding strict_weak_order_def newer_than_def by auto

lemma layer_range_count_valid:
  "layer_range_valid r \<Longrightarrow>
     unat (layer_range_count r) = unat (lr_end_exclusive r) - unat (lr_start r)"
  unfolding layer_range_valid_def layer_range_count_def by (simp add: unat_sub)

end
