(* ===== verification/Scheduler.thy ===== *)
theory Scheduler
  imports Types
begin

text \<open>
  The placement engine of \<^verbatim>\<open>src/scheduler/memory_scheduler.cpp\<close>: backend compatibility, the
  node slots, the placement loop with its network-affinity fast path, the contiguity check and
  the final ordering. \<open>std::sort\<close> is a parameter (any function with the guarantees of
  \<^const>\<open>std_sort\<close>); the draw of the random generator and the clock are arguments.

  The lemmas show that a plan places every shard exactly once on a node that has the backend, the
  compute unit and the memory for it, that the placed layers tile \<open>[0, total_layers)\<close>, and that
  a cluster with one sufficiently large compatible node is never refused for lack of resources.
\<close>

section \<open>Plan ids, backend compatibility and time estimates\<close>

text \<open>The plan id of one draw \<open>rng\<close> of the 64-bit generator.\<close>

definition make_plan_id :: "u64 \<Rightarrow> string" where
  "make_plan_id rng = ''plan-'' @ hex (unat rng)"

fun find_backend_loop :: "shard_option \<Rightarrow> backend_capability list \<Rightarrow> backend_kind option" where
  "find_backend_loop shard [] = None"
| "find_backend_loop shard (cap_be # rest) =
     (if so_compatible_backends shard \<noteq> [] \<and> bc_kind cap_be \<notin> set (so_compatible_backends shard)
      then find_backend_loop shard rest
      else if so_required_compute_units shard = [] then Some (bc_kind cap_be)
      else if \<exists>req_cu \<in> set (so_required_compute_units shard). req_cu \<in> set (bc_compute_units cap_be)
      then Some (bc_kind cap_be)
      else find_backend_loop shard rest)"

definition find_compatible_backend :: "shard_option \<Rightarrow> capability_profile \<Rightarrow> backend_kind option" where
  "find_compatible_backend shard cap = find_backend_loop shard (cp_backends cap)"

fun time_estimate_loop :: "shard_option \<Rightarrow> backend_kind \<Rightarrow> backend_benchmark list \<Rightarrow> double" where
  "time_estimate_loop shard backend [] = so_estimated_decode_microseconds shard"
| "time_estimate_loop shard backend (bm # rest) =
     (if bb_backend bm = backend \<and> qi_kind (bb_quantization bm) = so_quantization shard then
        (if bb_decode_tokens_per_second bm > 0 then 1000000 / bb_decode_tokens_per_second bm
         else if bb_first_token_latency_us bm > 0 then of_int (bb_first_token_latency_us bm)
         else time_estimate_loop shard backend rest)
      else time_estimate_loop shard backend rest)"

definition compute_time_estimate ::
  "shard_option \<Rightarrow> capability_profile \<Rightarrow> backend_kind \<Rightarrow> double" where
  "compute_time_estimate shard cap backend =
     time_estimate_loop shard backend (cp_measured_benchmarks cap)"

section \<open>Node slots and comparators\<close>

record node_slot =
  ns_node_id :: node_id
  ns_capability :: capability_profile
  ns_remaining_memory_bytes :: u64

fun build_slots_loop :: "member list \<Rightarrow> node_slot list" where
  "build_slots_loop [] = []"
| "build_slots_loop (m # ms) =
     (if mb_state m \<noteq> kAlive then build_slots_loop ms
      else case mb_capability m of
        None \<Rightarrow> build_slots_loop ms
      | Some cap \<Rightarrow>
          \<lparr>ns_node_id = pa_node_id (mb_peer m), ns_capability = cap,
           ns_remaining_memory_bytes = cp_available_memory_bytes cap\<rparr> # build_slots_loop ms)"

definition build_node_slots :: "scheduling_input \<Rightarrow> node_slot list" where
  "build_node_slots input = build_slots_loop (snap_members (in_membership input))"

definition sensitivity_descending :: "shard_option \<Rightarrow> shard_option \<Rightarrow> bool" where
  "sensitivity_descending a b \<longleftrightarrow> so_sensitivity_score a > so_sensitivity_score b"

definition by_layer_start :: "stage_assignment \<Rightarrow> stage_assignment \<Rightarrow> bool" where
  "by_layer_start a b =
     (case (sa_layers a, sa_layers b) of
        (Some la, Some lb) \<Rightarrow> lr_start la < lr_start lb
      | (Some _, None) \<Rightarrow> False
      | (None, Some _) \<Rightarrow> True
      | (None, None) \<Rightarrow> False)"

definition by_remaining_memory_desc :: "node_slot \<Rightarrow> node_slot \<Rightarrow> bool" where
  "by_remaining_memory_desc a b \<longleftrightarrow> ns_remaining_memory_bytes a > ns_remaining_memory_bytes b"

text \<open>The comparator of the contiguity check, on stages that carry layers.\<close>

definition by_start :: "stage_assignment \<Rightarrow> stage_assignment \<Rightarrow> bool" where
  "by_start a b \<longleftrightarrow> lr_start (the (sa_layers a)) < lr_start (the (sa_layers b))"

section \<open>Placement of one shard\<close>

text \<open>The variables of \<open>schedule_core\<close> that its loop changes.\<close>

record placement =
  pl_slots :: "node_slot list"
  pl_ordinal :: u32
  pl_stages :: "stage_assignment list"
  pl_last_node :: "node_id option"
  pl_ranges :: "string set"

definition make_assignment ::
  "shard_option \<Rightarrow> node_slot \<Rightarrow> backend_kind \<Rightarrow> u64 \<Rightarrow> u32 \<Rightarrow> stage_assignment" where
  "make_assignment shard slot backend required ord =
     \<lparr>sa_ordinal = ord, sa_node_id = ns_node_id slot, sa_shard_id = so_shard_id shard,
      sa_stage_ids = so_stage_ids shard, sa_input_boundary_ids = so_input_boundary_ids shard,
      sa_output_boundary_ids = so_output_boundary_ids shard, sa_stage_kind = so_stage_kind shard,
      sa_layers = so_layers shard, sa_quantization = so_quantization shard, sa_backend = backend,
      sa_execution_profile_id = so_execution_profile_id shard, sa_artifact = so_artifact shard,
      sa_reserved_memory_bytes = required,
      sa_estimated_stage_microseconds = compute_time_estimate shard (ns_capability slot) backend\<rparr>"

text \<open>
  The lambda \<open>try_slot\<close> on the slot with index \<open>i\<close>: \<open>None\<close> when it returns false
  (nothing changed), the new variables when it returns true.
\<close>

definition try_slot :: "shard_option \<Rightarrow> u64 \<Rightarrow> placement \<Rightarrow> nat \<Rightarrow> placement option" where
  "try_slot shard required st i =
     (let slot = pl_slots st ! i in
      if ns_remaining_memory_bytes slot < required then None
      else case find_compatible_backend shard (ns_capability slot) of
        None \<Rightarrow> None
      | Some backend \<Rightarrow>
          Some (st\<lparr>pl_slots := (pl_slots st)[i := slot\<lparr>ns_remaining_memory_bytes :=
                      ns_remaining_memory_bytes slot - required\<rparr>],
                   pl_ordinal := pl_ordinal st + 1,
                   pl_stages := pl_stages st @
                     [make_assignment shard slot backend required (pl_ordinal st)],
                   pl_last_node := Some (ns_node_id slot)\<rparr>))"

text \<open>The scan over every slot; slots with the id in \<open>skip\<close> were tried already.\<close>

fun scan_slots ::
  "shard_option \<Rightarrow> u64 \<Rightarrow> node_id option \<Rightarrow> placement \<Rightarrow> nat list \<Rightarrow> placement option" where
  "scan_slots shard required skip st [] = None"
| "scan_slots shard required skip st (i # is) =
     (if skip = Some (ns_node_id (pl_slots st ! i)) then scan_slots shard required skip st is
      else case try_slot shard required st i of
        Some st' \<Rightarrow> Some st'
      | None \<Rightarrow> scan_slots shard required skip st is)"

text \<open>The network-affinity fast path: the first slot with the id of the last used node.\<close>

definition try_last_node :: "shard_option \<Rightarrow> u64 \<Rightarrow> placement \<Rightarrow> node_id option \<Rightarrow> placement option" where
  "try_last_node shard required st last_node =
     (case last_node of
        None \<Rightarrow> None
      | Some nid \<Rightarrow>
          (case List.find (\<lambda>i. ns_node_id (pl_slots st ! i) = nid) [0 ..< length (pl_slots st)] of
             None \<Rightarrow> None
           | Some i \<Rightarrow> try_slot shard required st i))"

definition range_key :: "layer_range \<Rightarrow> string" where
  "range_key r = to_string (lr_start r) @ ''-'' @ to_string (lr_end_exclusive r)"

definition required_bytes :: "scheduling_input \<Rightarrow> shard_option \<Rightarrow> u64" where
  "required_bytes input shard =
     so_peak_runtime_memory_bytes shard + in_per_device_memory_reserve_bytes input"

text \<open>One iteration of the placement loop.\<close>

definition place_shard ::
  "(node_slot list \<Rightarrow> node_slot list) \<Rightarrow> scheduling_input \<Rightarrow> bool \<Rightarrow> shard_option \<Rightarrow> placement
     \<Rightarrow> placement result" where
  "place_shard sort_slots input resort shard st0 =
     (let dup = (case so_layers shard of None \<Rightarrow> False | Some r \<Rightarrow> range_key r \<in> pl_ranges st0) in
      if dup then Err kInvalidArgument
        (''duplicate layer range ['' @ range_key (the (so_layers shard)) @ '')'')
      else
        let st1 = (case so_layers shard of None \<Rightarrow> st0
                   | Some r \<Rightarrow> st0\<lparr>pl_ranges := insert (range_key r) (pl_ranges st0)\<rparr>);
            st2 = (if resort then st1\<lparr>pl_slots := sort_slots (pl_slots st1)\<rparr> else st1);
            required = required_bytes input shard;
            last_node = (if in_network_links input \<noteq> [] then pl_last_node st2 else None)
        in case try_last_node shard required st2 last_node of
             Some st3 \<Rightarrow> Ok st3
           | None \<Rightarrow>
               (case scan_slots shard required last_node st2 [0 ..< length (pl_slots st2)] of
                  Some st3 \<Rightarrow> Ok st3
                | None \<Rightarrow> Err kResourceExhausted
                    (''no compatible node with sufficient memory for shard '' @ so_shard_id shard)))"

fun place_shards ::
  "(node_slot list \<Rightarrow> node_slot list) \<Rightarrow> scheduling_input \<Rightarrow> bool \<Rightarrow> shard_option list \<Rightarrow> placement
     \<Rightarrow> placement result" where
  "place_shards sort_slots input resort [] st = Ok st"
| "place_shards sort_slots input resort (shard # shards) st =
     (case place_shard sort_slots input resort shard st of
        Inl e \<Rightarrow> Inl e
      | Inr st' \<Rightarrow> place_shards sort_slots input resort shards st')"

section \<open>The contiguity check and the plan\<close>

fun contiguity_check :: "u32 \<Rightarrow> u32 \<Rightarrow> stage_assignment list \<Rightarrow> unit result" where
  "contiguity_check total_layers expected [] =
     (if expected \<noteq> total_layers then Err kInvalidArgument
        (''layer range does not cover all layers: ends at '' @ to_string expected @
         '' but total is '' @ to_string total_layers)
      else Ok ())"
| "contiguity_check total_layers expected (sa # rest) =
     (if lr_start (the (sa_layers sa)) \<noteq> expected then Err kInvalidArgument
        (''layer gap or overlap: expected start '' @ to_string expected @ '' but got '' @
         to_string (lr_start (the (sa_layers sa))))
      else contiguity_check total_layers (lr_end_exclusive (the (sa_layers sa))) rest)"

definition initial_placement :: "node_slot list \<Rightarrow> placement" where
  "initial_placement slots = \<lparr>pl_slots = slots, pl_ordinal = 0, pl_stages = [],
     pl_last_node = None, pl_ranges = {}\<rparr>"

definition schedule_core ::
  "(node_slot list \<Rightarrow> node_slot list) \<Rightarrow>
   ((stage_assignment \<Rightarrow> stage_assignment \<Rightarrow> bool) \<Rightarrow> stage_assignment list \<Rightarrow> stage_assignment list) \<Rightarrow>
   u64 \<Rightarrow> time_point \<Rightarrow> scheduling_input \<Rightarrow> node_slot list \<Rightarrow> bool \<Rightarrow> pipeline_plan result" where
  "schedule_core sort_slots sort_stages rng now input node_slots resort =
     (if in_shard_options input = [] then Err kInvalidArgument ''no shard options''
      else if node_slots = [] then Err kFailedPrecondition ''no live members with capabilities''
      else
        let ordered = stable_sort sensitivity_descending (in_shard_options input) in
        case place_shards sort_slots input resort ordered (initial_placement node_slots) of
          Inl e \<Rightarrow> Inl e
        | Inr st \<Rightarrow>
            (let layer_stages = filter (\<lambda>sa. sa_layers sa \<noteq> None) (pl_stages st);
                 checked = (if layer_stages = [] then Ok ()
                            else contiguity_check (in_total_layers input) 0
                                   (sort_stages by_start layer_stages))
             in case checked of
                  Inl e \<Rightarrow> Inl e
                | Inr _ \<Rightarrow>
                    Ok \<lparr>pp_plan_id = make_plan_id rng, pp_model_id = in_model_id input,
                        pp_manifest_revision = in_manifest_revision input,
                        pp_fence = in_fence input,
                        pp_stages = sort_stages by_layer_start (pl_stages st),
                        pp_boundaries = in_boundaries input, pp_issued_at_utc = now,
                        pp_valid_for_ms = 5 * 60 * 1000\<rparr>))"

text \<open>\<open>MemorySchedulerImpl\<close> and \<open>SensitivitySchedulerImpl\<close>: both re-sort the nodes.\<close>

definition memory_create_plan ::
  "(node_slot list \<Rightarrow> node_slot list) \<Rightarrow>
   ((stage_assignment \<Rightarrow> stage_assignment \<Rightarrow> bool) \<Rightarrow> stage_assignment list \<Rightarrow> stage_assignment list) \<Rightarrow>
   u64 \<Rightarrow> time_point \<Rightarrow> scheduling_input \<Rightarrow> pipeline_plan result" where
  "memory_create_plan sort_slots sort_stages rng now input =
     schedule_core sort_slots sort_stages rng now input (build_node_slots input) True"

definition memory_refine_plan ::
  "(node_slot list \<Rightarrow> node_slot list) \<Rightarrow>
   ((stage_assignment \<Rightarrow> stage_assignment \<Rightarrow> bool) \<Rightarrow> stage_assignment list \<Rightarrow> stage_assignment list) \<Rightarrow>
   u64 \<Rightarrow> time_point \<Rightarrow> scheduling_input \<Rightarrow> pipeline_plan \<Rightarrow> calibration_sample list
     \<Rightarrow> pipeline_plan result" where
  "memory_refine_plan sort_slots sort_stages rng now input base samples =
     memory_create_plan sort_slots sort_stages rng now input"

definition sensitivity_create_plan ::
  "(node_slot list \<Rightarrow> node_slot list) \<Rightarrow>
   ((stage_assignment \<Rightarrow> stage_assignment \<Rightarrow> bool) \<Rightarrow> stage_assignment list \<Rightarrow> stage_assignment list) \<Rightarrow>
   u64 \<Rightarrow> time_point \<Rightarrow> scheduling_input \<Rightarrow> pipeline_plan result" where
  "sensitivity_create_plan sort_slots sort_stages rng now input =
     schedule_core sort_slots sort_stages rng now input (build_node_slots input) True"

definition sensitivity_refine_plan ::
  "(node_slot list \<Rightarrow> node_slot list) \<Rightarrow>
   ((stage_assignment \<Rightarrow> stage_assignment \<Rightarrow> bool) \<Rightarrow> stage_assignment list \<Rightarrow> stage_assignment list) \<Rightarrow>
   u64 \<Rightarrow> time_point \<Rightarrow> scheduling_input \<Rightarrow> pipeline_plan \<Rightarrow> calibration_sample list
     \<Rightarrow> pipeline_plan result" where
  "sensitivity_refine_plan sort_slots sort_stages rng now input base samples =
     sensitivity_create_plan sort_slots sort_stages rng now input"

section \<open>Specifications\<close>

text \<open>What the standard guarantees of the three calls of \<open>std::sort\<close>.\<close>

definition std_sorts ::
  "(node_slot list \<Rightarrow> node_slot list) \<Rightarrow>
   ((stage_assignment \<Rightarrow> stage_assignment \<Rightarrow> bool) \<Rightarrow> stage_assignment list \<Rightarrow> stage_assignment list)
     \<Rightarrow> bool" where
  "std_sorts sort_slots sort_stages \<longleftrightarrow>
     std_sort by_remaining_memory_desc sort_slots \<and>
     std_sort by_start (sort_stages by_start) \<and>
     std_sort by_layer_start (sort_stages by_layer_start)"

text \<open>A stage that runs layer \<open>l\<close>.\<close>

definition runs_layer :: "nat \<Rightarrow> stage_assignment \<Rightarrow> bool" where
  "runs_layer l sa =
     (case sa_layers sa of None \<Rightarrow> False
      | Some r \<Rightarrow> unat (lr_start r) \<le> l \<and> l < unat (lr_end_exclusive r))"

text \<open>The node of \<open>cap\<close> can run \<open>shard\<close> on \<open>backend\<close>.\<close>

definition backend_fits :: "shard_option \<Rightarrow> capability_profile \<Rightarrow> backend_kind \<Rightarrow> bool" where
  "backend_fits shard cap backend \<longleftrightarrow>
     (\<exists>be \<in> set (cp_backends cap). bc_kind be = backend \<and>
        (so_compatible_backends shard = [] \<or> backend \<in> set (so_compatible_backends shard)) \<and>
        (so_required_compute_units shard = [] \<or>
           set (so_required_compute_units shard) \<inter> set (bc_compute_units be) \<noteq> {}))"

text \<open>The stage is the shard's, with every descriptive field copied.\<close>

definition stage_of_shard :: "shard_option \<Rightarrow> stage_assignment \<Rightarrow> bool" where
  "stage_of_shard shard sa \<longleftrightarrow>
     sa_shard_id sa = so_shard_id shard \<and> sa_stage_ids sa = so_stage_ids shard \<and>
     sa_input_boundary_ids sa = so_input_boundary_ids shard \<and>
     sa_output_boundary_ids sa = so_output_boundary_ids shard \<and>
     sa_stage_kind sa = so_stage_kind shard \<and> sa_layers sa = so_layers shard \<and>
     sa_quantization sa = so_quantization shard \<and>
     sa_execution_profile_id sa = so_execution_profile_id shard \<and>
     sa_artifact sa = so_artifact shard"

text \<open>The bytes that stages reserve on a node, and that slots of a node still have.\<close>

definition reserved_on :: "node_id \<Rightarrow> stage_assignment list \<Rightarrow> nat" where
  "reserved_on n stages =
     sum_list (map (\<lambda>sa. unat (sa_reserved_memory_bytes sa)) (filter (\<lambda>sa. sa_node_id sa = n) stages))"

definition memory_of :: "node_id \<Rightarrow> node_slot list \<Rightarrow> nat" where
  "memory_of n slots =
     sum_list (map (\<lambda>s. unat (ns_remaining_memory_bytes s)) (filter (\<lambda>s. ns_node_id s = n) slots))"

text \<open>A stage that is the shard's, on a slot that can run it, with the memory the shard needs.\<close>

definition stage_placed ::
  "scheduling_input \<Rightarrow> node_slot list \<Rightarrow> shard_option \<Rightarrow> stage_assignment \<Rightarrow> bool" where
  "stage_placed input slots shard sa \<longleftrightarrow>
     stage_of_shard shard sa \<and> sa_reserved_memory_bytes sa = required_bytes input shard \<and>
     (\<exists>slot \<in> set slots. ns_node_id slot = sa_node_id sa \<and>
        backend_fits shard (ns_capability slot) (sa_backend sa) \<and>
        sa_estimated_stage_microseconds sa =
          compute_time_estimate shard (ns_capability slot) (sa_backend sa))"

text \<open>The part of a slot that placement does not change.\<close>

definition slot_key :: "node_slot \<Rightarrow> node_id \<times> capability_profile" where
  "slot_key s = (ns_node_id s, ns_capability s)"

text \<open>The invariant of the placement loop after the shards in \<open>shards\<close>.\<close>

definition placement_inv ::
  "scheduling_input \<Rightarrow> node_slot list \<Rightarrow> shard_option list \<Rightarrow> placement \<Rightarrow> bool" where
  "placement_inv input slots shards st \<longleftrightarrow>
     list_all2 (stage_placed input slots) shards (pl_stages st) \<and>
     (\<forall>n. reserved_on n (pl_stages st) + memory_of n (pl_slots st) = memory_of n slots) \<and>
     image_mset slot_key (mset (pl_slots st)) = image_mset slot_key (mset slots) \<and>
     map sa_ordinal (pl_stages st) = map of_nat [0 ..< length (pl_stages st)] \<and>
     pl_ordinal st = of_nat (length (pl_stages st))"

text \<open>The caller passes nonempty layer ranges only.\<close>

definition valid_ranges :: "scheduling_input \<Rightarrow> bool" where
  "valid_ranges input \<longleftrightarrow>
     (\<forall>shard \<in> set (in_shard_options input). \<forall>r. so_layers shard = Some r \<longrightarrow> layer_range_valid r)"

text \<open>The ranges of a shard list, in order, and the condition that they tile the layers.\<close>

definition shard_ranges :: "shard_option list \<Rightarrow> layer_range list" where
  "shard_ranges shards = List.map_filter so_layers shards"

fun ranges_tile :: "u32 \<Rightarrow> u32 \<Rightarrow> layer_range list \<Rightarrow> bool" where
  "ranges_tile total_layers expected [] \<longleftrightarrow> expected = total_layers"
| "ranges_tile total_layers expected (r # rs) \<longleftrightarrow>
     lr_start r = expected \<and> layer_range_valid r \<and> ranges_tile total_layers (lr_end_exclusive r) rs"

text \<open>One slot that is compatible with every shard and has the memory of all of them.\<close>

definition hosts_all :: "scheduling_input \<Rightarrow> shard_option list \<Rightarrow> node_slot list \<Rightarrow> bool" where
  "hosts_all input shards slots \<longleftrightarrow>
     (\<exists>s \<in> set slots. (\<forall>shard \<in> set shards. \<exists>b. backend_fits shard (ns_capability s) b) \<and>
        sum_list (map (\<lambda>shard. unat (required_bytes input shard)) shards) \<le>
          unat (ns_remaining_memory_bytes s))"

section \<open>Lemmas: backends, sorts and memory accounting\<close>

lemma swo_by_remaining: "strict_weak_order by_remaining_memory_desc"
  unfolding strict_weak_order_def by_remaining_memory_desc_def by auto

lemma swo_by_start: "strict_weak_order by_start"
  unfolding strict_weak_order_def by_start_def by auto

lemma swo_by_layer_start: "strict_weak_order by_layer_start"
  unfolding strict_weak_order_def by_layer_start_def
  by (auto split: option.splits)

lemma swo_sensitivity: "strict_weak_order sensitivity_descending"
  unfolding strict_weak_order_def sensitivity_descending_def by auto

interpretation slots_sort: std_sort by_remaining_memory_desc "stable_sort by_remaining_memory_desc"
  by (rule std_sort_stable_sort [OF swo_by_remaining])

interpretation start_sort: std_sort by_start "stable_sort by_start"
  by (rule std_sort_stable_sort [OF swo_by_start])

interpretation stage_sort: std_sort by_layer_start "stable_sort by_layer_start"
  by (rule std_sort_stable_sort [OF swo_by_layer_start])

lemma std_sorts_stable: "std_sorts (stable_sort by_remaining_memory_desc) stable_sort"
  unfolding std_sorts_def
  using slots_sort.std_sort_axioms start_sort.std_sort_axioms stage_sort.std_sort_axioms by blast

lemma find_backend_loop_Some:
  "find_backend_loop shard bes = Some b \<Longrightarrow>
     \<exists>be \<in> set bes. bc_kind be = b \<and>
        (so_compatible_backends shard = [] \<or> b \<in> set (so_compatible_backends shard)) \<and>
        (so_required_compute_units shard = [] \<or>
           set (so_required_compute_units shard) \<inter> set (bc_compute_units be) \<noteq> {})"
  by (induction shard bes rule: find_backend_loop.induct) (auto split: if_splits)

lemma find_compatible_backend_fits:
  "find_compatible_backend shard cap = Some b \<Longrightarrow> backend_fits shard cap b"
  using find_backend_loop_Some unfolding find_compatible_backend_def backend_fits_def by blast

lemma find_backend_loop_None:
  "find_backend_loop shard bes = None \<Longrightarrow> be \<in> set bes \<Longrightarrow>
     \<not> ((so_compatible_backends shard = [] \<or> bc_kind be \<in> set (so_compatible_backends shard)) \<and>
        (so_required_compute_units shard = [] \<or>
           set (so_required_compute_units shard) \<inter> set (bc_compute_units be) \<noteq> {}))"
  by (induction shard bes rule: find_backend_loop.induct) (auto split: if_splits)

lemma find_compatible_backend_None:
  "find_compatible_backend shard cap = None \<longleftrightarrow> (\<forall>b. \<not> backend_fits shard cap b)"
proof
  show "find_compatible_backend shard cap = None \<Longrightarrow> \<forall>b. \<not> backend_fits shard cap b"
    using find_backend_loop_None unfolding find_compatible_backend_def backend_fits_def by metis
  show "\<forall>b. \<not> backend_fits shard cap b \<Longrightarrow> find_compatible_backend shard cap = None"
    using find_compatible_backend_fits by (cases "find_compatible_backend shard cap") auto
qed

text \<open>Memory accounting.\<close>

lemma memory_of_alt:
  "memory_of n slots =
     sum_list (map (\<lambda>s. if ns_node_id s = n then unat (ns_remaining_memory_bytes s) else 0) slots)"
  unfolding memory_of_def by (induction slots) auto

lemma memory_of_mset: "mset xs = mset ys \<Longrightarrow> memory_of n xs = memory_of n ys"
proof -
  assume "mset xs = mset ys"
  let ?f = "\<lambda>s. if ns_node_id s = n then unat (ns_remaining_memory_bytes s) else 0"
  have "sum_mset (image_mset ?f (mset xs)) = sum_mset (image_mset ?f (mset ys))"
    by (simp only: \<open>mset xs = mset ys\<close>)
  then show ?thesis by (simp only: memory_of_alt sum_mset_sum_list flip: mset_map)
qed

lemma reserved_on_snoc:
  "reserved_on n (stages @ [sa]) =
     reserved_on n stages + (if sa_node_id sa = n then unat (sa_reserved_memory_bytes sa) else 0)"
  by (simp add: reserved_on_def)

lemma memory_of_take:
  assumes "i < length slots" "required \<le> ns_remaining_memory_bytes (slots ! i)"
  shows "memory_of n (slots[i := (slots ! i)\<lparr>ns_remaining_memory_bytes :=
            ns_remaining_memory_bytes (slots ! i) - required\<rparr>]) +
     (if ns_node_id (slots ! i) = n then unat required else 0) = memory_of n slots"
proof -
  let ?f = "\<lambda>s. if ns_node_id s = n then unat (ns_remaining_memory_bytes s) else 0"
  have "?f (slots ! i) \<le> sum_list (map ?f slots)"
    using assms(1) by (metis (no_types, lifting) elem_le_sum_list length_map nth_map)
  moreover have "unat required \<le> unat (ns_remaining_memory_bytes (slots ! i))"
    using assms(2) by (simp add: word_le_nat_alt)
  ultimately show ?thesis
    unfolding memory_of_alt map_update using assms
    by (simp add: sum_list_update unat_sub del: map_update)
qed

text \<open>What a successful placement of one shard does.\<close>

lemma try_slot_Some:
  assumes "try_slot shard required st i = Some st'"
  obtains b where "required \<le> ns_remaining_memory_bytes (pl_slots st ! i)"
    "find_compatible_backend shard (ns_capability (pl_slots st ! i)) = Some b"
    "st' = st\<lparr>pl_slots := (pl_slots st)[i := (pl_slots st ! i)\<lparr>ns_remaining_memory_bytes :=
            ns_remaining_memory_bytes (pl_slots st ! i) - required\<rparr>],
        pl_ordinal := pl_ordinal st + 1,
        pl_stages := pl_stages st @
          [make_assignment shard (pl_slots st ! i) b required (pl_ordinal st)],
        pl_last_node := Some (ns_node_id (pl_slots st ! i))\<rparr>"
  using assms unfolding try_slot_def by (auto simp: Let_def split: if_splits option.splits)

lemma scan_slots_Some:
  "scan_slots shard required skip st is = Some st' \<Longrightarrow>
     \<exists>i \<in> set is. try_slot shard required st i = Some st'"
  by (induction shard required skip st "is" rule: scan_slots.induct)
    (auto split: if_splits option.splits)

lemma scan_all_slots_Some:
  "scan_slots shard required skip st [0 ..< n] = Some st' \<Longrightarrow>
     \<exists>i < n. try_slot shard required st i = Some st'"
  by (drule scan_slots_Some) auto

lemma try_last_node_Some:
  "try_last_node shard required st last_node = Some st' \<Longrightarrow>
     \<exists>i < length (pl_slots st). try_slot shard required st i = Some st'"
  unfolding try_last_node_def by (auto simp: find_Some_iff split: option.splits)

lemma place_shard_Ok:
  assumes "place_shard sort_slots input resort shard st = Ok st'"
    and "std_sort by_remaining_memory_desc sort_slots"
  obtains st2 i where "mset (pl_slots st2) = mset (pl_slots st)"
    "pl_stages st2 = pl_stages st" "pl_ordinal st2 = pl_ordinal st"
    "i < length (pl_slots st2)"
    "try_slot shard (required_bytes input shard) st2 i = Some st'"
proof -
  define st1 where "st1 = (case so_layers shard of None \<Rightarrow> st
      | Some r \<Rightarrow> st\<lparr>pl_ranges := insert (range_key r) (pl_ranges st)\<rparr>)"
  define st2 where "st2 = (if resort then st1\<lparr>pl_slots := sort_slots (pl_slots st1)\<rparr> else st1)"
  define ln where "ln = (if in_network_links input \<noteq> [] then pl_last_node st2 else None)"
  have same: "pl_slots st1 = pl_slots st" "pl_stages st1 = pl_stages st" "pl_ordinal st1 = pl_ordinal st"
    by (simp_all add: st1_def split: option.splits)
  have st2: "mset (pl_slots st2) = mset (pl_slots st)" "pl_stages st2 = pl_stages st"
    "pl_ordinal st2 = pl_ordinal st"
    using same std_sort.sort_permutes [OF assms(2)] by (simp_all add: st2_def)
  have "try_last_node shard (required_bytes input shard) st2 ln = Some st' \<or>
      scan_slots shard (required_bytes input shard) ln st2 [0 ..< length (pl_slots st2)] = Some st'"
    using assms(1) unfolding place_shard_def Let_def st1_def [symmetric] st2_def [symmetric]
      ln_def [symmetric] by (auto split: if_splits option.splits)
  then have "\<exists>i < length (pl_slots st2). try_slot shard (required_bytes input shard) st2 i = Some st'"
    by (auto dest: try_last_node_Some scan_all_slots_Some)
  then obtain i where "i < length (pl_slots st2)"
    "try_slot shard (required_bytes input shard) st2 i = Some st'" by blast
  with st2 show ?thesis by (rule that)
qed

lemma slot_key_update: "slot_key (s\<lparr>ns_remaining_memory_bytes := v\<rparr>) = slot_key s"
  by (simp add: slot_key_def)

lemma mset_slot_key_update:
  "i < length slots \<Longrightarrow>
     image_mset slot_key (mset (slots[i := (slots ! i)\<lparr>ns_remaining_memory_bytes := v\<rparr>])) =
     image_mset slot_key (mset slots)"
proof -
  assume "i < length slots"
  then have "map slot_key (slots[i := (slots ! i)\<lparr>ns_remaining_memory_bytes := v\<rparr>]) = map slot_key slots"
    by (intro nth_equalityI) (auto simp: nth_list_update slot_key_update)
  then show ?thesis by (simp only: flip: mset_map)
qed

lemma make_assignment_placed:
  assumes "slot_key slot \<in> slot_key ` set slots" "find_compatible_backend shard (ns_capability slot) = Some b"
  shows "stage_placed input slots shard (make_assignment shard slot b (required_bytes input shard) ord)"
  using assms find_compatible_backend_fits [OF assms(2)]
  unfolding stage_placed_def stage_of_shard_def make_assignment_def slot_key_def
  by (auto; metis)

lemma placement_inv_step:
  assumes inv: "placement_inv input slots shards st"
    and ok: "place_shard sort_slots input resort shard st = Ok st'"
    and srt: "std_sort by_remaining_memory_desc sort_slots"
  shows "placement_inv input slots (shards @ [shard]) st'"
proof -
  obtain st2 i where st2: "mset (pl_slots st2) = mset (pl_slots st)"
    "pl_stages st2 = pl_stages st" "pl_ordinal st2 = pl_ordinal st" "i < length (pl_slots st2)"
    and tried: "try_slot shard (required_bytes input shard) st2 i = Some st'"
    by (rule place_shard_Ok [OF ok srt])
  obtain b where b: "required_bytes input shard \<le> ns_remaining_memory_bytes (pl_slots st2 ! i)"
    "find_compatible_backend shard (ns_capability (pl_slots st2 ! i)) = Some b"
    and st': "st' = st2\<lparr>pl_slots := (pl_slots st2)[i := (pl_slots st2 ! i)\<lparr>ns_remaining_memory_bytes :=
            ns_remaining_memory_bytes (pl_slots st2 ! i) - required_bytes input shard\<rparr>],
        pl_ordinal := pl_ordinal st2 + 1,
        pl_stages := pl_stages st2 @
          [make_assignment shard (pl_slots st2 ! i) b (required_bytes input shard) (pl_ordinal st2)],
        pl_last_node := Some (ns_node_id (pl_slots st2 ! i))\<rparr>"
    by (rule try_slot_Some [OF tried])
  have keys: "image_mset slot_key (mset (pl_slots st2)) = image_mset slot_key (mset slots)"
    using inv st2(1) by (simp add: placement_inv_def)
  then have "slot_key ` set (pl_slots st2) = slot_key ` set slots"
    by (metis set_image_mset set_mset_mset)
  then have "slot_key (pl_slots st2 ! i) \<in> slot_key ` set slots"
    using st2(4) by (metis imageI nth_mem)
  from make_assignment_placed [OF this b(2)] have
    "stage_placed input slots shard (make_assignment shard (pl_slots st2 ! i) b
       (required_bytes input shard) (pl_ordinal st2))" .
  moreover have "reserved_on n (pl_stages st') + memory_of n (pl_slots st') = memory_of n slots" for n
  proof -
    have "reserved_on n (pl_stages st) + memory_of n (pl_slots st2) = memory_of n slots"
      using inv memory_of_mset [OF st2(1), of n] by (simp add: placement_inv_def)
    then show ?thesis
      using memory_of_take [OF st2(4) b(1), of n]
      by (simp add: st' st2(2) reserved_on_snoc make_assignment_def split: if_splits)
  qed
  ultimately show ?thesis
    using inv st2 keys unfolding placement_inv_def st'
    by (simp add: mset_slot_key_update list_all2_appendI make_assignment_def)
qed

lemma place_shards_inv:
  assumes "place_shards sort_slots input resort todo st = Ok st'"
    "placement_inv input slots shards st" "std_sort by_remaining_memory_desc sort_slots"
  shows "placement_inv input slots (shards @ todo) st'"
  using assms
proof (induction todo arbitrary: st shards)
  case (Cons s todo)
  then obtain st1 where st1: "place_shard sort_slots input resort s st = Ok st1"
    "place_shards sort_slots input resort todo st1 = Ok st'"
    by (auto split: sum.splits)
  from Cons.IH [OF st1(2) placement_inv_step [OF Cons.prems(2) st1(1) Cons.prems(3)] Cons.prems(3)]
  show ?case by simp
qed simp

lemma initial_placement_inv: "placement_inv input slots [] (initial_placement slots)"
  by (simp add: placement_inv_def initial_placement_def reserved_on_def)

section \<open>Lemmas: layer coverage\<close>

lemma list_all2_stage_layers:
  "list_all2 (stage_placed input slots) shards stages \<Longrightarrow> map sa_layers stages = map so_layers shards"
  by (induction rule: list_all2_induct) (auto simp: stage_placed_def stage_of_shard_def)

text \<open>A plan comes from a completed placement.\<close>

lemma schedule_core_Ok:
  assumes "schedule_core sort_slots sort_stages rng now input slots resort = Ok plan"
    and "std_sorts sort_slots sort_stages"
  obtains st where
    "placement_inv input slots (stable_sort sensitivity_descending (in_shard_options input)) st"
    "pp_stages plan = sort_stages by_layer_start (pl_stages st)"
    "filter (\<lambda>sa. sa_layers sa \<noteq> None) (pl_stages st) \<noteq> [] \<longrightarrow>
       contiguity_check (in_total_layers input) 0
         (sort_stages by_start (filter (\<lambda>sa. sa_layers sa \<noteq> None) (pl_stages st))) = Ok ()"
    "in_shard_options input \<noteq> []" "slots \<noteq> []"
proof -
  let ?ord = "stable_sort sensitivity_descending (in_shard_options input)"
  obtain st where st: "place_shards sort_slots input resort ?ord (initial_placement slots) = Ok st"
    and rest: "in_shard_options input \<noteq> []" "slots \<noteq> []"
    "pp_stages plan = sort_stages by_layer_start (pl_stages st)"
    "filter (\<lambda>sa. sa_layers sa \<noteq> None) (pl_stages st) \<noteq> [] \<longrightarrow>
       contiguity_check (in_total_layers input) 0
         (sort_stages by_start (filter (\<lambda>sa. sa_layers sa \<noteq> None) (pl_stages st))) = Ok ()"
    using assms(1) unfolding schedule_core_def
    by (auto simp: Let_def split: if_splits sum.splits)
  have "placement_inv input slots ([] @ ?ord) st"
    using place_shards_inv [OF st initial_placement_inv] assms(2) by (simp add: std_sorts_def)
  then show ?thesis using rest by (intro that) simp_all
qed

lemma runs_layer_Some:
  "sa_layers sa = Some r \<Longrightarrow>
     runs_layer l sa \<longleftrightarrow> unat (lr_start r) \<le> l \<and> l < unat (lr_end_exclusive r)"
  by (simp add: runs_layer_def)

text \<open>A list of stages that passes the check tiles the layers.\<close>

lemma contiguity_check_tiles:
  assumes "contiguity_check total_layers expected xs = Ok ()"
    "\<forall>sa \<in> set xs. \<exists>r. sa_layers sa = Some r \<and> layer_range_valid r"
  shows "unat expected \<le> unat total_layers \<and>
    length (filter (runs_layer l) xs) =
      (if unat expected \<le> l \<and> l < unat total_layers then 1 else 0)"
  using assms
proof (induction total_layers expected xs rule: contiguity_check.induct)
  case (2 total_layers expected sa rest)
  then obtain r where r: "sa_layers sa = Some r" "layer_range_valid r" by auto
  with 2 have "lr_start r = expected" "unat (lr_end_exclusive r) \<le> unat total_layers"
    "length (filter (runs_layer l) rest) =
       (if unat (lr_end_exclusive r) \<le> l \<and> l < unat total_layers then 1 else 0)"
    by (auto split: if_splits)
  moreover from r have "unat (lr_start r) < unat (lr_end_exclusive r)"
    by (simp add: layer_range_valid_def word_less_nat_alt)
  ultimately show ?case using r by (auto simp: runs_layer_Some)
qed (auto split: if_splits)

lemma runs_layer_has_layers: "runs_layer l sa \<Longrightarrow> sa_layers sa \<noteq> None"
  by (auto simp: runs_layer_def split: option.splits)

lemma length_filter_mset: "mset xs = mset ys \<Longrightarrow> length (filter P xs) = length (filter P ys)"
  by (metis mset_filter size_mset)

lemma sorted_starts:
  "sorted_wrt (\<lambda>a b. \<not> by_start b a) xs \<Longrightarrow> sorted (map (\<lambda>sa. lr_start (the (sa_layers sa))) xs)"
  by (induction xs) (auto simp: by_start_def not_less)

text \<open>
  Equal multisets of stages that carry layers with pairwise different starts have one sorted
  arrangement.
\<close>

lemma sorted_by_start_unique:
  assumes "mset xs = mset ys" "sorted_wrt (\<lambda>a b. \<not> by_start b a) xs"
    "sorted_wrt (\<lambda>a b. \<not> by_start b a) ys"
    "inj_on (\<lambda>sa. lr_start (the (sa_layers sa))) (set xs)"
  shows "xs = ys"
proof -
  let ?k = "\<lambda>sa. lr_start (the (sa_layers sa))"
  have "sort_key ?k xs = xs"
    by (rule sort_key_inj_key_eq [OF refl assms(4) sorted_starts [OF assms(2)]])
  moreover have "sort_key ?k xs = ys"
    by (rule sort_key_inj_key_eq [OF assms(1) assms(4) sorted_starts [OF assms(3)]])
  ultimately show ?thesis by (rule trans [OF sym])
qed

lemma by_layer_start_filter:
  "sorted_wrt (\<lambda>a b. \<not> by_layer_start b a) xs \<Longrightarrow>
     sorted_wrt (\<lambda>a b. \<not> by_start b a) (filter (\<lambda>sa. sa_layers sa \<noteq> None) xs)"
  by (induction xs) (auto simp: by_layer_start_def by_start_def)

lemma contiguity_check_starts:
  assumes "contiguity_check total_layers expected xs = Ok ()"
    "\<forall>sa \<in> set xs. \<exists>r. sa_layers sa = Some r \<and> layer_range_valid r"
  shows "distinct (map (\<lambda>sa. lr_start (the (sa_layers sa))) xs) \<and>
    (\<forall>sa \<in> set xs. expected \<le> lr_start (the (sa_layers sa)))"
  using assms
proof (induction total_layers expected xs rule: contiguity_check.induct)
  case (2 total_layers expected sa rest)
  then obtain r where r: "sa_layers sa = Some r" "expected < lr_end_exclusive r" "lr_start r = expected"
    by (auto simp: layer_range_valid_def split: if_splits)
  with 2 have "distinct (map (\<lambda>sa. lr_start (the (sa_layers sa))) rest)"
    "\<forall>sa \<in> set rest. lr_end_exclusive r \<le> lr_start (the (sa_layers sa))"
    by (auto split: if_splits)
  with r show ?case by fastforce
qed simp

lemma placed_ranges_valid:
  assumes "placement_inv input slots (stable_sort lt (in_shard_options input)) st" "valid_ranges input"
    "sa \<in> set (pl_stages st)" "sa_layers sa = Some r"
  shows "layer_range_valid r"
proof -
  have "map sa_layers (pl_stages st) = map so_layers (stable_sort lt (in_shard_options input))"
    using assms(1) by (auto simp: placement_inv_def dest: list_all2_stage_layers)
  then have "sa_layers ` set (pl_stages st) = so_layers ` set (in_shard_options input)"
    by (metis list.set_map set_stable_sort)
  then obtain shard where "shard \<in> set (in_shard_options input)" "so_layers shard = Some r"
    using assms(3,4) by (metis (no_types, lifting) imageE imageI)
  with assms(2) show ?thesis by (auto simp: valid_ranges_def)
qed

lemma plan_layer_stages_contiguous:
  assumes ok: "schedule_core sort_slots sort_stages rng now input slots resort = Ok plan"
    and srt: "std_sorts sort_slots sort_stages" and valid: "valid_ranges input"
    and some: "filter (\<lambda>sa. sa_layers sa \<noteq> None) (pp_stages plan) \<noteq> []"
  shows "contiguity_check (in_total_layers input) 0
     (filter (\<lambda>sa. sa_layers sa \<noteq> None) (pp_stages plan)) = Ok ()"
    and "\<forall>sa \<in> set (pp_stages plan). \<forall>r. sa_layers sa = Some r \<longrightarrow> layer_range_valid r"
proof -
  obtain st where inv: "placement_inv input slots (stable_sort sensitivity_descending (in_shard_options input)) st"
    and stages: "pp_stages plan = sort_stages by_layer_start (pl_stages st)"
    and check: "filter (\<lambda>sa. sa_layers sa \<noteq> None) (pl_stages st) \<noteq> [] \<longrightarrow>
       contiguity_check (in_total_layers input) 0
         (sort_stages by_start (filter (\<lambda>sa. sa_layers sa \<noteq> None) (pl_stages st))) = Ok ()"
    and "in_shard_options input \<noteq> []" "slots \<noteq> []"
    by (rule schedule_core_Ok [OF ok srt])
  let ?L = "\<lambda>sa. sa_layers sa \<noteq> None"
  have s1: "std_sort by_start (sort_stages by_start)"
    and s2: "std_sort by_layer_start (sort_stages by_layer_start)"
    using srt by (simp_all add: std_sorts_def)
  let ?xs = "sort_stages by_start (filter ?L (pl_stages st))"
  let ?ys = "filter ?L (pp_stages plan)"
  have m: "mset ?xs = mset ?ys"
    using std_sort.sort_permutes [OF s1] std_sort.sort_permutes [OF s2] by (simp add: stages)
  have valid': "\<forall>sa \<in> set (pl_stages st). \<forall>r. sa_layers sa = Some r \<longrightarrow> layer_range_valid r"
    using placed_ranges_valid [OF inv valid] by blast
  then show "\<forall>sa \<in> set (pp_stages plan). \<forall>r. sa_layers sa = Some r \<longrightarrow> layer_range_valid r"
    using std_sort.sort_set [OF s2] by (simp add: stages)
  have ne: "filter ?L (pl_stages st) \<noteq> []"
    using some m std_sort.sort_nil [OF s1] by auto
  have "set ?xs = set (filter ?L (pl_stages st))"
    by (rule std_sort.sort_set [OF s1])
  then have vx: "\<forall>sa \<in> set ?xs. \<exists>r. sa_layers sa = Some r \<and> layer_range_valid r"
    using valid' by fastforce
  have "inj_on (\<lambda>sa. lr_start (the (sa_layers sa))) (set ?xs)"
    using contiguity_check_starts [OF check [rule_format, OF ne] vx] by (simp add: distinct_map)
  moreover have "sorted_wrt (\<lambda>a b. \<not> by_start b a) ?ys"
    unfolding stages by (rule by_layer_start_filter [OF std_sort.sort_orders [OF s2]])
  ultimately have "?xs = ?ys"
    by (intro sorted_by_start_unique [OF m std_sort.sort_orders [OF s1]])
  with check [rule_format, OF ne] show "contiguity_check (in_total_layers input) 0 ?ys = Ok ()" by simp
qed

lemma plan_runs_each_layer_once:
  assumes "schedule_core sort_slots sort_stages rng now input slots resort = Ok plan"
    and "std_sorts sort_slots sort_stages" and "valid_ranges input"
    and "\<exists>sa \<in> set (pp_stages plan). sa_layers sa \<noteq> None"
  shows "length (filter (runs_layer l) (pp_stages plan)) =
     (if l < unat (in_total_layers input) then 1 else 0)"
proof -
  let ?L = "\<lambda>sa. sa_layers sa \<noteq> None"
  have ne: "filter ?L (pp_stages plan) \<noteq> []" using assms(4) by (auto simp: filter_empty_conv)
  note c = plan_layer_stages_contiguous [OF assms(1-3) ne]
  have "length (filter (runs_layer l) (filter ?L (pp_stages plan))) =
      (if l < unat (in_total_layers input) then 1 else 0)"
    using contiguity_check_tiles [OF c(1), of l] c(2) by fastforce
  moreover have "filter (runs_layer l) (filter ?L (pp_stages plan)) = filter (runs_layer l) (pp_stages plan)"
    by (auto intro!: filter_cong dest: runs_layer_has_layers)
  ultimately show ?thesis by simp
qed

section \<open>Lemmas: feasibility\<close>

lemma not_digit_dash: "\<not> is_digit CHR ''-''"
  by (simp add: is_digit_def)

lemma range_key_inject: "range_key a = range_key b \<longleftrightarrow> a = b"
proof
  assume "range_key a = range_key b"
  then have "unat (lr_start a) = unat (lr_start b) \<and>
      dec (unat (lr_end_exclusive a)) = dec (unat (lr_end_exclusive b))"
    unfolding range_key_def to_string_def
    using not_digit_dash by (intro split_dec_unique [where c = "CHR ''-''"]) simp_all
  then show "a = b" by (cases a; cases b) (simp add: word_unat_eq_iff)
qed simp

lemma scan_slots_None:
  "scan_slots shard required skip st is = None \<Longrightarrow> i \<in> set is \<Longrightarrow>
     skip = Some (ns_node_id (pl_slots st ! i)) \<or> try_slot shard required st i = None"
  by (induction shard required skip st "is" rule: scan_slots.induct)
    (auto split: if_splits option.splits)

lemma try_slot_possible:
  assumes "required \<le> ns_remaining_memory_bytes (pl_slots st ! i)"
    "backend_fits shard (ns_capability (pl_slots st ! i)) b"
  shows "try_slot shard required st i \<noteq> None"
proof -
  have "find_compatible_backend shard (ns_capability (pl_slots st ! i)) \<noteq> None"
    using assms(2) find_compatible_backend_None by blast
  with assms(1) show ?thesis
    unfolding try_slot_def by (auto simp: Let_def split: option.splits)
qed

lemma try_last_node_distinct:
  assumes "distinct (map ns_node_id (pl_slots st))" "i < length (pl_slots st)"
  shows "try_last_node shard required st (Some (ns_node_id (pl_slots st ! i))) =
     try_slot shard required st i"
proof -
  have "List.find (\<lambda>j. ns_node_id (pl_slots st ! j) = ns_node_id (pl_slots st ! i))
      [0 ..< length (pl_slots st)] = Some i"
    using assms by (auto simp: find_upt_Some distinct_conv_nth)
  then show ?thesis by (simp add: try_last_node_def)
qed

text \<open>A shard that some slot can take is placed.\<close>

lemma place_shard_possible:
  assumes ids: "distinct (map ns_node_id (pl_slots st))"
    and srt: "std_sort by_remaining_memory_desc sort_slots"
    and fresh: "\<And>r. so_layers shard = Some r \<Longrightarrow> range_key r \<notin> pl_ranges st"
    and s: "s \<in> set (pl_slots st)" "required_bytes input shard \<le> ns_remaining_memory_bytes s"
      "backend_fits shard (ns_capability s) b"
  shows "\<exists>st'. place_shard sort_slots input resort shard st = Ok st'"
proof -
  let ?req = "required_bytes input shard"
  define st1 where "st1 = (case so_layers shard of None \<Rightarrow> st
      | Some r \<Rightarrow> st\<lparr>pl_ranges := insert (range_key r) (pl_ranges st)\<rparr>)"
  define st2 where "st2 = (if resort then st1\<lparr>pl_slots := sort_slots (pl_slots st1)\<rparr> else st1)"
  define ln where "ln = (if in_network_links input \<noteq> [] then pl_last_node st2 else None)"
  have "pl_slots st1 = pl_slots st" by (simp add: st1_def split: option.splits)
  then have perm: "mset (pl_slots st2) = mset (pl_slots st)"
    using std_sort.sort_permutes [OF srt] by (simp add: st2_def)
  then have ids2: "distinct (map ns_node_id (pl_slots st2))"
    using ids by (metis mset_eq_imp_distinct_iff mset_map)
  from perm s(1) have "s \<in> set (pl_slots st2)" by (metis set_mset_mset)
  then obtain i where i: "i < length (pl_slots st2)" "pl_slots st2 ! i = s"
    by (auto simp: in_set_conv_nth)
  have possible: "try_slot shard ?req st2 i \<noteq> None"
    using try_slot_possible i(2) s(2,3) by blast
  have "try_last_node shard ?req st2 ln \<noteq> None \<or>
      scan_slots shard ?req ln st2 [0 ..< length (pl_slots st2)] \<noteq> None"
  proof (rule ccontr)
    assume neg: "\<not> ?thesis"
    with scan_slots_None [of shard ?req ln st2 _ i] i(1) possible
    have "ln = Some (ns_node_id (pl_slots st2 ! i))" by auto
    with neg possible try_last_node_distinct [OF ids2 i(1)] show False by auto
  qed
  moreover have "\<not> (case so_layers shard of None \<Rightarrow> False | Some r \<Rightarrow> range_key r \<in> pl_ranges st)"
    using fresh by (auto split: option.splits)
  ultimately show ?thesis
    unfolding place_shard_def Let_def st1_def [symmetric] st2_def [symmetric] ln_def [symmetric]
    by (auto split: option.splits)
qed

text \<open>Placing a shard keeps the host of the others, the node ids and the range keys.\<close>

lemma place_shard_ranges:
  assumes "place_shard sort_slots input resort shard st = Ok st'"
  shows "pl_ranges st' = pl_ranges st \<union> range_key ` set_option (so_layers shard)"
proof -
  have keep: "pl_ranges st' = pl_ranges st0" if "try_slot shard r st0 i = Some st'" for st0 r i
    by (rule try_slot_Some [OF that]) simp
  have "pl_ranges st' = pl_ranges st0"
    if "try_last_node shard r st0 ln = Some st' \<or> scan_slots shard r ln st0 [0 ..< n] = Some st'"
    for r st0 ln n
    using that keep by (auto dest!: try_last_node_Some scan_all_slots_Some)
  from this [OF disjI1] this [OF disjI2] show ?thesis
    using assms unfolding place_shard_def Let_def
    by (auto split: if_splits option.splits)
qed

lemma place_shard_hosts:
  assumes ok: "place_shard sort_slots input resort shard st = Ok st'"
    and srt: "std_sort by_remaining_memory_desc sort_slots"
    and host: "hosts_all input (shard # todo) (pl_slots st)"
  shows "hosts_all input todo (pl_slots st')"
proof -
  let ?req = "required_bytes input shard"
  obtain st2 i where st2: "mset (pl_slots st2) = mset (pl_slots st)" "i < length (pl_slots st2)"
    and tried: "try_slot shard ?req st2 i = Some st'"
    by (rule place_shard_Ok [OF ok srt])
  obtain s where s: "s \<in> set (pl_slots st2)"
    "\<forall>sh \<in> set todo. \<exists>b. backend_fits sh (ns_capability s) b"
    "unat ?req + sum_list (map (\<lambda>sh. unat (required_bytes input sh)) todo) \<le>
       unat (ns_remaining_memory_bytes s)"
    using host st2(1) unfolding hosts_all_def by (auto simp flip: set_mset_mset)
  obtain b where le: "?req \<le> ns_remaining_memory_bytes (pl_slots st2 ! i)"
    and slots': "pl_slots st' = (pl_slots st2)[i := (pl_slots st2 ! i)\<lparr>ns_remaining_memory_bytes :=
            ns_remaining_memory_bytes (pl_slots st2 ! i) - ?req\<rparr>]"
    by (rule try_slot_Some [OF tried]) simp
  obtain j where j: "j < length (pl_slots st2)" "pl_slots st2 ! j = s"
    using s(1) by (auto simp: in_set_conv_nth)
  have "unat (ns_remaining_memory_bytes s) \<le> unat (ns_remaining_memory_bytes (pl_slots st' ! j)) + unat ?req"
    "ns_capability (pl_slots st' ! j) = ns_capability s"
    using j st2(2) le by (auto simp: slots' nth_list_update unat_sub word_le_nat_alt)
  moreover have "pl_slots st' ! j \<in> set (pl_slots st')"
    using j by (simp add: slots')
  ultimately show ?thesis
    using s(2,3) unfolding hosts_all_def by (intro bexI [of _ "pl_slots st' ! j"]) auto
qed

lemma place_shard_distinct_ids:
  assumes ok: "place_shard sort_slots input resort shard st = Ok st'"
    and srt: "std_sort by_remaining_memory_desc sort_slots"
    and ids: "distinct (map ns_node_id (pl_slots st))"
  shows "distinct (map ns_node_id (pl_slots st'))"
proof -
  obtain st2 i where st2: "mset (pl_slots st2) = mset (pl_slots st)" "i < length (pl_slots st2)"
    and tried: "try_slot shard (required_bytes input shard) st2 i = Some st'"
    by (rule place_shard_Ok [OF ok srt])
  have "map ns_node_id (pl_slots st') = map ns_node_id (pl_slots st2)"
    by (rule try_slot_Some [OF tried]) (auto simp: st2(2) nth_list_update intro!: nth_equalityI)
  moreover have "distinct (map ns_node_id (pl_slots st2))"
    using ids st2(1) by (metis mset_eq_imp_distinct_iff mset_map)
  ultimately show ?thesis by simp
qed

lemma shard_ranges_Cons:
  "shard_ranges (s # shards) = (case so_layers s of None \<Rightarrow> [] | Some r \<Rightarrow> [r]) @ shard_ranges shards"
  by (simp add: shard_ranges_def map_filter_simps split: option.splits)

lemma place_shards_possible:
  assumes "std_sort by_remaining_memory_desc sort_slots"
    "distinct (map ns_node_id (pl_slots st))" "hosts_all input todo (pl_slots st)"
    "distinct (shard_ranges todo)" "range_key ` set (shard_ranges todo) \<inter> pl_ranges st = {}"
  shows "\<exists>st'. place_shards sort_slots input resort todo st = Ok st'"
  using assms(2-)
proof (induction todo arbitrary: st)
  case (Cons shard todo)
  obtain s b where s: "s \<in> set (pl_slots st)" "backend_fits shard (ns_capability s) b"
    "unat (required_bytes input shard) \<le> unat (ns_remaining_memory_bytes s)"
    using Cons.prems(2) unfolding hosts_all_def by (auto dest: add_leD1)
  have fresh: "range_key r \<notin> pl_ranges st" if "so_layers shard = Some r" for r
    using Cons.prems(4) that by (auto simp: shard_ranges_Cons)
  obtain st1 where st1: "place_shard sort_slots input resort shard st = Ok st1"
    using place_shard_possible [OF Cons.prems(1) assms(1) fresh s(1) _ s(2)] s(3)
    unfolding word_le_nat_alt by blast
  have "range_key ` set (shard_ranges todo) \<inter> pl_ranges st1 = {}"
    using Cons.prems(3,4) unfolding place_shard_ranges [OF st1]
    by (auto simp: shard_ranges_Cons range_key_inject split: option.splits)
  moreover have "distinct (shard_ranges todo)"
    using Cons.prems(3) by (simp add: shard_ranges_Cons)
  ultimately have "\<exists>st'. place_shards sort_slots input resort todo st1 = Ok st'"
    by (intro Cons.IH place_shard_distinct_ids [OF st1 assms(1) Cons.prems(1)]
        place_shard_hosts [OF st1 assms(1) Cons.prems(2)])
  with st1 show ?case by simp
qed simp

text \<open>Tiling ranges have strictly increasing starts, and the check accepts them.\<close>

lemma ranges_tile_starts:
  assumes "ranges_tile total_layers expected rs"
  shows "distinct (map lr_start rs) \<and> sorted (map lr_start rs) \<and> (\<forall>r \<in> set rs. expected \<le> lr_start r)"
  using assms
proof (induction total_layers expected rs rule: ranges_tile.induct)
  case (2 total_layers expected r rs)
  then have "lr_start r = expected" "expected < lr_end_exclusive r"
    by (auto simp: layer_range_valid_def)
  with 2 show ?case by fastforce
qed simp

lemma contiguity_check_tile:
  "map sa_layers xs = map Some rs \<Longrightarrow> ranges_tile total_layers expected rs \<Longrightarrow>
     contiguity_check total_layers expected xs = Ok ()"
proof (induction total_layers expected rs arbitrary: xs rule: ranges_tile.induct)
  case (2 total_layers expected r rs)
  then obtain sa ys where "xs = sa # ys" "sa_layers sa = Some r" "map sa_layers ys = map Some rs"
    by auto
  with 2 show ?case by simp
qed simp

lemma sorted_stages_are_ranges:
  assumes "std_sort by_start srt" "ranges_tile total_layers expected rs"
    "mset (map sa_layers stages) = mset (map Some rs)"
  shows "map sa_layers (srt stages) = map Some rs"
proof -
  let ?ys = "map (\<lambda>sa. the (sa_layers sa)) (srt stages)"
  have all: "\<forall>sa \<in> set (srt stages). sa_layers sa \<noteq> None"
    using arg_cong [OF assms(3), of set_mset] std_sort.sort_set [OF assms(1)] by auto
  have "mset (map sa_layers (srt stages)) = mset (map Some rs)"
    using assms(3) std_sort.sort_permutes [OF assms(1)] by simp
  from arg_cong [OF this, of "image_mset the"] have m: "mset rs = mset ?ys"
    by (simp add: multiset.map_comp comp_def)
  have some: "map sa_layers (srt stages) = map Some ?ys"
    using all by (auto simp: comp_def)
  have starts: "inj_on lr_start (set rs)" "sorted (map lr_start rs)"
    using ranges_tile_starts [OF assms(2)] by (simp_all add: distinct_map)
  have "sorted (map lr_start ?ys)"
    using sorted_starts [OF std_sort.sort_orders [OF assms(1)]] by (simp add: comp_def)
  then have "sort_key lr_start rs = ?ys"
    by (rule sort_key_inj_key_eq [OF m starts(1)])
  moreover have "sort_key lr_start rs = rs"
    by (rule sort_key_inj_key_eq [OF refl starts])
  ultimately show ?thesis using some by simp
qed


text \<open>A cluster with one sufficiently large compatible node is never refused.\<close>

lemma filter_layers_shard_ranges:
  assumes "map sa_layers stages = map so_layers shards"
  shows "map sa_layers (filter (\<lambda>sa. sa_layers sa \<noteq> None) stages) = map Some (shard_ranges shards)"
  using assms
proof (induction shards arbitrary: stages)
  case (Cons s shards)
  then obtain sa rest where "stages = sa # rest" "sa_layers sa = so_layers s"
    "map sa_layers rest = map so_layers shards" by auto
  with Cons.IH [of rest] show ?case by (auto simp: shard_ranges_Cons split: option.splits)
qed (simp add: shard_ranges_def map_filter_simps)

lemma mset_shard_ranges: "mset xs = mset ys \<Longrightarrow> mset (shard_ranges xs) = mset (shard_ranges ys)"
  by (simp add: shard_ranges_def map_filter_def)

lemma hosts_all_mset:
  "mset xs = mset ys \<Longrightarrow> hosts_all input xs slots \<longleftrightarrow> hosts_all input ys slots"
proof -
  assume m: "mset xs = mset ys"
  then have "sum_list (map f xs) = sum_list (map f ys)" for f :: "shard_option \<Rightarrow> nat"
    by (metis mset_map sum_mset_sum_list)
  moreover from m have "set xs = set ys" by (metis set_mset_mset)
  ultimately show ?thesis by (simp add: hosts_all_def)
qed

lemma schedule_core_feasible:
  assumes srt: "std_sorts sort_slots sort_stages"
    and ids: "distinct (map ns_node_id slots)"
    and ne: "in_shard_options input \<noteq> []"
    and host: "hosts_all input (in_shard_options input) slots"
    and tile: "ranges_tile (in_total_layers input) 0
        (sort_key lr_start (shard_ranges (in_shard_options input)))"
  shows "\<exists>plan. schedule_core sort_slots sort_stages rng now input slots resort = Ok plan"
proof -
  let ?ord = "stable_sort sensitivity_descending (in_shard_options input)"
  let ?rs = "sort_key lr_start (shard_ranges (in_shard_options input))"
  have s1: "std_sort by_remaining_memory_desc sort_slots" and s2: "std_sort by_start (sort_stages by_start)"
    using srt by (simp_all add: std_sorts_def)
  have rs: "mset (shard_ranges ?ord) = mset ?rs"
    using mset_shard_ranges [of ?ord "in_shard_options input"] by simp
  have "distinct ?rs" using ranges_tile_starts [OF tile] by (simp add: distinct_map)
  then have "distinct (shard_ranges ?ord)" using mset_eq_imp_distinct_iff [OF rs] by simp
  moreover have "hosts_all input ?ord slots" using host hosts_all_mset by (metis mset_stable_sort)
  ultimately obtain st where st: "place_shards sort_slots input resort ?ord (initial_placement slots) = Ok st"
    using place_shards_possible [OF s1, of "initial_placement slots" input ?ord resort] ids
    by (auto simp: initial_placement_def)
  let ?ls = "filter (\<lambda>sa. sa_layers sa \<noteq> None) (pl_stages st)"
  have "placement_inv input slots ?ord st"
    using place_shards_inv [OF st initial_placement_inv s1] by simp
  then have "map sa_layers ?ls = map Some (shard_ranges ?ord)"
    by (intro filter_layers_shard_ranges) (auto simp: placement_inv_def dest: list_all2_stage_layers)
  then have "mset (map sa_layers ?ls) = mset (map Some ?rs)" using rs by simp
  from contiguity_check_tile [OF sorted_stages_are_ranges [OF s2 tile this] tile]
  have "contiguity_check (in_total_layers input) 0 (sort_stages by_start ?ls) = Ok ()" .
  moreover have "slots \<noteq> []" using host by (auto simp: hosts_all_def)
  ultimately show ?thesis using ne st unfolding schedule_core_def by (simp add: Let_def)
qed

lemma contiguity_check_ranges_tile:
  "contiguity_check total_layers expected xs = Ok () \<Longrightarrow>
     \<forall>sa \<in> set xs. \<exists>r. sa_layers sa = Some r \<and> layer_range_valid r \<Longrightarrow>
     ranges_tile total_layers expected (List.map_filter sa_layers xs)"
  by (induction total_layers expected xs rule: contiguity_check.induct)
    (auto simp: map_filter_simps split: if_splits)

lemma plan_layer_ranges_tile:
  assumes "schedule_core sort_slots sort_stages rng now input slots resort = Ok plan"
    and "std_sorts sort_slots sort_stages" and "valid_ranges input"
    and "\<exists>sa \<in> set (pp_stages plan). sa_layers sa \<noteq> None"
  shows "ranges_tile (in_total_layers input) 0 (List.map_filter sa_layers (pp_stages plan))"
proof -
  let ?L = "\<lambda>sa. sa_layers sa \<noteq> None"
  have ne: "filter ?L (pp_stages plan) \<noteq> []" using assms(4) by (auto simp: filter_empty_conv)
  note c = plan_layer_stages_contiguous [OF assms(1-3) ne]
  have "List.map_filter sa_layers (filter ?L (pp_stages plan)) = List.map_filter sa_layers (pp_stages plan)"
    by (simp add: map_filter_def)
  moreover have "\<forall>sa \<in> set (filter ?L (pp_stages plan)). \<exists>r. sa_layers sa = Some r \<and> layer_range_valid r"
    using c(2) by auto
  ultimately show ?thesis using contiguity_check_ranges_tile [OF c(1)] by simp
qed

lemma reserved_on_mset: "mset xs = mset ys \<Longrightarrow> reserved_on n xs = reserved_on n ys"
proof -
  assume "mset xs = mset ys"
  then have "sum_mset (image_mset (\<lambda>sa. unat (sa_reserved_memory_bytes sa))
        (filter_mset (\<lambda>sa. sa_node_id sa = n) (mset xs))) =
      sum_mset (image_mset (\<lambda>sa. unat (sa_reserved_memory_bytes sa))
        (filter_mset (\<lambda>sa. sa_node_id sa = n) (mset ys)))" by simp
  then show ?thesis by (simp only: reserved_on_def sum_mset_sum_list flip: mset_map mset_filter)
qed

lemma list_all2_stage_ids:
  "list_all2 (stage_placed input slots) shards stages \<Longrightarrow> map sa_shard_id stages = map so_shard_id shards"
  by (induction rule: list_all2_induct) (auto simp: stage_placed_def stage_of_shard_def)

section \<open>The scheduler interface\<close>

text \<open>
  What the users of \<open>Scheduler\<close> rely on. \<open>create_plan\<close> and \<open>refine_plan\<close> are the
  two virtual functions; \<open>refine_plan\<close> gets the plan it refines and the measured samples.
\<close>

definition plan_places :: "scheduling_input \<Rightarrow> pipeline_plan \<Rightarrow> bool" where
  "plan_places input plan \<longleftrightarrow>
     pp_model_id plan = in_model_id input \<and> pp_manifest_revision plan = in_manifest_revision input \<and>
     pp_fence plan = in_fence input \<and> pp_boundaries plan = in_boundaries input \<and>
     (\<exists>shards stages. mset shards = mset (in_shard_options input) \<and>
        mset stages = mset (pp_stages plan) \<and>
        list_all2 (stage_placed input (build_node_slots input)) shards stages)"

definition placed_on_live_member :: "scheduling_input \<Rightarrow> shard_option \<Rightarrow> stage_assignment \<Rightarrow> bool" where
  "placed_on_live_member input shard sa \<longleftrightarrow>
     stage_of_shard shard sa \<and>
     (\<exists>m \<in> set (snap_members (in_membership input)). mb_state m = kAlive \<and>
        pa_node_id (mb_peer m) = sa_node_id sa \<and>
        (\<exists>cap. mb_capability m = Some cap \<and> backend_fits shard cap (sa_backend sa)))"

definition memory_respected :: "scheduling_input \<Rightarrow> pipeline_plan \<Rightarrow> bool" where
  "memory_respected input plan \<longleftrightarrow>
     (\<forall>n. reserved_on n (pp_stages plan) \<le> memory_of n (build_node_slots input))"

locale scheduler =
  fixes create_plan :: "scheduling_input \<Rightarrow> pipeline_plan result"
    and refine_plan :: "scheduling_input \<Rightarrow> pipeline_plan \<Rightarrow> calibration_sample list \<Rightarrow> pipeline_plan result"
  assumes create_places: "create_plan input = Ok plan \<Longrightarrow> plan_places input plan"
    and create_memory: "create_plan input = Ok plan \<Longrightarrow> memory_respected input plan"
    and refine_create: "refine_plan input base samples = create_plan input"
begin

lemma stage_count: "create_plan input = Ok plan \<Longrightarrow> length (pp_stages plan) = length (in_shard_options input)"
  using create_places unfolding plan_places_def by (metis list_all2_lengthD mset_eq_length)

text \<open>Every stage runs on a live member that advertised a fitting backend.\<close>

lemma stage_on_live_member:
  assumes "create_plan input = Ok plan" "sa \<in> set (pp_stages plan)"
  shows "\<exists>shard \<in> set (in_shard_options input). stage_placed input (build_node_slots input) shard sa"
proof -
  obtain shards stages where "mset shards = mset (in_shard_options input)"
    "mset stages = mset (pp_stages plan)"
    "list_all2 (stage_placed input (build_node_slots input)) shards stages"
    using create_places [OF assms(1)] unfolding plan_places_def by blast
  with assms(2) show ?thesis by (metis in_set_conv_nth list_all2_conv_all_nth set_mset_mset)
qed

lemma refine_memory: "refine_plan input base samples = Ok plan \<Longrightarrow> memory_respected input plan"
  using create_memory refine_create by simp

end

lemma build_slots_member:
  "slot \<in> set (build_slots_loop ms) \<Longrightarrow>
     \<exists>m \<in> set ms. mb_state m = kAlive \<and> pa_node_id (mb_peer m) = ns_node_id slot \<and>
       mb_capability m = Some (ns_capability slot)"
  by (induction ms rule: build_slots_loop.induct) (auto split: if_splits option.splits)

lemma stage_placed_live:
  "stage_placed input (build_node_slots input) shard sa \<Longrightarrow> placed_on_live_member input shard sa"
  using build_slots_member [of _ "snap_members (in_membership input)"]
  unfolding stage_placed_def placed_on_live_member_def build_node_slots_def by force

lemma schedule_core_places:
  assumes "schedule_core sort_slots sort_stages rng now input (build_node_slots input) resort = Ok plan"
    and "std_sorts sort_slots sort_stages"
  shows "plan_places input plan" and "memory_respected input plan"
proof -
  let ?slots = "build_node_slots input"
  obtain st where inv: "placement_inv input ?slots (stable_sort sensitivity_descending (in_shard_options input)) st"
    and stages: "pp_stages plan = sort_stages by_layer_start (pl_stages st)"
    by (rule schedule_core_Ok [OF assms])
  have m: "mset (pl_stages st) = mset (pp_stages plan)"
    using assms(2) unfolding std_sorts_def stages by (metis std_sort.sort_permutes)
  have "pp_model_id plan = in_model_id input \<and> pp_manifest_revision plan = in_manifest_revision input \<and>
     pp_fence plan = in_fence input \<and> pp_boundaries plan = in_boundaries input"
    using assms(1) unfolding schedule_core_def by (auto simp: Let_def split: if_splits sum.splits)
  then show "plan_places input plan"
    using inv m unfolding plan_places_def placement_inv_def by (metis mset_stable_sort)
  have "reserved_on n (pp_stages plan) = reserved_on n (pl_stages st)" for n
    using reserved_on_mset m by metis
  moreover have "reserved_on n (pl_stages st) \<le> memory_of n ?slots" for n
    using inv unfolding placement_inv_def by (metis le_add1)
  ultimately show "memory_respected input plan" by (simp add: memory_respected_def)
qed

text \<open>Both schedulers implement the interface, whatever \<open>std::sort\<close> does with ties.\<close>

lemmas create_plan_defs = memory_create_plan_def memory_refine_plan_def
  sensitivity_create_plan_def sensitivity_refine_plan_def

locale plan_sorts =
  fixes sort_slots sort_stages and rng :: u64 and now :: time_point
  assumes sorts: "std_sorts sort_slots sort_stages"

sublocale plan_sorts \<subseteq> memory: scheduler "memory_create_plan sort_slots sort_stages rng now"
    "memory_refine_plan sort_slots sort_stages rng now"
  by unfold_locales (use schedule_core_places sorts in \<open>auto simp: create_plan_defs\<close>)

sublocale plan_sorts \<subseteq> sensitivity: scheduler "sensitivity_create_plan sort_slots sort_stages rng now"
    "sensitivity_refine_plan sort_slots sort_stages rng now"
  by unfold_locales (use schedule_core_places sorts in \<open>auto simp: create_plan_defs\<close>)

context plan_sorts begin

lemmas memory_plan_places = memory.create_places
lemmas memory_plan_respects = memory.create_memory
lemmas memory_stage_on_live_member = memory.stage_on_live_member
lemmas sensitivity_plan_respects = sensitivity.refine_memory

end

interpretation stable_plans: plan_sorts "stable_sort by_remaining_memory_desc" stable_sort rng now
  for rng now
  by unfold_locales (rule std_sorts_stable)


section \<open>Example cluster\<close>

text \<open>Two live nodes and a suspect one; three shards, two of them with layers.\<close>

definition example_profile :: "u64 \<Rightarrow> backend_kind \<Rightarrow> capability_profile" where
  "example_profile mem kind = (default_profile 0)\<lparr>cp_available_memory_bytes := mem,
     cp_backends := [\<lparr>bc_kind = kind, bc_version = ''1'', bc_quantizations = [],
       bc_compute_units = [kCpu], bc_allows_cpu_fallback = True\<rparr>]\<rparr>"

definition example_member :: "node_id \<Rightarrow> member_state \<Rightarrow> u64 \<Rightarrow> backend_kind \<Rightarrow> member" where
  "example_member n st mem kind = \<lparr>mb_peer = default_peer\<lparr>pa_node_id := n\<rparr>, mb_state = st,
     mb_role = kParticipant, mb_capability = Some (example_profile mem kind), mb_models = [],
     mb_last_seen = 0\<rparr>"

definition example_shard :: "string \<Rightarrow> layer_range option \<Rightarrow> u64 \<Rightarrow> double \<Rightarrow> shard_option" where
  "example_shard n r mem sens = default_shard_option\<lparr>so_shard_id := n, so_layers := r,
     so_peak_runtime_memory_bytes := mem, so_sensitivity_score := sens,
     so_compatible_backends := [kLlamaCpp]\<rparr>"

definition example_input :: scheduling_input where
  "example_input = default_scheduling_input\<lparr>in_total_layers := 8,
     in_shard_options :=
       [example_shard ''embed'' None 10 0,
        example_shard ''low'' (Some \<lparr>lr_start = 0, lr_end_exclusive = 4\<rparr>) 60 1,
        example_shard ''high'' (Some \<lparr>lr_start = 4, lr_end_exclusive = 8\<rparr>) 60 2],
     in_membership := \<lparr>snap_revision = 3, snap_members =
       [example_member ''a'' kAlive 200 kLlamaCpp, example_member ''b'' kSuspect 500 kLlamaCpp,
        example_member ''c'' kAlive 100 kLlamaCpp]\<rparr>,
     in_per_device_memory_reserve_bytes := 5\<rparr>"

lemmas example_defs = example_input_def example_shard_def example_member_def example_profile_def
  default_scheduling_input_def default_shard_option_def default_peer_def default_profile_def
  default_artifact_def default_fence_def

abbreviation example_create :: "scheduling_input \<Rightarrow> pipeline_plan result" where
  "example_create \<equiv> memory_create_plan (stable_sort by_remaining_memory_desc) stable_sort 1 0"

lemma example_create_ok: "is_ok (example_create example_input)"
  by code_simp

lemma example_valid: "valid_ranges example_input"
  by (simp add: example_defs valid_ranges_def layer_range_valid_def)

lemma example_plan_layers:
  "(case example_create example_input of Inl _ \<Rightarrow> False
    | Inr plan \<Rightarrow> map sa_node_id (pp_stages plan) = [''c'', ''a'', ''a''] \<and> map sa_ordinal (pp_stages plan) = [2, 1, 0] \<and> map sa_layers (pp_stages plan) = [None, Some \<lparr>lr_start = 0, lr_end_exclusive = 4\<rparr>,
      Some \<lparr>lr_start = 4, lr_end_exclusive = 8\<rparr>])"
  by code_simp


section \<open>Properties\<close>

text \<open>
  C1. Layer coverage. In every plan whose stages carry layers, each model layer below
  \<open>total_layers\<close> is run by exactly one stage and no other layer is run, and the layered stages
  follow each other in layer order without gap or overlap. This holds for every behaviour of
  \<open>std::sort\<close> the standard allows, given nonempty input ranges.
\<close>

theorem plan_covers_layers:
  assumes "memory_create_plan sort_slots sort_stages rng now input = Ok plan"
    and "std_sorts sort_slots sort_stages" and "valid_ranges input"
    and "\<exists>sa \<in> set (pp_stages plan). sa_layers sa \<noteq> None"
  shows "(\<forall>l. length (filter (runs_layer l) (pp_stages plan)) =
       (if l < unat (in_total_layers input) then 1 else 0)) \<and>
     ranges_tile (in_total_layers input) 0 (List.map_filter sa_layers (pp_stages plan))"
  using plan_runs_each_layer_once [OF _ assms(2-4)] plan_layer_ranges_tile [OF _ assms(2-4)] assms(1)
  unfolding memory_create_plan_def by blast

theorem plan_covers_layers_witness:
  "\<exists>plan. example_create example_input = Ok plan \<and>
     length (filter (runs_layer 5) (pp_stages plan)) = 1 \<and>
     ranges_tile 8 0 (List.map_filter sa_layers (pp_stages plan))"
proof -
  obtain plan where plan: "example_create example_input = Ok plan"
    using example_create_ok by (auto simp: is_ok_iff)
  then have some: "\<exists>sa \<in> set (pp_stages plan). sa_layers sa \<noteq> None"
    using example_plan_layers by (cases "pp_stages plan") (auto simp: Cons_eq_map_conv)
  from plan_covers_layers [OF plan std_sorts_stable example_valid some] plan
  show ?thesis by (auto simp: example_input_def)
qed


text \<open>
  C2. Memory safety of placement. The bytes that the stages of a plan reserve on a node never
  exceed the available memory that the live members with that node id advertised.
\<close>

theorem plan_respects_memory:
  assumes "std_sorts sort_slots sort_stages"
    and "memory_create_plan sort_slots sort_stages rng now input = Ok plan"
  shows "reserved_on n (pp_stages plan) \<le> memory_of n (build_node_slots input)"
  using plan_sorts.memory_plan_respects [OF plan_sorts.intro [OF assms(1)] assms(2)]
  by (simp add: memory_respected_def)

theorem plan_respects_memory_witness:
  "\<exists>plan. example_create example_input = Ok plan \<and>
     reserved_on ''a'' (pp_stages plan) \<le> memory_of ''a'' (build_node_slots example_input)"
  using plan_respects_memory [OF std_sorts_stable] example_create_ok by (auto simp: is_ok_iff)

text \<open>
  C15. Placement of shards. A plan assigns every shard option exactly once, with its ids, kinds,
  layers, boundaries and artifact copied, and puts it on a live member that advertised a backend
  which the shard accepts and which has one of the compute units the shard asks for.
\<close>

theorem plan_places_every_shard:
  assumes "std_sorts sort_slots sort_stages"
    and "memory_create_plan sort_slots sort_stages rng now input = Ok plan"
  shows "\<exists>shards stages. mset shards = mset (in_shard_options input) \<and>
     mset stages = mset (pp_stages plan) \<and>
     list_all2 (placed_on_live_member input) shards stages"
proof -
  obtain shards stages where ms: "mset shards = mset (in_shard_options input)"
    "mset stages = mset (pp_stages plan)"
    and placed: "list_all2 (stage_placed input (build_node_slots input)) shards stages"
    using plan_sorts.memory_plan_places [OF plan_sorts.intro [OF assms(1)] assms(2)]
    unfolding plan_places_def by blast
  have "list_all2 (placed_on_live_member input) shards stages"
    by (rule list_all2_mono [OF placed stage_placed_live])
  with ms show ?thesis by blast
qed

theorem plan_places_every_shard_witness:
  "\<exists>plan shards stages. example_create example_input = Ok plan \<and>
     mset shards = mset (in_shard_options example_input) \<and> mset stages = mset (pp_stages plan) \<and>
     list_all2 stage_of_shard shards stages"
proof -
  obtain plan where plan: "example_create example_input = Ok plan"
    using example_create_ok by (auto simp: is_ok_iff)
  from plan_places_every_shard [OF std_sorts_stable plan] obtain shards stages where
    "mset shards = mset (in_shard_options example_input)" "mset stages = mset (pp_stages plan)"
    and placed: "list_all2 (placed_on_live_member example_input) shards stages"
    by blast
  moreover have "list_all2 stage_of_shard shards stages"
    by (rule list_all2_mono [OF placed]) (simp add: placed_on_live_member_def)
  ultimately show ?thesis using plan by blast
qed

text \<open>
  C20. Feasibility. When the shards tile the layers of the model, the live members have distinct
  ids and one of them is compatible with every shard and has the memory of all of them together,
  a plan is always produced: neither the greedy order, nor the re-sorting of the nodes, nor the
  network affinity can make the scheduler refuse.
\<close>

theorem feasible_input_is_planned:
  assumes "std_sorts sort_slots sort_stages"
    and "distinct (map ns_node_id (build_node_slots input))"
    and "in_shard_options input \<noteq> []"
    and "hosts_all input (in_shard_options input) (build_node_slots input)"
    and "ranges_tile (in_total_layers input) 0
        (sort_key lr_start (shard_ranges (in_shard_options input)))"
  shows "\<exists>plan. memory_create_plan sort_slots sort_stages rng now input = Ok plan"
  unfolding memory_create_plan_def by (rule schedule_core_feasible [OF assms])

lemma example_hosted:
  "distinct (map ns_node_id (build_node_slots example_input))"
  "hosts_all example_input (in_shard_options example_input) (build_node_slots example_input)"
  by (simp_all add: hosts_all_def backend_fits_def build_node_slots_def required_bytes_def example_defs)

lemma example_tiles:
  "ranges_tile (in_total_layers example_input) 0
     (sort_key lr_start (shard_ranges (in_shard_options example_input)))"
  by code_simp

theorem feasible_input_is_planned_witness: "\<exists>plan. example_create example_input = Ok plan"
  using feasible_input_is_planned [OF std_sorts_stable example_hosted(1) _ example_hosted(2) example_tiles]
  by (simp add: example_input_def)

text \<open>
  The order of the ordinals. Ordinals are handed out during placement, so the stages of a plan
  listed by ordinal are the shards in descending (stable) sensitivity order, not in the layer order
  of the stage list.
\<close>

theorem ordinals_follow_sensitivity:
  assumes "std_sorts sort_slots sort_stages"
    and "memory_create_plan sort_slots sort_stages rng now input = Ok plan"
  shows "\<exists>stages. mset stages = mset (pp_stages plan) \<and>
     map sa_ordinal stages = map of_nat [0 ..< length stages] \<and>
     map sa_shard_id stages =
       map so_shard_id (stable_sort sensitivity_descending (in_shard_options input))"
proof -
  obtain st where inv: "placement_inv input (build_node_slots input)
        (stable_sort sensitivity_descending (in_shard_options input)) st"
    and stages: "pp_stages plan = sort_stages by_layer_start (pl_stages st)"
    using assms(2) unfolding memory_create_plan_def by (rule schedule_core_Ok [OF _ assms(1)])
  have "mset (pl_stages st) = mset (pp_stages plan)"
    using assms(1) unfolding std_sorts_def stages by (metis std_sort.sort_permutes)
  moreover have "map sa_shard_id (pl_stages st) =
      map so_shard_id (stable_sort sensitivity_descending (in_shard_options input))"
    using inv list_all2_stage_ids unfolding placement_inv_def by blast
  ultimately show ?thesis using inv unfolding placement_inv_def by blast
qed

theorem ordinals_follow_sensitivity_witness:
  "\<exists>plan stages. example_create example_input = Ok plan \<and> mset stages = mset (pp_stages plan) \<and>
     map sa_shard_id stages = [''high'', ''low'', ''embed''] \<and>
     map sa_ordinal (pp_stages plan) = [2, 1, 0]"
proof -
  obtain plan where plan: "example_create example_input = Ok plan"
    using example_create_ok by (auto simp: is_ok_iff)
  have "map so_shard_id (stable_sort sensitivity_descending (in_shard_options example_input)) =
      [''high'', ''low'', ''embed'']" by code_simp
  with ordinals_follow_sensitivity [OF std_sorts_stable plan] plan example_plan_layers show ?thesis
    by auto
qed

text \<open>
  Overflow of the reserve. \<open>peak_runtime_memory_bytes + per_device_reserve\<close> is computed in
  64 bits: when the sum is \<open>2^64\<close> a shard needs zero bytes, so every cluster with one compatible
  node gets a plan that reserves nothing, however little memory the nodes have.
\<close>

theorem reserve_overflow_accepts:
  assumes "std_sorts sort_slots sort_stages"
    and "distinct (map ns_node_id (build_node_slots input))" "in_shard_options input \<noteq> []"
    and "\<forall>shard \<in> set (in_shard_options input).
        unat (so_peak_runtime_memory_bytes shard) + unat (in_per_device_memory_reserve_bytes input) = 2 ^ 64"
    and "\<exists>s \<in> set (build_node_slots input). \<forall>shard \<in> set (in_shard_options input).
        \<exists>b. backend_fits shard (ns_capability s) b"
    and "ranges_tile (in_total_layers input) 0
        (sort_key lr_start (shard_ranges (in_shard_options input)))"
  shows "\<exists>plan. memory_create_plan sort_slots sort_stages rng now input = Ok plan \<and>
     (\<forall>n. reserved_on n (pp_stages plan) = 0)"
proof -
  have zero: "required_bytes input shard = 0" if "shard \<in> set (in_shard_options input)" for shard
    using assms(4) that by (simp add: required_bytes_def word_unat_eq_iff unat_word_ariths)
  then have "hosts_all input (in_shard_options input) (build_node_slots input)"
    using assms(5) by (auto simp: hosts_all_def cong: map_cong)
  then obtain plan where plan: "memory_create_plan sort_slots sort_stages rng now input = Ok plan"
    using schedule_core_feasible [OF assms(1-3) _ assms(6)] unfolding memory_create_plan_def by blast
  have "sa_reserved_memory_bytes sa = 0" if "sa \<in> set (pp_stages plan)" for sa
    using plan_sorts.memory_stage_on_live_member [OF plan_sorts.intro [OF assms(1)] plan that] zero
    by (auto simp: stage_placed_def)
  then show ?thesis using plan by (auto simp: reserved_on_def)
qed

text \<open>A node without any memory, and one shard of \<open>2^63\<close> bytes.\<close>

definition overflow_input :: scheduling_input where
  "overflow_input = default_scheduling_input\<lparr>in_total_layers := 4,
     in_shard_options := [example_shard ''big'' (Some \<lparr>lr_start = 0, lr_end_exclusive = 4\<rparr>) (2 ^ 63) 1],
     in_membership := \<lparr>snap_revision = 1, snap_members = [example_member ''a'' kAlive 0 kLlamaCpp]\<rparr>,
     in_per_device_memory_reserve_bytes := 2 ^ 63\<rparr>"

theorem reserve_overflow_accepts_witness:
  "\<exists>plan. example_create overflow_input = Ok plan \<and> memory_of ''a'' (build_node_slots overflow_input) = 0"
proof -
  have 1: "\<forall>shard \<in> set (in_shard_options overflow_input). unat (so_peak_runtime_memory_bytes shard) +
      unat (in_per_device_memory_reserve_bytes overflow_input) = 2 ^ 64"
    by (simp add: overflow_input_def example_defs)
  have 2: "\<exists>s \<in> set (build_node_slots overflow_input). \<forall>shard \<in> set (in_shard_options overflow_input).
        \<exists>b. backend_fits shard (ns_capability s) b"
    by (simp add: overflow_input_def example_defs build_node_slots_def backend_fits_def)
  have 3: "ranges_tile (in_total_layers overflow_input) 0
      (sort_key lr_start (shard_ranges (in_shard_options overflow_input)))" by code_simp
  have 4: "distinct (map ns_node_id (build_node_slots overflow_input))" by code_simp
  have 5: "in_shard_options overflow_input \<noteq> []" by (simp add: overflow_input_def)
  from reserve_overflow_accepts [OF std_sorts_stable 4 5 1 2 3, of 1 0] show ?thesis
    by (auto simp: memory_of_def build_node_slots_def overflow_input_def example_defs)
qed

end
