(* ===== verification/Identity.thy ===== *)
theory Identity
  imports Types
begin

text \<open>
  \<^verbatim>\<open>src/security/identity_provider.cpp\<close>, in the build with OpenSSL. OpenSSL is a parameter: the
  certificates a PEM text holds, the SHA-256 digest of a certificate, the chain verification, the
  generation of a self-signed certificate and the random bytes.
\<close>

section \<open>Certificates and fingerprints\<close>

record 'c openssl =
  ssl_pem_certs :: "string \<Rightarrow> 'c list"
  ssl_x509_digest :: "'c \<Rightarrow> bytes"
  ssl_x509_verify :: "'c list \<Rightarrow> 'c \<Rightarrow> bool"
  ssl_self_signed :: "string \<Rightarrow> string \<times> string"

text \<open>The hexadecimal digits of a digest, two for each byte.\<close>

definition hex_byte :: "u8 \<Rightarrow> string" where
  "hex_byte b = [hex_digit (unat (drop_bit 4 b AND 0xF)), hex_digit (unat (b AND 0xF))]"

definition compute_fingerprint_sha256 :: "'c openssl \<Rightarrow> string \<Rightarrow> string" where
  "compute_fingerprint_sha256 ssl cert_pem =
     (case ssl_pem_certs ssl cert_pem of
        [] \<Rightarrow> []
      | cert # _ \<Rightarrow> concat (map hex_byte (ssl_x509_digest ssl cert)))"

definition verify_peer_cert :: "'c openssl \<Rightarrow> string \<Rightarrow> string \<Rightarrow> bool" where
  "verify_peer_cert ssl peer_cert_pem trust_bundle_pem =
     (if trust_bundle_pem = [] then True
      else case ssl_pem_certs ssl peer_cert_pem of
        [] \<Rightarrow> False
      | cert # _ \<Rightarrow> ssl_x509_verify ssl (ssl_pem_certs ssl trust_bundle_pem) cert)"

text \<open>
  \<open>make_node_id\<close>: the bytes of \<open>RAND_bytes\<close>, or a draw of the fallback generator when it
  fails. The bytes are printed without padding.
\<close>

definition make_node_id :: "bytes + u64 \<Rightarrow> string" where
  "make_node_id rand =
     (case rand of
        Inl buf \<Rightarrow> ''node-'' @ concat (map (\<lambda>b. hex (unat b)) buf)
      | Inr rng \<Rightarrow> ''node-'' @ hex (unat rng))"

section \<open>The provider\<close>

datatype trust_policy = kEphemeralCluster | kPinnedAllowlist | kPrivateCa

record identity_provider =
  ip_policy :: trust_policy
  ip_local :: "local_identity option"
  ip_cluster_key :: string
  ip_trust_bundle :: string
  ip_pinned_node_ids :: "string set"
  ip_pinned_fingerprints :: "string set"

definition new_provider :: "trust_policy \<Rightarrow> identity_provider" where
  "new_provider policy = \<lparr>ip_policy = policy, ip_local = None, ip_cluster_key = [],
     ip_trust_bundle = [], ip_pinned_node_ids = {}, ip_pinned_fingerprints = {}\<rparr>"

definition local_identity ::
  "'c openssl \<Rightarrow> bytes + u64 \<Rightarrow> identity_provider \<Rightarrow> local_identity result \<times> identity_provider" where
  "local_identity ssl rand ip =
     (case ip_local ip of
        Some li \<Rightarrow> (Ok li, ip)
      | None \<Rightarrow>
          (let node_id_str = make_node_id rand;
               cert_pem = fst (ssl_self_signed ssl (''socrates-'' @ node_id_str));
               fingerprint = compute_fingerprint_sha256 ssl cert_pem;
               li = \<lparr>li_node_id = node_id_str,
                     li_certificate_pem =
                       (if cert_pem = [] then ''CERT-PLACEHOLDER-'' @ node_id_str else cert_pem),
                     li_public_key_fingerprint =
                       (if fingerprint = [] then ''fp-'' @ node_id_str else fingerprint)\<rparr>;
               ip1 = ip\<lparr>ip_local := Some li\<rparr>
           in (Ok li, if ip_policy ip = kEphemeralCluster then ip1\<lparr>ip_cluster_key := fingerprint\<rparr> else ip1)))"

definition peer_fingerprint :: "'c openssl \<Rightarrow> peer_advertisement \<Rightarrow> string \<Rightarrow> string" where
  "peer_fingerprint ssl adv cert =
     (let fp = (if cert = [] then pa_public_key_fingerprint adv else compute_fingerprint_sha256 ssl cert)
      in if fp = [] then pa_public_key_fingerprint adv else fp)"

definition authenticate ::
  "'c openssl \<Rightarrow> identity_provider \<Rightarrow> peer_advertisement \<Rightarrow> string \<Rightarrow> peer_identity result" where
  "authenticate ssl ip adv cert =
     (if ip_local ip = None then Err kFailedPrecondition ''local identity not initialized''
      else
        let fp = peer_fingerprint ssl adv cert;
            peer = \<lparr>pi_node_id = pa_node_id adv, pi_certificate_pem = cert, pi_public_key_fingerprint = fp\<rparr>
        in case ip_policy ip of
             kEphemeralCluster \<Rightarrow> Ok peer
           | kPinnedAllowlist \<Rightarrow>
               if \<not> (fp \<in> ip_pinned_fingerprints ip \<or> pa_node_id adv \<in> ip_pinned_node_ids ip)
               then Err kPermissionDenied (''node not in pinned allowlist: '' @ fp)
               else Ok peer
           | kPrivateCa \<Rightarrow>
               if ip_trust_bundle ip \<noteq> [] \<and> \<not> verify_peer_cert ssl cert (ip_trust_bundle ip)
               then Err kUnauthenticated ''peer certificate not trusted by CA bundle''
               else Ok peer)"

definition pin_node :: "string \<Rightarrow> identity_provider \<Rightarrow> identity_provider" where
  "pin_node n ip = ip\<lparr>ip_pinned_node_ids := insert n (ip_pinned_node_ids ip)\<rparr>"

definition pin_fingerprint :: "string \<Rightarrow> identity_provider \<Rightarrow> identity_provider" where
  "pin_fingerprint fp ip = ip\<lparr>ip_pinned_fingerprints := insert fp (ip_pinned_fingerprints ip)\<rparr>"

definition set_trust_bundle :: "string \<Rightarrow> identity_provider \<Rightarrow> identity_provider" where
  "set_trust_bundle bundle ip = ip\<lparr>ip_trust_bundle := bundle\<rparr>"

definition local_fingerprint :: "identity_provider \<Rightarrow> string" where
  "local_fingerprint ip = (case ip_local ip of None \<Rightarrow> [] | Some li \<Rightarrow> li_public_key_fingerprint li)"

definition make_ephemeral_identity_provider :: identity_provider where
  "make_ephemeral_identity_provider = new_provider kEphemeralCluster"

definition make_pinned_identity_provider :: "string list \<Rightarrow> identity_provider" where
  "make_pinned_identity_provider allowlist = fold pin_node allowlist (new_provider kPinnedAllowlist)"

definition make_private_ca_identity_provider :: identity_provider where
  "make_private_ca_identity_provider = new_provider kPrivateCa"

section \<open>Lemmas\<close>

lemma fold_pin_node:
  "fold pin_node ids ip = ip\<lparr>ip_pinned_node_ids := ip_pinned_node_ids ip \<union> set ids\<rparr>"
  by (induction ids arbitrary: ip) (auto simp: pin_node_def)

lemma make_pinned_simps [simp]:
  "ip_policy (make_pinned_identity_provider ids) = kPinnedAllowlist"
  "ip_local (make_pinned_identity_provider ids) = None"
  "ip_pinned_node_ids (make_pinned_identity_provider ids) = set ids"
  "ip_pinned_fingerprints (make_pinned_identity_provider ids) = {}"
  by (simp_all add: make_pinned_identity_provider_def fold_pin_node new_provider_def)

lemma local_identity_stable:
  "local_identity ssl rand ip = (r, ip') \<Longrightarrow> local_identity ssl rand' ip' = (r, ip')"
  unfolding local_identity_def by (auto simp: Let_def split: option.splits if_splits)

lemma local_identity_frame:
  assumes "local_identity ssl rand ip = (r, ip')"
  shows "ip_policy ip' = ip_policy ip" "ip_trust_bundle ip' = ip_trust_bundle ip"
    "ip_pinned_node_ids ip' = ip_pinned_node_ids ip"
    "ip_pinned_fingerprints ip' = ip_pinned_fingerprints ip" "ip_local ip' \<noteq> None"
  using assms unfolding local_identity_def by (auto simp: Let_def split: option.splits if_splits)

text \<open>
  What the clients of \<open>IdentityProvider::authenticate\<close> may rely on: an accepted identity carries
  the node id of the advertisement and the certificate that was presented.
\<close>

locale authenticator =
  fixes auth :: "peer_advertisement \<Rightarrow> string \<Rightarrow> peer_identity result"
  assumes auth_binds: "auth adv cert = Ok peer \<Longrightarrow>
     pi_node_id peer = pa_node_id adv \<and> pi_certificate_pem peer = cert"
begin

lemma auth_node_id: "auth adv cert = Ok peer \<Longrightarrow> pi_node_id peer = pa_node_id adv"
  using auth_binds by blast

end

lemma authenticate_Ok:
  "authenticate ssl ip adv cert = Ok peer \<Longrightarrow>
     peer = \<lparr>pi_node_id = pa_node_id adv, pi_certificate_pem = cert,
             pi_public_key_fingerprint = peer_fingerprint ssl adv cert\<rparr>"
  unfolding authenticate_def by (auto simp: Let_def split: if_splits trust_policy.splits)

interpretation provider: authenticator "authenticate ssl ip" for ssl ip
  by unfold_locales (auto dest: authenticate_Ok)

section \<open>Properties\<close>

text \<open>
  Admission under the three trust policies. With a local identity, the ephemeral policy admits
  every peer; the pinned policy admits exactly the peers whose fingerprint or whose advertised node
  id is pinned; the private-CA policy admits exactly the peers whose certificate the bundle
  verifies, and every peer when no bundle was set. Without a local identity nobody is admitted.
\<close>

theorem authenticate_iff:
  "is_ok (authenticate ssl ip adv cert) \<longleftrightarrow>
     ip_local ip \<noteq> None \<and>
     (case ip_policy ip of
        kEphemeralCluster \<Rightarrow> True
      | kPinnedAllowlist \<Rightarrow> peer_fingerprint ssl adv cert \<in> ip_pinned_fingerprints ip \<or>
          pa_node_id adv \<in> ip_pinned_node_ids ip
      | kPrivateCa \<Rightarrow> ip_trust_bundle ip = [] \<or>
          (\<exists>c cs. ssl_pem_certs ssl cert = c # cs \<and>
             ssl_x509_verify ssl (ssl_pem_certs ssl (ip_trust_bundle ip)) c))"
  unfolding authenticate_def verify_peer_cert_def
  by (auto simp: Let_def split: trust_policy.splits list.splits)

text \<open>
  The providers as they are built. A provider made by \<open>make_private_ca_identity_provider\<close>
  has no trust bundle and no interface to set one, so once it has a local identity it accepts every
  certificate of every peer; one made by \<open>make_pinned_identity_provider\<close> pins node ids only and
  accepts whoever advertises a pinned node id, with any certificate.
\<close>

theorem factory_providers_accept:
  assumes "local_identity ssl rand ip = (r, ip')"
    and "ip = make_private_ca_identity_provider \<or>
         (\<exists>ids. ip = make_pinned_identity_provider ids \<and> pa_node_id adv \<in> set ids)"
  shows "is_ok (authenticate ssl ip' adv cert)"
  using assms(2) local_identity_frame [OF assms(1)]
  unfolding authenticate_def make_private_ca_identity_provider_def
  by (auto simp: new_provider_def Let_def)

definition example_ssl :: "string openssl" where
  "example_ssl = \<lparr>ssl_pem_certs = (\<lambda>pem. if pem = [] then [] else [pem]),
     ssl_x509_digest = (\<lambda>c. map (\<lambda>ch. of_nat (of_char ch)) c),
     ssl_x509_verify = (\<lambda>cas c. c \<in> set cas), ssl_self_signed = (\<lambda>cn. (''cert '' @ cn, ''key''))\<rparr>"

theorem factory_providers_accept_witness:
  "is_ok (authenticate example_ssl (snd (local_identity example_ssl (Inr 7) make_private_ca_identity_provider))
      default_peer ''forged'') \<and>
   is_ok (authenticate example_ssl (snd (local_identity example_ssl (Inr 7) (make_pinned_identity_provider [''n1''])))
      (default_peer\<lparr>pa_node_id := ''n1''\<rparr>) ''forged'')"
proof -
  have pinned: "\<exists>ids. make_pinned_identity_provider [''n1''] = make_pinned_identity_provider ids \<and>
      pa_node_id (default_peer\<lparr>pa_node_id := ''n1''\<rparr>) \<in> set ids"
    by (intro exI [of _ "[''n1'']"]) simp
  show ?thesis
    using factory_providers_accept [OF prod.collapse [symmetric] disjI1 [OF refl]]
      factory_providers_accept [OF prod.collapse [symmetric] disjI2 [OF pinned]] by blast
qed

end
