(* ===== verification/Membership.thy ===== *)
theory Membership
  imports Identity
begin

text \<open>
  \<^verbatim>\<open>src/cluster/membership_service.cpp\<close>: the member table, its revision, the operations that change
  it and one pass of the liveness thread. The methods hold the lock for their whole body, so a run
  of the service is a sequence of method calls and liveness passes. Clock readings and the
  authentication function are arguments; a method returns its exception or value, the new object
  and the snapshots it passed to the callback.
\<close>

section \<open>State\<close>

record membership =
  ms_identity_provider :: bool
  ms_callback :: bool
  ms_running :: bool
  ms_members :: "member list"
  ms_snapshot_revision :: u64
  ms_local_node_id :: node_id
  ms_liveness_active :: bool

type_synonym 'a membership_outcome = "(membership, membership_snapshot, 'a) outcome"

definition new_membership :: membership where
  "new_membership = \<lparr>ms_identity_provider = False, ms_callback = False, ms_running = False,
     ms_members = [], ms_snapshot_revision = 0, ms_local_node_id = [], ms_liveness_active = True\<rparr>"

definition member_id :: "member \<Rightarrow> node_id" where
  "member_id m = pa_node_id (mb_peer m)"

fun find_member :: "node_id \<Rightarrow> member list \<Rightarrow> nat option" where
  "find_member nid [] = None"
| "find_member nid (m # ms) =
     (if member_id m = nid then Some 0 else map_option Suc (find_member nid ms))"

definition build_snapshot :: "membership \<Rightarrow> membership_snapshot" where
  "build_snapshot s = \<lparr>snap_revision = ms_snapshot_revision s, snap_members = ms_members s\<rparr>"

text \<open>\<open>snapshot_revision_++; emit_snapshot();\<close>\<close>

definition emit_snapshot :: "membership \<Rightarrow> membership_snapshot list" where
  "emit_snapshot s = (if ms_callback s then [build_snapshot s] else [])"

definition bump_and_emit :: "membership \<Rightarrow> unit membership_outcome" where
  "bump_and_emit s =
     (let s' = s\<lparr>ms_snapshot_revision := ms_snapshot_revision s + 1\<rparr> in (Ok (), s', emit_snapshot s'))"

section \<open>Operations\<close>

definition ms_start :: "local_identity result \<Rightarrow> bool \<Rightarrow> membership \<Rightarrow> unit membership_outcome" where
  "ms_start id_result callback s =
     (if ms_running s then (Err kFailedPrecondition ''membership already running'', s, [])
      else
        let s1 = s\<lparr>ms_identity_provider := True, ms_callback := callback\<rparr>;
            s2 = (case id_result of Inl _ \<Rightarrow> s1 | Inr li \<Rightarrow> s1\<lparr>ms_local_node_id := li_node_id li\<rparr>)
        in (Ok (), s2\<lparr>ms_running := True\<rparr>, []))"

definition joining_member :: "peer_advertisement \<Rightarrow> time_point \<Rightarrow> member" where
  "joining_member peer now = \<lparr>mb_peer = peer, mb_state = kJoining, mb_role = kLeech,
     mb_capability = None, mb_models = [], mb_last_seen = now\<rparr>"

definition refresh_member :: "peer_advertisement \<Rightarrow> time_point \<Rightarrow> member \<Rightarrow> member" where
  "refresh_member peer now m =
     m\<lparr>mb_peer := peer, mb_last_seen := now,
       mb_state := (if mb_state m = kSuspect then kAlive else mb_state m)\<rparr>"

definition observe ::
  "(peer_advertisement \<Rightarrow> string \<Rightarrow> peer_identity result) \<Rightarrow> time_point \<Rightarrow> discovery_event \<Rightarrow> membership
     \<Rightarrow> unit membership_outcome" where
  "observe auth now event s =
     (let peer = de_peer event in
      if \<not> ms_running s then (Err kFailedPrecondition ''membership not running'', s, [])
      else if pa_node_id peer = [] then (Ok (), s, [])
      else case find_member (pa_node_id peer) (ms_members s) of
        None \<Rightarrow>
          if \<not> ms_identity_provider s then (Ok (), s, [])
          else if is_err (auth peer (pa_public_key_fingerprint peer)) then (Ok (), s, [])
          else bump_and_emit (s\<lparr>ms_members := ms_members s @ [joining_member peer now]\<rparr>)
      | Some i \<Rightarrow>
          bump_and_emit (s\<lparr>ms_members := (ms_members s)[i := refresh_member peer now (ms_members s ! i)]\<rparr>))"

definition update_capability :: "capability_profile \<Rightarrow> membership \<Rightarrow> unit membership_outcome" where
  "update_capability profile s =
     (case find_member (cp_node_id profile) (ms_members s) of
        None \<Rightarrow> (Err kNotFound ''member not found for capability update'', s, [])
      | Some i \<Rightarrow>
          bump_and_emit (s\<lparr>ms_members := (ms_members s)[i := (ms_members s ! i)\<lparr>mb_capability := Some profile\<rparr>]\<rparr>))"

definition update_model_presence :: "model_presence list \<Rightarrow> membership \<Rightarrow> unit membership_outcome" where
  "update_model_presence models s =
     bump_and_emit (s\<lparr>ms_members := map (\<lambda>m. m\<lparr>mb_models := models\<rparr>) (ms_members s)\<rparr>)"

definition snapshot :: "membership \<Rightarrow> membership_snapshot result" where
  "snapshot s =
     (if \<not> ms_running s then Err kFailedPrecondition ''membership not running'' else Ok (build_snapshot s))"

definition ms_stop :: "membership \<Rightarrow> membership" where
  "ms_stop s = s\<lparr>ms_liveness_active := False, ms_running := False\<rparr>"

definition promote_member :: "time_point \<Rightarrow> member \<Rightarrow> member" where
  "promote_member now m =
     (if mb_state m = kJoining then m\<lparr>mb_state := kAlive, mb_last_seen := now\<rparr> else m)"

definition promote_joining_members :: "time_point \<Rightarrow> membership \<Rightarrow> unit membership_outcome" where
  "promote_joining_members now s =
     (let changed = (\<exists>m \<in> set (ms_members s). mb_state m = kJoining);
          s' = s\<lparr>ms_members := map (promote_member now) (ms_members s)\<rparr>
      in if changed then bump_and_emit s' else (Ok (), s', []))"

definition update_local_role :: "node_role \<Rightarrow> membership \<Rightarrow> unit membership_outcome" where
  "update_local_role role s =
     (case find_member (ms_local_node_id s) (ms_members s) of
        None \<Rightarrow> (Ok (), s, [])
      | Some i \<Rightarrow>
          if mb_role (ms_members s ! i) \<noteq> role
          then bump_and_emit (s\<lparr>ms_members := (ms_members s)[i := (ms_members s ! i)\<lparr>mb_role := role\<rparr>]\<rparr>)
          else (Ok (), s, []))"

text \<open>\<open>duration_cast<seconds>\<close> truncates towards zero.\<close>

definition whole_seconds :: "duration \<Rightarrow> int" where
  "whole_seconds d = (if d \<ge> 0 then d div 1000000000 else - ((- d) div 1000000000))"

definition is_stale :: "time_point \<Rightarrow> member \<Rightarrow> bool" where
  "is_stale now m \<longleftrightarrow> mb_state m = kAlive \<and> whole_seconds (now - mb_last_seen m) > 10"

definition suspect_member :: "time_point \<Rightarrow> member \<Rightarrow> member" where
  "suspect_member now m = (if is_stale now m then m\<lparr>mb_state := kSuspect\<rparr> else m)"

text \<open>
  One iteration of \<open>liveness_loop\<close>, at the clock reading \<open>now\<close>: no callback. Once
  \<open>liveness_active_\<close> is false the thread has left the loop.
\<close>

definition liveness_tick :: "time_point \<Rightarrow> membership \<Rightarrow> membership" where
  "liveness_tick now s =
     (if \<not> ms_liveness_active s \<or> \<not> ms_running s then s
      else s\<lparr>ms_members := map (suspect_member now) (ms_members s),
             ms_snapshot_revision := ms_snapshot_revision s +
               of_nat (length (filter (is_stale now) (ms_members s)))\<rparr>)"

section \<open>Runs of the service\<close>

text \<open>The calls a client makes and the passes of the liveness thread.\<close>

datatype membership_call =
    Start "local_identity result" bool
  | Observe time_point discovery_event
  | UpdateCapability capability_profile
  | UpdateModelPresence "model_presence list"
  | Promote time_point
  | UpdateLocalRole node_role
  | LivenessTick time_point
  | Stop

fun perform ::
  "(peer_advertisement \<Rightarrow> string \<Rightarrow> peer_identity result) \<Rightarrow> membership_call \<Rightarrow> membership
     \<Rightarrow> unit membership_outcome" where
  "perform auth (Start r cb) s = ms_start r cb s"
| "perform auth (Observe now e) s = observe auth now e s"
| "perform auth (UpdateCapability p) s = update_capability p s"
| "perform auth (UpdateModelPresence ms) s = update_model_presence ms s"
| "perform auth (Promote now) s = promote_joining_members now s"
| "perform auth (UpdateLocalRole r) s = update_local_role r s"
| "perform auth (LivenessTick now) s = (Ok (), liveness_tick now s, [])"
| "perform auth Stop s = (Ok (), ms_stop s, [])"

inductive membership_run ::
  "(peer_advertisement \<Rightarrow> string \<Rightarrow> peer_identity result) \<Rightarrow> membership \<Rightarrow> membership_call list
     \<Rightarrow> membership \<Rightarrow> bool" for auth where
  run_nil: "membership_run auth s [] s"
| run_call: "membership_run auth s calls s1 \<Longrightarrow>
     membership_run auth s (calls @ [c]) (outcome_state (perform auth c s1))"

section \<open>Specifications\<close>

definition auth_ok :: "(peer_advertisement \<Rightarrow> string \<Rightarrow> peer_identity result) \<Rightarrow> node_id \<Rightarrow> bool" where
  "auth_ok auth n \<longleftrightarrow>
     (\<exists>adv. pa_node_id adv = n \<and> is_ok (auth adv (pa_public_key_fingerprint adv)))"

text \<open>The table invariant.\<close>

definition membership_inv ::
  "(peer_advertisement \<Rightarrow> string \<Rightarrow> peer_identity result) \<Rightarrow> membership \<Rightarrow> bool" where
  "membership_inv auth s \<longleftrightarrow>
     distinct (map member_id (ms_members s)) \<and>
     (\<forall>m \<in> set (ms_members s). member_id m \<noteq> [] \<and> auth_ok auth (member_id m) \<and>
        mb_state m \<in> {kJoining, kAlive, kSuspect})"

text \<open>The state transitions a member may make.\<close>

inductive member_step :: "member_state \<Rightarrow> member_state \<Rightarrow> bool" where
  step_stay: "member_step st st"
| step_promote: "member_step kJoining kAlive"
| step_suspect: "member_step kAlive kSuspect"
| step_recover: "member_step kSuspect kAlive"

inductive_cases member_step_removed: "member_step st kRemoved"
inductive_cases member_step_left: "member_step st kLeft"

definition state_of :: "node_id \<Rightarrow> membership \<Rightarrow> member_state option" where
  "state_of n s = map_option mb_state (List.find (\<lambda>m. member_id m = n) (ms_members s))"

section \<open>Lemmas: the member table\<close>

lemma find_member_None: "find_member n ms = None \<longleftrightarrow> n \<notin> member_id ` set ms"
  by (induction n ms rule: find_member.induct) auto

lemma find_member_Some:
  "find_member n ms = Some i \<Longrightarrow> i < length ms \<and> member_id (ms ! i) = n"
  by (induction n ms arbitrary: i rule: find_member.induct) (auto split: if_splits)

lemma find_member_update:
  "find_member n ms = Some i \<Longrightarrow> member_id m = n \<Longrightarrow> find_member n (ms[i := m]) = Some i"
  by (induction n ms arbitrary: i rule: find_member.induct) (auto split: if_splits nat.splits)

text \<open>How an operation may change one member.\<close>

definition member_rel :: "member \<Rightarrow> member \<Rightarrow> bool" where
  "member_rel m m' \<longleftrightarrow> member_id m' = member_id m \<and> member_step (mb_state m) (mb_state m')"

lemma member_rel_refl [simp]: "member_rel m m"
  by (simp add: member_rel_def step_stay)

lemma member_rel_simps [simp]:
  "member_rel m (m\<lparr>mb_capability := c\<rparr>)" "member_rel m (m\<lparr>mb_models := ps\<rparr>)"
  "member_rel m (m\<lparr>mb_role := r\<rparr>)" "member_rel m (promote_member now m)"
  "member_rel m (suspect_member now m)"
  by (simp_all add: member_rel_def member_id_def promote_member_def suspect_member_def is_stale_def
      step_promote step_suspect step_stay)

lemma member_rel_refresh [simp]:
  "member_id m = pa_node_id peer \<Longrightarrow> member_rel m (refresh_member peer now m)"
  by (simp add: member_rel_def member_id_def refresh_member_def step_recover step_stay)

lemma bump_and_emit_simps [simp]:
  "ms_members (outcome_state (bump_and_emit s)) = ms_members s"
  "ms_snapshot_revision (outcome_state (bump_and_emit s)) = ms_snapshot_revision s + 1"
  "ms_liveness_active (outcome_state (bump_and_emit s)) = ms_liveness_active s"
  "outcome_events (bump_and_emit s) = emit_snapshot (outcome_state (bump_and_emit s))"
  by (simp_all add: bump_and_emit_def Let_def)

lemmas membership_op_defs = ms_start_def observe_def update_capability_def update_model_presence_def
  promote_joining_members_def update_local_role_def liveness_tick_def ms_stop_def

text \<open>Every call changes the members in place or appends one that has just been authenticated.\<close>

definition admits :: "(peer_advertisement \<Rightarrow> string \<Rightarrow> peer_identity result) \<Rightarrow> membership \<Rightarrow> member \<Rightarrow> bool" where
  "admits auth s m \<longleftrightarrow> mb_state m = kJoining \<and> member_id m \<noteq> [] \<and> auth_ok auth (member_id m) \<and>
     member_id m \<notin> member_id ` set (ms_members s)"

lemma perform_members:
  "list_all2 member_rel (ms_members s) (ms_members (outcome_state (perform auth c s))) \<or>
   (\<exists>m. admits auth s m \<and> ms_members (outcome_state (perform auth c s)) = ms_members s @ [m])"
proof (cases "(auth, c, s)" rule: perform.cases)
  case (2 au now e st)
  show ?thesis
  proof (cases "find_member (pa_node_id (de_peer e)) (ms_members s)")
    case None
    have "admits auth s (joining_member (de_peer e) now)"
      if "pa_node_id (de_peer e) \<noteq> []" "\<not> is_err (auth (de_peer e) (pa_public_key_fingerprint (de_peer e)))"
      using None that unfolding admits_def auth_ok_def
      by (auto simp: joining_member_def member_id_def find_member_None)
    with None 2 show ?thesis
      by (auto simp: observe_def Let_def list.rel_refl)
  next
    case (Some i)
    from find_member_Some [OF this] Some 2 show ?thesis
      by (auto simp: observe_def Let_def list.rel_refl intro!: list_all2_update)
  qed
qed (auto simp: membership_op_defs Let_def list.rel_refl intro!: list_all2_update list_all2_map_same
    dest!: find_member_Some split: option.splits sum.splits)

lemma list_all2_member_ids: "list_all2 member_rel ms ms' \<Longrightarrow> map member_id ms' = map member_id ms"
  by (induction rule: list_all2_induct) (auto simp: member_rel_def)

lemma member_step_live:
  "member_step st st' \<Longrightarrow> st \<in> {kJoining, kAlive, kSuspect} \<Longrightarrow> st' \<in> {kJoining, kAlive, kSuspect}"
  by (erule member_step.cases) auto

lemma perform_inv:
  assumes "membership_inv auth s"
  shows "membership_inv auth (outcome_state (perform auth c s))"
  using perform_members [of s auth c]
proof
  let ?ms' = "ms_members (outcome_state (perform auth c s))"
  assume rel: "list_all2 member_rel (ms_members s) ?ms'"
  have "member_id m' \<noteq> [] \<and> auth_ok auth (member_id m') \<and> mb_state m' \<in> {kJoining, kAlive, kSuspect}"
    if "m' \<in> set ?ms'" for m'
  proof -
    obtain m where m: "m \<in> set (ms_members s)" "member_rel m m'"
      using list_all2_in_right [OF rel \<open>m' \<in> set ?ms'\<close>] by blast
    then have "member_id m \<noteq> [] \<and> auth_ok auth (member_id m) \<and> mb_state m \<in> {kJoining, kAlive, kSuspect}"
      using assms by (simp add: membership_inv_def)
    with m(2) member_step_live [of "mb_state m" "mb_state m'"] show ?thesis by (simp add: member_rel_def)
  qed
  with assms list_all2_member_ids [OF rel] show ?thesis by (simp add: membership_inv_def)
next
  assume "\<exists>m. admits auth s m \<and> ms_members (outcome_state (perform auth c s)) = ms_members s @ [m]"
  with assms show ?thesis unfolding membership_inv_def admits_def by auto
qed

lemma run_inv: "membership_run auth s calls s' \<Longrightarrow> membership_inv auth s \<Longrightarrow> membership_inv auth s'"
  by (induction rule: membership_run.induct) (auto intro: perform_inv)

lemma state_of_rel:
  "list_all2 member_rel (ms_members s) (ms_members s') \<Longrightarrow> state_of n s = Some st \<Longrightarrow>
     \<exists>st'. state_of n s' = Some st' \<and> member_step st st'"
  unfolding state_of_def
  by (induction rule: list_all2_induct) (auto simp: member_rel_def split: if_splits)

lemma state_of_append: "ms_members s' = ms_members s @ ms \<Longrightarrow> state_of n s = Some st \<Longrightarrow> state_of n s' = Some st"
  unfolding state_of_def by (auto simp: find_append split: option.splits)

lemma perform_state:
  assumes "state_of n s = Some st"
  shows "\<exists>st'. state_of n (outcome_state (perform auth c s)) = Some st' \<and> member_step st st'"
  using perform_members [of s auth c] state_of_rel [OF _ assms] state_of_append [OF _ assms] step_stay
  by blast

text \<open>The effect of a call on the revision, and what it passes to the callback.\<close>

lemma perform_revision:
  "(ms_snapshot_revision (outcome_state (perform auth c s)) = ms_snapshot_revision s \<and>
      ms_members (outcome_state (perform auth c s)) = ms_members s) \<or>
   (\<exists>k. 0 < k \<and> k \<le> max 1 (length (ms_members s)) \<and>
      ms_snapshot_revision (outcome_state (perform auth c s)) = ms_snapshot_revision s + of_nat k)"
proof (cases c)
  case (LivenessTick now)
  show ?thesis
  proof (cases "filter (is_stale now) (ms_members s) = []")
    case True
    then have "map (suspect_member now) (ms_members s) = ms_members s"
      by (intro map_id_on) (auto simp: suspect_member_def filter_empty_conv)
    with True LivenessTick show ?thesis by (simp add: liveness_tick_def)
  next
    case False
    with LivenessTick show ?thesis
      by (auto simp: liveness_tick_def intro!: exI [of _ "length (filter (is_stale now) (ms_members s))"]
          le_max_iff_disj [THEN iffD2])
  qed
next
  case (Promote now)
  have "map (promote_member now) (ms_members s) = ms_members s" if "\<forall>m \<in> set (ms_members s). mb_state m \<noteq> kJoining"
    using that by (intro map_id_on) (auto simp: promote_member_def)
  with Promote show ?thesis by (auto simp: promote_joining_members_def Let_def intro!: exI [of _ 1])
qed (auto simp: membership_op_defs Let_def intro!: exI [of _ 1] split: option.splits sum.splits)

lemma perform_emits:
  "snap \<in> set (outcome_events (perform auth c s)) \<Longrightarrow>
     snap = build_snapshot (outcome_state (perform auth c s)) \<and> snap_revision snap = ms_snapshot_revision s + 1"
  by (cases c) (auto simp: membership_op_defs Let_def bump_and_emit_def emit_snapshot_def build_snapshot_def
      split: if_splits option.splits sum.splits)

section \<open>Lemmas: liveness\<close>

lemma perform_liveness_active:
  "ms_liveness_active (outcome_state (perform auth c s)) \<longrightarrow> ms_liveness_active s"
  by (cases c) (auto simp: membership_op_defs Let_def split: option.splits sum.splits)

text \<open>A change that never makes a live member suspect.\<close>

definition keeps_alive :: "member \<Rightarrow> member \<Rightarrow> bool" where
  "keeps_alive m m' \<longleftrightarrow> member_id m' = member_id m \<and> (mb_state m = kAlive \<longrightarrow> mb_state m' = kAlive)"

lemma keeps_alive_simps [simp]:
  "keeps_alive m m" "keeps_alive m (m\<lparr>mb_capability := c\<rparr>)" "keeps_alive m (m\<lparr>mb_models := ps\<rparr>)"
  "keeps_alive m (m\<lparr>mb_role := r\<rparr>)" "keeps_alive m (promote_member now m)"
  by (simp_all add: keeps_alive_def member_id_def promote_member_def)

lemma keeps_alive_refresh [simp]:
  "member_id m = pa_node_id peer \<Longrightarrow> keeps_alive m (refresh_member peer now m)"
  by (simp add: keeps_alive_def member_id_def refresh_member_def)

lemma perform_keeps_alive:
  assumes "\<not> ms_liveness_active s"
  shows "list_all2 keeps_alive (ms_members s) (ms_members (outcome_state (perform auth c s))) \<or>
    (\<exists>m. ms_members (outcome_state (perform auth c s)) = ms_members s @ [m])"
proof (cases c)
  case (Observe now e)
  then show ?thesis
    by (auto simp: observe_def Let_def list.rel_refl intro!: list_all2_update
        dest!: find_member_Some split: option.splits)
qed (use assms in \<open>auto simp: membership_op_defs Let_def list.rel_refl intro!: list_all2_update list_all2_map_same
    dest!: find_member_Some split: option.splits sum.splits\<close>)

lemma state_of_keeps_alive:
  "list_all2 keeps_alive (ms_members s) (ms_members s') \<Longrightarrow> state_of n s = Some kAlive \<Longrightarrow>
     state_of n s' = Some kAlive"
  unfolding state_of_def
  by (induction rule: list_all2_induct) (auto simp: keeps_alive_def split: if_splits)

lemma run_keeps_alive:
  "membership_run auth s calls s' \<Longrightarrow> \<not> ms_liveness_active s \<Longrightarrow>
     \<not> ms_liveness_active s' \<and> (state_of n s = Some kAlive \<longrightarrow> state_of n s' = Some kAlive)"
proof (induction rule: membership_run.induct)
  case (run_call s calls s1 c)
  then have off: "\<not> ms_liveness_active s1" by simp
  with run_call perform_keeps_alive [OF off, of auth c] perform_liveness_active [of auth c s1]
    state_of_keeps_alive [of s1 _ n] state_of_append [of _ s1 _ n kAlive]
  show ?case by blast
qed simp

lemma state_of_find_member:
  "state_of n s = map_option (\<lambda>i. mb_state (ms_members s ! i)) (find_member n (ms_members s))"
proof -
  have "map_option mb_state (List.find (\<lambda>m. member_id m = n) ms) =
      map_option (\<lambda>i. mb_state (ms ! i)) (find_member n ms)" for ms
    by (induction n ms rule: find_member.induct) (auto simp: option.map_comp comp_def)
  then show ?thesis by (simp add: state_of_def)
qed

lemma whole_seconds_over_ten: "whole_seconds d > 10 \<longleftrightarrow> d \<ge> 11000000000"
  by (simp add: whole_seconds_def) linarith

section \<open>Properties\<close>


definition example_calls :: "membership_call list" where
  "example_calls =
     [Start (Err kInternal []) True,
      Observe 0 \<lparr>de_kind = kFound, de_peer = default_peer\<lparr>pa_node_id := ''n1''\<rparr>\<rparr>,
      Promote 1, LivenessTick 20000000000]"

fun perform_all ::
  "(peer_advertisement \<Rightarrow> string \<Rightarrow> peer_identity result) \<Rightarrow> membership_call list \<Rightarrow> membership \<Rightarrow> membership" where
  "perform_all auth [] s = s"
| "perform_all auth (c # cs) s = perform_all auth cs (outcome_state (perform auth c s))"

lemma membership_run_prepend:
  "membership_run auth s1 calls s' \<Longrightarrow> s1 = outcome_state (perform auth c s) \<Longrightarrow>
     membership_run auth s (c # calls) s'"
proof (induction rule: membership_run.induct)
  case (run_nil s1)
  then show ?case using run_call [OF membership_run.run_nil, of auth s c] by simp
next
  case (run_call s1 calls s2 d)
  then show ?case using membership_run.run_call [of auth s "c # calls" s2 d] by simp
qed

lemma membership_run_perform_all: "membership_run auth s calls (perform_all auth calls s)"
  by (induction calls arbitrary: s) (auto intro: run_nil membership_run_prepend)

definition accept_all :: "peer_advertisement \<Rightarrow> string \<Rightarrow> peer_identity result" where
  "accept_all adv cert = Ok \<lparr>pi_node_id = pa_node_id adv, pi_certificate_pem = cert,
     pi_public_key_fingerprint = []\<rparr>"



definition example_membership :: membership where
  "example_membership = perform_all accept_all example_calls new_membership"


text \<open>
  Revisions. A call that leaves the revision alone leaves the member table alone; any other call
  raises it (modulo 2^64) by at least one and by no more than the number of members (or one). What
  a call hands to the callback is the table it leaves behind, under the next revision.
\<close>

theorem revision_tracks_changes:
  "(ms_members (outcome_state (perform auth c s)) \<noteq> ms_members s \<longrightarrow>
      (\<exists>k. 0 < k \<and> k \<le> max 1 (length (ms_members s)) \<and>
         ms_snapshot_revision (outcome_state (perform auth c s)) = ms_snapshot_revision s + of_nat k)) \<and>
   (\<forall>snap \<in> set (outcome_events (perform auth c s)).
      snap = build_snapshot (outcome_state (perform auth c s)) \<and>
      snap_revision snap = ms_snapshot_revision s + 1)"
  using perform_revision [of auth c s] perform_emits [of _ auth c s] by metis

theorem revision_tracks_changes_witness:
  "\<exists>k. 0 < k \<and> ms_snapshot_revision (outcome_state (perform accept_all
      (Observe 5 \<lparr>de_kind = kFound, de_peer = default_peer\<lparr>pa_node_id := ''n2''\<rparr>\<rparr>) example_membership)) =
    ms_snapshot_revision example_membership + of_nat k"
proof -
  have "ms_members (outcome_state (perform accept_all
      (Observe 5 \<lparr>de_kind = kFound, de_peer = default_peer\<lparr>pa_node_id := ''n2''\<rparr>\<rparr>) example_membership)) \<noteq>
    ms_members example_membership" by code_simp
  with revision_tracks_changes show ?thesis by blast
qed

text \<open>
  Liveness passes. While the service runs, a pass of the liveness thread makes a member suspect
  exactly when it was alive and was last seen at least eleven seconds ago, and reports nothing to
  the callback.
\<close>

theorem liveness_tick_suspects:
  assumes "ms_running s" "ms_liveness_active s" "i < length (ms_members s)"
  shows "mb_state (ms_members (liveness_tick now s) ! i) =
      (if mb_state (ms_members s ! i) = kAlive \<and> now - mb_last_seen (ms_members s ! i) \<ge> 11000000000
       then kSuspect else mb_state (ms_members s ! i)) \<and>
    outcome_events (perform auth (LivenessTick now) s) = []"
  using assms by (simp add: liveness_tick_def suspect_member_def is_stale_def whole_seconds_over_ten)

theorem liveness_tick_suspects_witness:
  "mb_state (ms_members (liveness_tick 12000000000 (perform_all accept_all (take 3 example_calls) new_membership)) ! 0) =
     kSuspect"
proof -
  let ?s = "perform_all accept_all (take 3 example_calls) new_membership"
  have "ms_running ?s" "ms_liveness_active ?s" "0 < length (ms_members ?s)" by code_simp+
  from liveness_tick_suspects [OF this, of 12000000000]
  have "mb_state (ms_members (liveness_tick 12000000000 ?s) ! 0) =
      (if mb_state (ms_members ?s ! 0) = kAlive \<and> 12000000000 - mb_last_seen (ms_members ?s ! 0) \<ge> 11000000000
       then kSuspect else mb_state (ms_members ?s ! 0))" by blast
  moreover have "mb_state (ms_members ?s ! 0) = kAlive" "mb_last_seen (ms_members ?s ! 0) = 1" by code_simp+
  ultimately show ?thesis by simp
qed

text \<open>
  Failure detection ends with the first stop. Once \<open>stop\<close> was called, no later run of the
  service, restarts included, ever makes a live member suspect: the liveness thread is only started
  by the constructor.
\<close>

theorem restarted_service_never_suspects:
  assumes "membership_run auth (ms_stop s) calls s'" "state_of n s = Some kAlive"
  shows "state_of n s' = Some kAlive"
  using run_keeps_alive [OF assms(1), of n] assms(2) by (simp add: ms_stop_def state_of_def)

theorem restarted_service_never_suspects_witness:
  "state_of ''n1'' (perform_all accept_all [Start (Err kInternal []) True, LivenessTick 90000000000]
      (ms_stop (perform_all accept_all (take 3 example_calls) new_membership))) = Some kAlive"
proof -
  have "state_of ''n1'' (perform_all accept_all (take 3 example_calls) new_membership) = Some kAlive"
    by code_simp
  from restarted_service_never_suspects [OF membership_run_perform_all this] show ?thesis .
qed

text \<open>
  Expiry events refresh. \<open>observe\<close> does not look at the kind of the event: an expiry
  reported by discovery brings a suspect member back to alive and renews its last-seen time.
\<close>

theorem expired_event_revives:
  assumes "ms_running s" "pa_node_id peer \<noteq> []" "state_of (pa_node_id peer) s = Some kSuspect"
  shows "state_of (pa_node_id peer) (outcome_state (observe auth now \<lparr>de_kind = kExpired, de_peer = peer\<rparr> s)) =
    Some kAlive"
proof -
  obtain i where i: "find_member (pa_node_id peer) (ms_members s) = Some i" "mb_state (ms_members s ! i) = kSuspect"
    using assms(3) by (auto simp: state_of_find_member)
  have "find_member (pa_node_id peer) ((ms_members s)[i := refresh_member peer now (ms_members s ! i)]) = Some i"
    using i(1) find_member_Some [OF i(1)] by (intro find_member_update) (auto simp: refresh_member_def member_id_def)
  with i find_member_Some [OF i(1)] assms show ?thesis
    by (simp add: state_of_find_member observe_def refresh_member_def)
qed

theorem expired_event_revives_witness:
  "state_of ''n1'' (outcome_state (observe accept_all 30000000000
      \<lparr>de_kind = kExpired, de_peer = default_peer\<lparr>pa_node_id := ''n1''\<rparr>\<rparr> example_membership)) = Some kAlive"
proof -
  have "ms_running example_membership" "state_of ''n1'' example_membership = Some kSuspect" by code_simp+
  with expired_event_revives [of example_membership "default_peer\<lparr>pa_node_id := ''n1''\<rparr>"] show ?thesis by simp
qed

end
