(* ===== verification/Election.thy ===== *)
theory Election
  imports Types
begin

text \<open>
  \<^verbatim>\<open>src/cluster/bully_election.cpp\<close>: the leader is the greatest live node id of the last membership
  snapshot, and every change of leader starts a new term. The term store is external to the class:
  what \<open>load_term\<close> returned is an argument, and the calls of \<open>store_term\<close> appear, with
  the callback's announcements, in the events of an operation. The random token and the clock
  reading are arguments.
\<close>

section \<open>State\<close>

record leadership_state =
  ls_leader_id :: "node_id option"
  ls_fence :: leadership_fence
  ls_locally_valid_until :: time_point

record election =
  el_local_node :: node_id
  el_cluster_id :: string
  el_term_store :: bool
  el_callback :: bool
  el_state :: leadership_state
  el_current_term :: u64
  el_membership_revision :: u64
  el_last_snapshot_revision :: u64
  el_fencing_token :: string
  el_running :: bool

datatype election_event = StoreTerm string u64 | Announce leadership_state

type_synonym 'a election_outcome = "(election, election_event, 'a) outcome"

definition new_election :: election where
  "new_election = \<lparr>el_local_node = [], el_cluster_id = [], el_term_store = False, el_callback = False,
     el_state = \<lparr>ls_leader_id = None, ls_fence = default_fence, ls_locally_valid_until = 0\<rparr>,
     el_current_term = 0, el_membership_revision = 0, el_last_snapshot_revision = 0,
     el_fencing_token = [], el_running = False\<rparr>"

definition make_fencing_token :: "u64 \<Rightarrow> string" where
  "make_fencing_token rng = ''fence-'' @ hex (unat rng)"

section \<open>Operations\<close>

definition el_start ::
  "node_id \<Rightarrow> string \<Rightarrow> u64 result \<Rightarrow> bool \<Rightarrow> election \<Rightarrow> unit election_outcome" where
  "el_start local_node cluster_id loaded callback e =
     (if el_running e then (Err kFailedPrecondition ''election already started'', e, [])
      else
        let e1 = e\<lparr>el_local_node := local_node, el_cluster_id := cluster_id, el_term_store := True,
                   el_callback := callback, el_running := True\<rparr>
        in (Ok (), (case loaded of Inl _ \<Rightarrow> e1 | Inr t \<Rightarrow> e1\<lparr>el_current_term := t\<rparr>), []))"

definition alive_ids :: "membership_snapshot \<Rightarrow> node_id list" where
  "alive_ids snap =
     map (\<lambda>m. pa_node_id (mb_peer m)) (filter (\<lambda>m. mb_state m = kAlive) (snap_members snap))"

text \<open>\<open>std::max_element\<close>: the first greatest element of a nonempty list.\<close>

definition max_element :: "'a::linorder list \<Rightarrow> 'a" where
  "max_element xs = foldl (\<lambda>best x. if best < x then x else best) (hd xs) (tl xs)"

definition emit_state :: "election \<Rightarrow> election_event list" where
  "emit_state e = (if el_callback e then [Announce (el_state e)] else [])"

definition update_membership ::
  "u64 \<Rightarrow> time_point \<Rightarrow> membership_snapshot \<Rightarrow> election \<Rightarrow> unit election_outcome" where
  "update_membership rng now snap e =
     (if \<not> el_running e then (Ok (), e, [])
      else if snap_revision snap < el_last_snapshot_revision e
      then (Err kDataLoss ''membership revision rollback'', e, [])
      else
        let e1 = e\<lparr>el_last_snapshot_revision := snap_revision snap\<rparr>;
            alive = alive_ids snap
        in if alive = [] then
             (let e2 = e1\<lparr>el_state := (el_state e1)\<lparr>ls_leader_id := None\<rparr>\<rparr> in (Ok (), e2, emit_state e2))
           else
             (let highest_id = max_element alive in
              if ls_leader_id (el_state e1) \<noteq> Some highest_id then
                (let term = el_current_term e1 + 1;
                     token = make_fencing_token rng;
                     e2 = e1\<lparr>el_current_term := term, el_fencing_token := token,
                             el_membership_revision := snap_revision snap,
                             el_state := \<lparr>ls_leader_id = Some highest_id,
                               ls_fence = \<lparr>lf_term = term, lf_token = token,
                                 lf_membership_revision = snap_revision snap\<rparr>,
                               ls_locally_valid_until = now + 30000000000\<rparr>\<rparr>
                 in (Ok (), e2,
                     (if el_term_store e1 then [StoreTerm (el_cluster_id e1) term] else []) @ emit_state e2))
              else (Ok (), e1, emit_state e1)))"

definition el_current :: "election \<Rightarrow> leadership_state result" where
  "el_current e =
     (if \<not> el_running e then Err kFailedPrecondition ''election not running'' else Ok (el_state e))"

definition el_stop :: "election \<Rightarrow> election" where
  "el_stop e = e\<lparr>el_running := False\<rparr>"

definition is_leader :: "election \<Rightarrow> bool" where
  "is_leader e \<longleftrightarrow> ls_leader_id (el_state e) = Some (el_local_node e)"

section \<open>Runs\<close>

text \<open>A sequence of snapshots, each with the token and clock reading used for it.\<close>

fun feed :: "(u64 \<times> time_point \<times> membership_snapshot) list \<Rightarrow> election \<Rightarrow> election \<times> election_event list" where
  "feed [] e = (e, [])"
| "feed ((rng, now, snap) # rest) e =
     (let r = update_membership rng now snap e; r' = feed rest (outcome_state r)
      in (fst r', outcome_events r @ snd r'))"

section \<open>Lemmas\<close>

lemma foldl_max:
  fixes y :: "'a::linorder"
  shows "foldl (\<lambda>best x. if best < x then x else best) y xs = Max (insert y (set xs))"
proof (induction xs arbitrary: y)
  case (Cons x xs)
  have "y < x \<Longrightarrow> Max (insert y (insert x (set xs))) = Max (insert x (set xs))"
    by (subst Max_insert) (auto intro!: max_absorb2 order.trans [OF less_imp_le Max_ge])
  moreover have "x \<le> y \<Longrightarrow> Max (insert x (insert y (set xs))) = Max (insert y (set xs))"
    by (subst Max_insert) (auto intro!: max_absorb2 order.trans [OF _ Max_ge])
  ultimately show ?case using Cons.IH by (auto simp: insert_commute not_less)
qed simp

lemma max_element_Max: "xs \<noteq> [] \<Longrightarrow> max_element xs = Max (set xs)"
  by (cases xs) (simp_all add: max_element_def foldl_max)

text \<open>The three effects an accepted snapshot may have.\<close>

definition leader_of :: "membership_snapshot \<Rightarrow> node_id option" where
  "leader_of snap = (if alive_ids snap = [] then None else Some (Max (set (alive_ids snap))))"

lemma update_membership_cases:
  assumes "update_membership rng now snap e = (r, e', evs)"
  obtains
    (ignored) "e' = e" "evs = []" "\<not> el_running e \<or> snap_revision snap < el_last_snapshot_revision e"
  | (leaderless) "e' = e\<lparr>el_last_snapshot_revision := snap_revision snap,
        el_state := (el_state e)\<lparr>ls_leader_id := None\<rparr>\<rparr>"
      "evs = emit_state e'" "leader_of snap = None"
  | (kept) "e' = e\<lparr>el_last_snapshot_revision := snap_revision snap\<rparr>" "evs = emit_state e'"
      "ls_leader_id (el_state e) \<noteq> None" "leader_of snap = ls_leader_id (el_state e)"
  | (elected) "ls_leader_id (el_state e') = leader_of snap" "ls_leader_id (el_state e') \<noteq> None"
      "el_current_term e' = el_current_term e + 1" "lf_term (ls_fence (el_state e')) = el_current_term e + 1"
      "el_cluster_id e' = el_cluster_id e" "el_term_store e' = el_term_store e"
      "evs = (if el_term_store e then [StoreTerm (el_cluster_id e) (el_current_term e + 1)] else []) @ emit_state e'"
proof (cases "\<not> el_running e \<or> snap_revision snap < el_last_snapshot_revision e")
  case True
  with assms show ?thesis by (intro ignored) (auto simp: update_membership_def split: if_splits)
next
  case go: False
  show ?thesis
  proof (cases "alive_ids snap = []")
    case True
    with go assms show ?thesis by (intro leaderless) (auto simp: update_membership_def leader_of_def Let_def)
  next
    case False
    then have l: "leader_of snap = Some (max_element (alive_ids snap))"
      by (simp add: leader_of_def max_element_Max)
    show ?thesis
    proof (cases "ls_leader_id (el_state e) = leader_of snap")
      case True
      with go False assms l show ?thesis by (intro kept) (auto simp: update_membership_def Let_def)
    next
      case change: False
      with go False assms l show ?thesis
        by (intro elected) (simp_all add: update_membership_def Let_def, auto)
    qed
  qed
qed

text \<open>
  The fence of the current state never runs ahead of the term, and belongs to it while there is a
  leader.
\<close>

definition election_inv :: "election \<Rightarrow> bool" where
  "election_inv e \<longleftrightarrow> lf_term (ls_fence (el_state e)) \<le> el_current_term e \<and>
     (ls_leader_id (el_state e) \<noteq> None \<longrightarrow> lf_term (ls_fence (el_state e)) = el_current_term e)"

lemma update_membership_inv:
  assumes "update_membership rng now snap e = (r, e', evs)" "election_inv e"
  shows "election_inv e'"
  by (rule update_membership_cases [OF assms(1)]) (use assms(2) in \<open>auto simp: election_inv_def\<close>)

lemma el_start_inv: "election_inv (outcome_state (el_start n cid loaded cb new_election))"
  by (simp add: el_start_def Let_def election_inv_def new_election_def default_fence_def split: sum.splits)

definition announcements :: "election_event list \<Rightarrow> leadership_state list" where
  "announcements evs = List.map_filter (\<lambda>ev. case ev of Announce st \<Rightarrow> Some st | _ \<Rightarrow> None) evs"

lemma announcements_simps [simp]:
  "announcements [] = []" "announcements (StoreTerm c t # evs) = announcements evs"
  "announcements (Announce st # evs) = st # announcements evs"
  "announcements (xs @ ys) = announcements xs @ announcements ys"
  by (simp_all add: announcements_def map_filter_def)

lemma update_announces:
  assumes "update_membership rng now snap e = (r, e', evs)"
  shows "announcements evs = [] \<or> announcements evs = [el_state e']"
  by (rule update_membership_cases [OF assms]) (auto simp: emit_state_def)

lemma update_term_step:
  assumes "update_membership rng now snap e = (r, e', evs)" "unat (el_current_term e) + 1 < 2 ^ 64"
  shows "(el_current_term e' = el_current_term e \<and>
      lf_term (ls_fence (el_state e')) = lf_term (ls_fence (el_state e)) \<and>
      (ls_leader_id (el_state e') = None \<or> el_state e' = el_state e)) \<or>
    (unat (el_current_term e') = unat (el_current_term e) + 1 \<and>
      lf_term (ls_fence (el_state e')) = el_current_term e')"
proof -
  have "unat (el_current_term e + 1) = unat (el_current_term e) + 1"
    using assms(2) by (simp add: unat_word_ariths)
  note unat_Suc = this
  show ?thesis by (rule update_membership_cases [OF assms(1)]) (simp_all add: unat_Suc)
qed

text \<open>
  What is announced later: never an older fence, and a leader only under the current fence or
  under a strictly newer term.
\<close>

lemma feed_Cons:
  "update_membership rng now snap e = (r, e', evs) \<Longrightarrow>
     feed ((rng, now, snap) # rest) e = (fst (feed rest e'), evs @ snd (feed rest e'))"
  by (simp add: Let_def)

lemma feed_announcements:
  assumes "election_inv e" "unat (el_current_term e) + length ups < 2 ^ 64"
    "st \<in> set (announcements (snd (feed ups e)))"
  shows "lf_term (ls_fence (el_state e)) \<le> lf_term (ls_fence st) \<and>
     (ls_leader_id st \<noteq> None \<longrightarrow>
        (ls_leader_id (el_state e) \<noteq> None \<and> st = el_state e) \<or> el_current_term e < lf_term (ls_fence st))"
  using assms
proof (induction ups arbitrary: e)
  case (Cons up rest)
  obtain rng now snap r e' evs where up: "up = (rng, now, snap)"
    and u: "update_membership rng now snap e = (r, e', evs)"
    by (metis prod_cases3)
  have inv': "election_inv e'" by (rule update_membership_inv [OF u Cons.prems(1)])
  have step: "(el_current_term e' = el_current_term e \<and>
      lf_term (ls_fence (el_state e')) = lf_term (ls_fence (el_state e)) \<and>
      (ls_leader_id (el_state e') = None \<or> el_state e' = el_state e)) \<or>
    (unat (el_current_term e') = unat (el_current_term e) + 1 \<and>
      lf_term (ls_fence (el_state e')) = el_current_term e')"
    using Cons.prems(2) by (intro update_term_step [OF u]) simp
  then have len': "unat (el_current_term e') + length rest < 2 ^ 64" using Cons.prems(2) by auto
  have "st = el_state e' \<or> st \<in> set (announcements (snd (feed rest e')))"
    using Cons.prems(3) update_announces [OF u] unfolding up feed_Cons [OF u] by auto
  then have "lf_term (ls_fence (el_state e')) \<le> lf_term (ls_fence st) \<and>
     (ls_leader_id st \<noteq> None \<longrightarrow>
        (ls_leader_id (el_state e') \<noteq> None \<and> st = el_state e') \<or> el_current_term e' < lf_term (ls_fence st))"
    using Cons.IH [OF inv' len'] by auto
  with step Cons.prems(1) inv' show ?case
    unfolding election_inv_def word_le_nat_alt word_less_nat_alt by (elim disjE) auto
qed simp

lemma feed_sorted:
  assumes "election_inv e" "unat (el_current_term e) + length ups < 2 ^ 64"
  shows "sorted_wrt (\<lambda>a b. lf_term (ls_fence a) \<le> lf_term (ls_fence b) \<and>
     (ls_leader_id a \<noteq> None \<and> ls_leader_id b \<noteq> None \<and> lf_term (ls_fence a) = lf_term (ls_fence b) \<longrightarrow> a = b))
     (announcements (snd (feed ups e)))"
  using assms
proof (induction ups arbitrary: e)
  case (Cons up rest)
  obtain rng now snap r e' evs where up: "up = (rng, now, snap)"
    and u: "update_membership rng now snap e = (r, e', evs)"
    by (metis prod_cases3)
  have inv': "election_inv e'" by (rule update_membership_inv [OF u Cons.prems(1)])
  have len': "unat (el_current_term e') + length rest < 2 ^ 64"
    using update_term_step [OF u] Cons.prems(2) by auto
  have "lf_term (ls_fence (el_state e')) \<le> lf_term (ls_fence b) \<and>
     (ls_leader_id (el_state e') \<noteq> None \<and> ls_leader_id b \<noteq> None \<and>
        lf_term (ls_fence (el_state e')) = lf_term (ls_fence b) \<longrightarrow> el_state e' = b)"
    if "b \<in> set (announcements (snd (feed rest e')))" for b
    using feed_announcements [OF inv' len' that] inv' by (auto simp: election_inv_def)
  with Cons.IH [OF inv' len'] update_announces [OF u] show ?case
    unfolding up feed_Cons [OF u] by auto
qed simp

section \<open>Properties\<close>

text \<open>
  C19. The election follows the membership. After every accepted snapshot the leader is the greatest
  id among the live members of that snapshot, and there is none when no member is alive; so two
  nodes that accepted the same snapshot last agree on the leader, whatever they saw before.
\<close>

theorem leader_is_greatest_live:
  assumes "el_running e" "el_last_snapshot_revision e \<le> snap_revision snap"
    and "el_running e2" "el_last_snapshot_revision e2 \<le> snap_revision snap"
  shows "ls_leader_id (el_state (outcome_state (update_membership rng now snap e))) =
       (if alive_ids snap = [] then None else Some (Max (set (alive_ids snap)))) \<and>
     ls_leader_id (el_state (outcome_state (update_membership rng2 now2 snap e2))) =
       ls_leader_id (el_state (outcome_state (update_membership rng now snap e)))"
proof -
  have *: "ls_leader_id (el_state (outcome_state (update_membership rng now snap e))) = leader_of snap"
    if "el_running e" "el_last_snapshot_revision e \<le> snap_revision snap" for rng now e
  proof -
    obtain r e' evs where u: "update_membership rng now snap e = (r, e', evs)" by (metis prod_cases3)
    have "ls_leader_id (el_state e') = leader_of snap"
      by (rule update_membership_cases [OF u]) (use that in auto)
    then show ?thesis by (simp add: u)
  qed
  from * [OF assms(1,2)] * [OF assms(3,4)] show ?thesis by (simp add: leader_of_def)
qed

definition example_snapshot :: "u64 \<Rightarrow> (node_id \<times> member_state) list \<Rightarrow> membership_snapshot" where
  "example_snapshot r ms = \<lparr>snap_revision = r, snap_members = map (\<lambda>(n, st).
     \<lparr>mb_peer = default_peer\<lparr>pa_node_id := n\<rparr>, mb_state = st, mb_role = kParticipant, mb_capability = None,
      mb_models = [], mb_last_seen = 0\<rparr>) ms\<rparr>"

definition example_election :: "node_id \<Rightarrow> election" where
  "example_election n = outcome_state (el_start n ''c'' (Ok 0) True new_election)"

theorem leader_is_greatest_live_witness:
  "ls_leader_id (el_state (outcome_state (update_membership 1 0
      (example_snapshot 4 [(''a'', kAlive), (''c'', kSuspect), (''b'', kAlive)]) (example_election ''a'')))) = Some ''b''"
proof -
  have "el_running (example_election ''a'')"
    "el_last_snapshot_revision (example_election ''a'') \<le>
       snap_revision (example_snapshot 4 [(''a'', kAlive), (''c'', kSuspect), (''b'', kAlive)])"
    by code_simp+
  note leader_is_greatest_live [OF this this, of 1 0]
  moreover have "alive_ids (example_snapshot 4 [(''a'', kAlive), (''c'', kSuspect), (''b'', kAlive)]) = [''a'', ''b'']"
    by code_simp
  moreover have "Max (set [''a'', ''b'']) = ''b''" by code_simp
  ultimately show ?thesis by simp
qed

text \<open>
  C4. Terms and fences. From a freshly started election, as long as the 64-bit term does not
  overflow, the terms of the announced fences never decrease, and two announcements of a leader
  under the same term are identical: within one node a term never belongs to two leaders.
\<close>

theorem one_leader_per_term:
  assumes "unat (el_current_term (outcome_state (el_start n cid loaded cb new_election))) + length ups < 2 ^ 64"
    and "evs = snd (feed ups (outcome_state (el_start n cid loaded cb new_election)))"
  shows "sorted_wrt (\<lambda>a b. lf_term (ls_fence a) \<le> lf_term (ls_fence b) \<and>
     (ls_leader_id a \<noteq> None \<and> ls_leader_id b \<noteq> None \<and> lf_term (ls_fence a) = lf_term (ls_fence b) \<longrightarrow> a = b))
     (announcements evs)"
  unfolding assms(2) by (rule feed_sorted [OF el_start_inv assms(1)])

definition example_ups :: "(u64 \<times> time_point \<times> membership_snapshot) list" where
  "example_ups = [(1, 0, example_snapshot 1 [(''a'', kAlive)]),
     (2, 5, example_snapshot 2 [(''a'', kAlive), (''b'', kAlive)]),
     (3, 9, example_snapshot 3 [(''a'', kAlive), (''b'', kSuspect)])]"

theorem one_leader_per_term_witness:
  "map (\<lambda>st. (ls_leader_id st, lf_term (ls_fence st))) (announcements (snd (feed example_ups (example_election ''a'')))) =
     [(Some ''a'', 1), (Some ''b'', 2), (Some ''a'', 3)] \<and>
   sorted_wrt (\<lambda>a b. lf_term (ls_fence a) \<le> lf_term (ls_fence b))
     (announcements (snd (feed example_ups (example_election ''a''))))"
proof -
  have small: "unat (el_current_term (outcome_state (el_start ''a'' ''c'' (Ok 0) True new_election))) +
      length example_ups < 2 ^ 64" by (simp add: el_start_def new_election_def Let_def example_ups_def)
  have "sorted_wrt (\<lambda>a b. lf_term (ls_fence a) \<le> lf_term (ls_fence b))
     (announcements (snd (feed example_ups (example_election ''a''))))"
    by (rule sorted_wrt_mono_rel [OF _ one_leader_per_term [OF small refl,
          folded example_election_def]]) simp
  moreover have "map (\<lambda>st. (ls_leader_id st, lf_term (ls_fence st)))
      (announcements (snd (feed example_ups (example_election ''a'')))) =
     [(Some ''a'', 1), (Some ''b'', 2), (Some ''a'', 3)]" by code_simp
  ultimately show ?thesis by blast
qed

text \<open>
  Terms are stored before they are announced. When an update announces a leader under another
  term than the one in force, its events are the store of that term followed by the announcement; a
  snapshot with an older revision is refused with kDataLoss and changes nothing.
\<close>

theorem term_stored_before_announced:
  assumes "el_running e" "el_term_store e" "el_callback e"
  shows "(snap_revision snap < el_last_snapshot_revision e \<longrightarrow>
       update_membership rng now snap e = (Err kDataLoss ''membership revision rollback'', e, [])) \<and>
     (\<forall>st \<in> set (announcements (outcome_events (update_membership rng now snap e))).
        lf_term (ls_fence st) \<noteq> lf_term (ls_fence (el_state e)) \<longrightarrow>
        outcome_events (update_membership rng now snap e) =
          [StoreTerm (el_cluster_id e) (lf_term (ls_fence st)), Announce st])"
proof -
  obtain r e' evs where u: "update_membership rng now snap e = (r, e', evs)" by (metis prod_cases3)
  have "evs = [StoreTerm (el_cluster_id e) (lf_term (ls_fence st)), Announce st]"
    if "st \<in> set (announcements evs)" "lf_term (ls_fence st) \<noteq> lf_term (ls_fence (el_state e))" for st
    by (rule update_membership_cases [OF u])
      (use that assms in \<open>auto simp: emit_state_def split: if_splits\<close>)
  moreover have "snap_revision snap < el_last_snapshot_revision e \<longrightarrow>
      update_membership rng now snap e = (Err kDataLoss ''membership revision rollback'', e, [])"
    using assms(1) by (simp add: update_membership_def)
  ultimately show ?thesis by (simp add: u)
qed

theorem term_stored_before_announced_witness:
  "update_membership 1 0 (example_snapshot 1 []) (fst (feed example_ups (example_election ''a''))) =
     (Err kDataLoss ''membership revision rollback'', fst (feed example_ups (example_election ''a'')), [])"
proof -
  let ?e = "fst (feed example_ups (example_election ''a''))"
  have "el_running ?e" "el_term_store ?e" "el_callback ?e"
    "snap_revision (example_snapshot 1 []) < el_last_snapshot_revision ?e" by code_simp+
  with term_stored_before_announced show ?thesis by blast
qed

end
