(* ===== verification/Wire.thy ===== *)
theory Wire
  imports Types
begin

text \<open>
  The little-endian field accessors that \<^verbatim>\<open>src/transport/tensor_codec.cpp\<close> and
  \<^verbatim>\<open>src/transport/grpc_transport.cpp\<close> both define (under different names), with shifts and masks
  as in the source, and the lemmas that relate them to numbers.
\<close>

section \<open>Accessors\<close>

text \<open>The byte \<open>(v >> (8 i)) & 0xFF\<close>.\<close>

definition byte_of :: "'a::len word \<Rightarrow> nat \<Rightarrow> u8" where
  "byte_of v i = ucast (drop_bit (8 * i) v AND 0xFF)"

definition write_uint32 :: "nat \<Rightarrow> u32 \<Rightarrow> bytes \<Rightarrow> bytes option" where
  "write_uint32 off v = poke off (map (byte_of v) [0 ..< 4])"

definition write_uint64 :: "nat \<Rightarrow> u64 \<Rightarrow> bytes \<Rightarrow> bytes option" where
  "write_uint64 off v = poke off (map (byte_of v) [0 ..< 8])"

text \<open>\<open>src[0] | src[1] << 8 | ...\<close> over the first \<open>k\<close> bytes.\<close>

definition or_bytes :: "nat \<Rightarrow> bytes \<Rightarrow> 'a::len word" where
  "or_bytes k bs = fold (\<lambda>i v. v OR push_bit (8 * i) (ucast (bs ! i))) [0 ..< k] 0"

definition read_uint32 :: "nat \<Rightarrow> bytes \<Rightarrow> u32 option" where
  "read_uint32 off buf = map_option (or_bytes 4) (peek off 4 buf)"

definition read_uint64 :: "nat \<Rightarrow> bytes \<Rightarrow> u64 option" where
  "read_uint64 off buf = map_option (or_bytes 8) (peek off 8 buf)"

section \<open>Lemmas\<close>

lemma le_value_append: "le_value (xs @ ys) = le_value xs + 256 ^ length xs * le_value ys"
  by (induction xs) (simp_all add: algebra_simps)

lemma nth_le_bytes: "i < k \<Longrightarrow> le_bytes k n ! i = of_nat (n div 256 ^ i mod 256)"
proof (induction k arbitrary: n i)
  case (Suc k)
  then show ?case
    by (cases i) (simp_all add: div_mult2_eq)
qed simp

lemma byte_of_value: "byte_of (v :: 'a::len word) i = of_nat (unat v div 256 ^ i mod 256)"
proof -
  have mask: "(0xFF :: 'a word) = mask 8" by (simp add: mask_eq_exp_minus_1)
  have "unat (byte_of v i) = unat (drop_bit (8 * i) v) mod 256"
    unfolding byte_of_def mask take_bit_eq_mask [symmetric]
    by (simp add: unsigned_ucast_eq unsigned_take_bit_eq) (simp add: take_bit_eq_mod)
  also have "\<dots> = unat v div 256 ^ i mod 256"
    unfolding unsigned_drop_bit_eq by (simp add: drop_bit_eq_div power_mult take_bit_eq_mod)
  finally show ?thesis by (simp add: word_unat_eq_iff unat_of_nat)
qed

lemma map_byte_of: "map (byte_of v) [0 ..< k] = le_bytes k (unat v)"
  by (rule nth_equalityI) (simp_all add: byte_of_value nth_le_bytes)

lemma or_push_bit_disjoint:
  assumes "n < 2 ^ m"
  shows "(of_nat n :: 'a::len word) OR push_bit m w = of_nat n + push_bit m w"
proof -
  have "(of_nat n :: 'a word) = take_bit m (of_nat n)"
    using assms by (metis take_bit_nat_eq_self take_bit_of_nat)
  then have "(of_nat n :: 'a word) AND push_bit m w = 0"
    by (metis (no_types, opaque_lifting) bit_and_iff bit_eqI bit_push_bit_iff bit_take_bit_iff not_less zero_and_eq bit_0_eq bot_apply)
  then show ?thesis by (simp add: disjunctive_add_eq_or)
qed

lemma or_bytes_value:
  assumes "k \<le> length bs"
  shows "or_bytes k bs = (of_nat (le_value (take k bs)) :: 'a::len word)"
  using assms
proof (induction k)
  case (Suc k)
  let ?n = "le_value (take k bs)"
  have "?n < 2 ^ (8 * k)"
    using le_value_bound [of "take k bs"] Suc.prems by (simp add: power_mult)
  moreover have "push_bit (8 * k) (ucast (bs ! k) :: 'a word) = of_nat (256 ^ k * unat (bs ! k))"
    by (simp add: push_bit_eq_mult power_mult)
  ultimately show ?case
    using Suc or_push_bit_disjoint [of ?n "8 * k" "ucast (bs ! k) :: 'a word"]
    by (simp add: or_bytes_def take_Suc_conv_app_nth le_value_append algebra_simps)
qed (simp add: or_bytes_def)

lemma read_uint32_value:
  "read_uint32 off buf = (if off + 4 \<le> length buf then Some (of_nat (le_value (take 4 (drop off buf)))) else None)"
  by (auto simp: read_uint32_def peek_def or_bytes_value)

lemma read_uint64_value:
  "read_uint64 off buf = (if off + 8 \<le> length buf then Some (of_nat (le_value (take 8 (drop off buf)))) else None)"
  by (auto simp: read_uint64_def peek_def or_bytes_value)

lemma write_uint32_le: "write_uint32 off v = poke off (le_bytes 4 (unat v))"
  by (simp add: write_uint32_def map_byte_of)

lemma write_uint64_le: "write_uint64 off v = poke off (le_bytes 8 (unat v))"
  by (simp add: write_uint64_def map_byte_of)

lemma of_nat_le_value_le_bytes4 [simp]: "of_nat (le_value (le_bytes 4 (unat (v :: u32)))) = v"
  using unsigned_less [where 'a = nat, of v] by (simp add: le_value_le_bytes)

lemma of_nat_le_value_le_bytes8 [simp]: "of_nat (le_value (le_bytes 8 (unat (v :: u64)))) = v"
  using unsigned_less [where 'a = nat, of v] by (simp add: le_value_le_bytes)

lemma le_bytes_le_value [simp]: "le_bytes (length bs) (le_value bs) = bs"
proof (induction bs)
  case (Cons b bs)
  have "unat b < 256" using unsigned_less [where 'a = nat, of b] by simp
  with Cons show ?case by simp
qed simp

lemma le_bytes_eq_Nil [simp]: "le_bytes k n = [] \<longleftrightarrow> k = 0" "[] = le_bytes k n \<longleftrightarrow> k = 0"
  by (cases k; simp)+

lemma le_bytes_mod: "le_bytes k (n mod 256 ^ k) = le_bytes k n"
proof (induction k arbitrary: n)
  case (Suc k)
  have "n mod (256 * 256 ^ k) div 256 = n div 256 mod 256 ^ k"
    by (simp add: mod_mult2_eq)
  moreover have "n mod (256 * 256 ^ k) mod 256 = n mod 256"
    by (simp add: mod_mult2_eq)
  ultimately show ?case using Suc [of "n div 256"] by simp
qed simp

lemma read_uint32_eq:
  "length bs = 4 \<Longrightarrow> read_uint32 0 bs = Some v \<longleftrightarrow> bs = le_bytes 4 (unat v)"
proof -
  assume len: "length bs = 4"
  then have "le_value bs < 2 ^ 32" using le_value_bound [of bs] by simp
  then have "(of_nat (le_value bs) = v) \<longleftrightarrow> le_value bs = unat v"
    by (auto simp: word_unat_eq_iff unat_of_nat)
  also have "\<dots> \<longleftrightarrow> bs = le_bytes 4 (unat v)"
  proof
    assume "bs = le_bytes 4 (unat v)"
    then show "le_value bs = unat v"
      using unsigned_less [where 'a = nat, of v] by (simp add: le_value_le_bytes)
  qed (use len le_bytes_le_value [of bs] in auto)
  finally show ?thesis using len by (simp add: read_uint32_value)
qed

lemma read_uint32_le_bytes [simp]: "read_uint32 0 (le_bytes 4 (unat v)) = Some v"
  using read_uint32_eq [of "le_bytes 4 (unat v)" v] by simp

lemma poke_replicate:
  "off = length xs \<Longrightarrow> n = length bs + m \<Longrightarrow>
     poke off bs (xs @ replicate n z) = Some (xs @ bs @ replicate m z)"
  by (simp add: poke_def)

text \<open>What was written is read back.\<close>

lemma read_write_uint32: "write_uint32 off v buf = Some buf' \<Longrightarrow> read_uint32 off buf' = Some v"
  by (auto simp: write_uint32_le poke_Some_iff read_uint32_value)

lemma read_write_uint64: "write_uint64 off v buf = Some buf' \<Longrightarrow> read_uint64 off buf' = Some v"
  by (auto simp: write_uint64_le poke_Some_iff read_uint64_value)

end
