(* ===== verification/Codec.thy ===== *)
theory Codec
  imports Wire
begin

text \<open>
  \<^verbatim>\<open>src/transport/tensor_codec.cpp\<close>: the tensor envelope. The SHA-256 of OpenSSL is a parameter
  \<open>sha\<close> of 32 bytes; the fallback of builds without OpenSSL is a definition. An access outside
  the frame is undefined behaviour and makes the operation \<open>None\<close>.
\<close>

section \<open>The digest\<close>

fun sha_fallback_loop :: "nat \<Rightarrow> u32 \<Rightarrow> bytes \<Rightarrow> bytes \<Rightarrow> bytes" where
  "sha_fallback_loop i h d [] = d"
| "sha_fallback_loop i h d (b # bs) =
     (let h' = h * 31 + ucast b in sha_fallback_loop (i + 1) h' (d[i mod 32 := ucast (h' AND 0xFF)]) bs)"

definition compute_sha256_fallback :: "bytes \<Rightarrow> bytes" where
  "compute_sha256_fallback data = sha_fallback_loop 0 0 (replicate 32 0) data"

text \<open>A digest fills the 32 bytes of a \<open>Sha256Digest\<close>.\<close>

locale digest =
  fixes sha :: "bytes \<Rightarrow> bytes"
  assumes digest_length: "length (sha data) = 32"
begin

lemma digest_tail_length: "length (drop 24 (sha data)) = 8"
  by (simp add: digest_length)

end

section \<open>Encoding and decoding\<close>

definition kHeaderMagic :: u32 where
  "kHeaderMagic = 0x45414954"

definition kHeaderSize :: nat where
  "kHeaderSize = 64"

fun write_dims :: "nat \<Rightarrow> i64 list \<Rightarrow> bytes \<Rightarrow> bytes option" where
  "write_dims off [] buf = Some buf"
| "write_dims off (d # ds) buf =
     Option.bind (write_uint64 off (word_of_int d) buf) (write_dims (off + 8) ds)"

definition encode :: "(bytes \<Rightarrow> bytes) \<Rightarrow> tensor \<Rightarrow> bytes result option" where
  "encode sha t =
     (let data = tn_data t; spec = tn_spec t; dims = ts_dims (sp_shape spec);
          total = kHeaderSize + length data in
      if data = [] then Some (Err kInvalidArgument ''cannot encode empty tensor'')
      else if sp_maximum_encoded_bytes spec > 0 \<and> total > unat (sp_maximum_encoded_bytes spec)
      then Some (Err kResourceExhausted ''tensor exceeds maximum_encoded_bytes'')
      else
        Option.bind (write_uint32 0 kHeaderMagic (replicate total 0)) (\<lambda>w1.
        Option.bind (write_uint32 4 (ucast (sp_element_type spec)) w1) (\<lambda>w2.
        Option.bind (write_uint64 8 (of_nat (length dims)) w2) (\<lambda>w3.
        Option.bind (write_dims 16 dims w3) (\<lambda>w4.
        Option.bind (write_uint64 56 (of_nat (length data)) w4) (\<lambda>w5.
        Option.bind (poke kHeaderSize data w5) (\<lambda>w6.
        Option.bind (poke 32 (sha data) w6) (\<lambda>w7. Some (Ok w7)))))))))"

fun read_dims :: "nat \<Rightarrow> nat \<Rightarrow> bytes \<Rightarrow> i64 list option" where
  "read_dims 0 off wire = Some []"
| "read_dims (Suc n) off wire =
     Option.bind (read_uint64 off wire) (\<lambda>d. map_option ((#) (sint d)) (read_dims n (off + 8) wire))"

definition decoded_tensor :: "u32 \<Rightarrow> i64 list \<Rightarrow> bytes \<Rightarrow> tensor" where
  "decoded_tensor et dims data =
     \<lparr>tn_spec = \<lparr>sp_element_type = ucast et, sp_layout = kRowMajor,
        sp_shape = \<lparr>ts_dims = dims, ts_dynamic_min = None, ts_dynamic_max = None, ts_alignment = 0\<rparr>,
        sp_maximum_encoded_bytes = 0\<rparr>, tn_data = data\<rparr>"

definition decode :: "(bytes \<Rightarrow> bytes) \<Rightarrow> bytes \<Rightarrow> tensor result option" where
  "decode sha wire =
     (if length wire < kHeaderSize then Some (Err kDataLoss ''frame too small for header'')
      else Option.bind (read_uint32 0 wire) (\<lambda>magic.
        if magic \<noteq> kHeaderMagic then Some (Err kDataLoss ''invalid magic number'')
        else Option.bind (read_uint64 56 wire) (\<lambda>data_size.
          if (of_nat kHeaderSize + data_size :: u64) > of_nat (length wire)
          then Some (Err kDataLoss ''truncated payload'')
          else
            Option.bind (peek 32 32 wire) (\<lambda>expected.
            Option.bind (peek kHeaderSize (unat data_size) wire) (\<lambda>body.
            if expected \<noteq> sha body then Some (Err kDataLoss ''SHA-256 checksum mismatch'')
            else
              Option.bind (read_uint32 4 wire) (\<lambda>et.
              Option.bind (read_uint64 8 wire) (\<lambda>rank.
              Option.bind (read_dims (unat rank) 16 wire) (\<lambda>dims.
              Some (Ok (decoded_tensor et dims body))))))))))"

section \<open>Lemmas: the digest\<close>

lemma length_sha_fallback_loop [simp]: "length (sha_fallback_loop i h d bs) = length d"
  by (induction i h d bs rule: sha_fallback_loop.induct) (simp_all add: Let_def)

interpretation fallback: digest compute_sha256_fallback
  by unfold_locales (simp add: compute_sha256_fallback_def)

section \<open>Lemmas: frames of reads and writes\<close>

lemma peek_poke_disjoint:
  assumes "poke off bs buf = Some buf'" "o' + n \<le> off \<or> off + length bs \<le> o'"
  shows "peek o' n buf' = peek o' n buf"
proof -
  have "off + length bs \<le> length buf" "buf' = take off buf @ bs @ drop (off + length bs) buf"
    using assms(1) by (simp_all add: poke_Some_iff)
  moreover from this(1) have "off \<le> length buf" by simp
  ultimately show ?thesis
    using assms(2) by (auto simp: peek_def nth_append intro!: nth_equalityI)
qed

lemma peek_length: "peek off n buf = Some xs \<Longrightarrow> length xs = n"
  by (auto simp: peek_def split: if_splits)

lemma peek_poke_same: "poke off bs buf = Some buf' \<Longrightarrow> peek off (length bs) buf' = Some bs"
  by (auto simp: poke_Some_iff peek_def)

lemma length_write_uint64 [wire_facts]: "write_uint64 off v buf = Some buf' \<Longrightarrow> length buf' = length buf"
  by (simp add: write_uint64_le length_poke)

lemma write_dims_Some:
  "write_dims off ds buf = Some buf' \<Longrightarrow>
     length buf' = length buf \<and> (ds \<noteq> [] \<longrightarrow> off + 8 * length ds \<le> length buf) \<and>
     (\<forall>o' n. o' + n \<le> off \<longrightarrow> peek o' n buf' = peek o' n buf)"
proof (induction off ds buf rule: write_dims.induct)
  case (2 off d ds buf)
  then obtain b where b: "write_uint64 off (word_of_int d) buf = Some b" "write_dims (off + 8) ds b = Some buf'"
    by (auto simp: Option.bind_eq_Some_conv)
  have len: "length b = length buf" "off + 8 \<le> length buf"
    using b(1) by (auto simp: write_uint64_le poke_Some_iff)
  have "peek o' n b = peek o' n buf" if "o' + n \<le> off" for o' n
    using b(1) that unfolding write_uint64_le by (auto intro: peek_poke_disjoint)
  with 2(1) [OF b] len show ?case by (cases ds) auto
qed simp

lemma write_dims_exists: "off + 8 * length ds \<le> length buf \<Longrightarrow> \<exists>buf'. write_dims off ds buf = Some buf'"
proof (induction ds arbitrary: off buf)
  case (Cons d ds)
  then obtain b where b: "write_uint64 off (word_of_int d) buf = Some b"
    by (auto simp: write_uint64_le poke_def)
  with Cons.IH [of "off + 8" b] Cons.prems length_write_uint64 [OF b] show ?case by simp
qed simp

lemma read_dims_exists: "off + 8 * n \<le> length wire \<Longrightarrow> \<exists>ds. read_dims n off wire = Some ds"
proof (induction n arbitrary: off)
  case (Suc n)
  then show ?case using Suc.IH [of "off + 8"] by (auto simp: read_uint64_value)
qed simp

lemma read_uint_peek:
  "peek off 4 a = peek off 4 b \<Longrightarrow> read_uint32 off a = read_uint32 off b"
  "peek off 8 a = peek off 8 b \<Longrightarrow> read_uint64 off a = read_uint64 off b"
  by (simp_all add: read_uint32_def read_uint64_def)

section \<open>Lemmas: the encoded frame\<close>

text \<open>What an encoded frame holds: the size field at offset 56 is inside the digest.\<close>

lemma encode_layout:
  assumes enc: "encode sha t = Some (Ok wire)" and sha: "digest sha"
  shows "length wire = 64 + length (tn_data t)"
    and "16 + 8 * length (ts_dims (sp_shape (tn_spec t))) \<le> length wire"
    and "peek 64 (length (tn_data t)) wire = Some (tn_data t)"
    and "peek 32 32 wire = Some (sha (tn_data t))"
    and "read_uint32 0 wire = Some kHeaderMagic"
    and "read_uint32 4 wire = Some (ucast (sp_element_type (tn_spec t)))"
    and "read_uint64 8 wire = Some (of_nat (length (ts_dims (sp_shape (tn_spec t)))))"
    and "read_uint64 56 wire = Some (of_nat (le_value (drop 24 (sha (tn_data t)))))"
    and "tn_data t \<noteq> []"
proof -
  let ?data = "tn_data t" and ?dims = "ts_dims (sp_shape (tn_spec t))"
  note len = digest.digest_length [OF sha]
  obtain w1 w2 w3 w4 w5 w6 where w:
    "write_uint32 0 kHeaderMagic (replicate (64 + length ?data) 0) = Some w1"
    "write_uint32 4 (ucast (sp_element_type (tn_spec t))) w1 = Some w2"
    "write_uint64 8 (of_nat (length ?dims)) w2 = Some w3"
    "write_dims 16 ?dims w3 = Some w4" "write_uint64 56 (of_nat (length ?data)) w4 = Some w5"
    "poke 64 ?data w5 = Some w6" "poke 32 (sha ?data) w6 = Some wire" and ne: "?data \<noteq> []"
    using enc unfolding encode_def kHeaderSize_def
    by (auto simp: Let_def Option.bind_eq_Some_conv split: if_splits)
  show "?data \<noteq> []" by (rule ne)
  have l: "length w1 = 64 + length ?data" "length w2 = length w1" "length w3 = length w2"
    "length w5 = length w4" "length w6 = length w5" "length wire = length w6"
    using w unfolding write_uint32_le write_uint64_le by (auto dest!: length_poke)
  note d = write_dims_Some [OF w(4)]
  show len_wire: "length wire = 64 + length ?data" using l d by simp
  show "16 + 8 * length ?dims \<le> length wire" using d l by (cases ?dims) auto
  have tail: "peek o' n wire = peek o' n w4" if "o' + n \<le> 32" for o' n
    using that peek_poke_disjoint [OF w(7), of o' n] peek_poke_disjoint [OF w(6), of o' n]
      peek_poke_disjoint [OF w(5) [unfolded write_uint64_le], of o' n] by simp
  have head: "peek o' n wire = peek o' n w3" if "o' + n \<le> 16" for o' n
    using that tail d by simp
  show "peek 64 (length ?data) wire = Some ?data"
    using peek_poke_disjoint [OF w(7), of 64 "length ?data"] peek_poke_same [OF w(6)] len by simp
  show dig: "peek 32 32 wire = Some (sha ?data)" using peek_poke_same [OF w(7)] len by simp
  show "read_uint64 8 wire = Some (of_nat (length ?dims))"
    using read_uint_peek(2) [OF head] read_write_uint64 [OF w(3)] by simp
  have "peek 4 4 wire = peek 4 4 w2"
    using head [of 4 4] peek_poke_disjoint [OF w(3) [unfolded write_uint64_le], of 4 4] by simp
  then show "read_uint32 4 wire = Some (ucast (sp_element_type (tn_spec t)))"
    using read_uint_peek(1) read_write_uint32 [OF w(2)] by metis
  have "peek 0 4 wire = peek 0 4 w1"
    using head [of 0 4] peek_poke_disjoint [OF w(3) [unfolded write_uint64_le], of 0 4]
      peek_poke_disjoint [OF w(2) [unfolded write_uint32_le], of 0 4] by simp
  then show "read_uint32 0 wire = Some kHeaderMagic"
    using read_uint_peek(1) read_write_uint32 [OF w(1)] by metis
  have "take 8 (drop 56 wire) = drop 24 (sha ?data)"
  proof -
    have "take 32 (drop 32 wire) = sha ?data" using dig len_wire by (simp add: peek_def)
    then have "drop 24 (take 32 (drop 32 wire)) = drop 24 (sha ?data)" by simp
    then show ?thesis by (simp add: drop_take add.commute)
  qed
  then show "read_uint64 56 wire = Some (of_nat (le_value (drop 24 (sha ?data))))"
    using len_wire by (simp add: read_uint64_value)
qed

section \<open>Lemmas: decoding\<close>

lemma unat_header_plus:
  "64 + unat (n :: u64) < 2 ^ 64 \<Longrightarrow> unat (64 + n) = 64 + unat n"
  by (simp add: unat_word_ariths)

text \<open>A successful decode returns bytes of the frame that match the digest.\<close>

lemma decode_Ok:
  assumes "decode sha wire = Some (Ok t)"
  obtains n where "read_uint64 56 wire = Some n" "peek 64 (unat n) wire = Some (tn_data t)"
    "peek 32 32 wire = Some (sha (tn_data t))"
  using assms unfolding decode_def kHeaderSize_def
  by (auto simp: Option.bind_eq_Some_conv decoded_tensor_def split: if_splits)

lemma decode_own_frame:
  assumes enc: "encode sha t = Some (Ok wire)" and sha: "digest sha"
    and small: "length wire < 2 ^ 64"
    and size: "le_value (drop 24 (sha (tn_data t))) = length (tn_data t)"
  shows "\<exists>t'. decode sha wire = Some (Ok t') \<and> tn_data t' = tn_data t"
proof -
  note l = encode_layout [OF enc sha]
  let ?n = "of_nat (length (tn_data t)) :: u64" and ?r = "of_nat (length (ts_dims (sp_shape (tn_spec t)))) :: u64"
  have n: "unat ?n = length (tn_data t)"
    using small l(1) by (simp add: unat_of_nat)
  have r: "unat ?r = length (ts_dims (sp_shape (tn_spec t)))"
    using small l(2) by (simp add: unat_of_nat)
  have "unat (64 + ?n) = length wire"
    using n small l(1) by (subst unat_header_plus) simp_all
  then have "\<not> (64 + ?n > of_nat (length wire))"
    using small by (simp add: word_less_nat_alt unat_of_nat)
  moreover obtain ds where "read_dims (unat ?r) 16 wire = Some ds"
    using read_dims_exists [of 16 "unat ?r" wire] l(2) r by auto
  ultimately show ?thesis
    using l n size unfolding decode_def kHeaderSize_def by (simp add: decoded_tensor_def)
qed

lemma own_frame_size:
  assumes enc: "encode sha t = Some (Ok wire)" and sha: "digest sha"
    and dec: "decode sha wire = Some (Ok t')" "tn_data t' = tn_data t"
  shows "le_value (drop 24 (sha (tn_data t))) = length (tn_data t)"
proof -
  let ?s = "le_value (drop 24 (sha (tn_data t)))"
  have "?s < 2 ^ 64"
    using le_value_bound [of "drop 24 (sha (tn_data t))"] digest.digest_tail_length [OF sha] by simp
  then have s: "unat (of_nat ?s :: u64) = ?s" by (simp add: unat_of_nat)
  obtain n where "read_uint64 56 wire = Some n" "peek 64 (unat n) wire = Some (tn_data t')"
    by (rule decode_Ok [OF dec(1)])
  with encode_layout(8) [OF enc sha] dec(2) s show ?thesis by (auto dest!: peek_length)
qed

section \<open>Properties\<close>


definition example_tensor :: tensor where
  "example_tensor = \<lparr>tn_spec = \<lparr>sp_element_type = 6, sp_layout = kRowMajor,
     sp_shape = \<lparr>ts_dims = [1, 2], ts_dynamic_min = None, ts_dynamic_max = None, ts_alignment = 0\<rparr>,
     sp_maximum_encoded_bytes = 0\<rparr>, tn_data = [7, 9]\<rparr>"


text \<open>
  Integrity of decoded frames. A frame that decodes holds its digest at offset 32, the returned
  data is the stretch of the frame after the header, of the length stored at offset 56, and its
  digest is the stored one.
\<close>

theorem decode_integrity:
  assumes "decode sha wire = Some (Ok t)"
  shows "sha (tn_data t) = take 32 (drop 32 wire) \<and>
    tn_data t = take (le_value (take 8 (drop 56 wire))) (drop 64 wire) \<and>
    length (tn_data t) = le_value (take 8 (drop 56 wire))"
proof -
  obtain n where n: "read_uint64 56 wire = Some n" "peek 64 (unat n) wire = Some (tn_data t)"
    "peek 32 32 wire = Some (sha (tn_data t))"
    by (rule decode_Ok [OF assms])
  have "le_value (take 8 (drop 56 wire)) < 2 ^ 64"
    using le_value_bound [of "take 8 (drop 56 wire)"] n(1) by (auto simp: read_uint64_value split: if_splits)
  then have "unat n = le_value (take 8 (drop 56 wire))"
    using n(1) by (auto simp: read_uint64_value unat_of_nat split: if_splits)
  with n peek_length [OF n(2)] show ?thesis by (auto simp: peek_def split: if_splits)
qed

text \<open>A frame whose digest field and size field both describe no data at all.\<close>

definition empty_frame :: bytes where
  "empty_frame = [0x54, 0x49, 0x41, 0x45] @ replicate 60 0"

theorem decode_integrity_witness:
  "\<exists>t. decode compute_sha256_fallback empty_frame = Some (Ok t) \<and> tn_data t = []"
proof -
  have "case decode compute_sha256_fallback empty_frame of Some (Inr t) \<Rightarrow> True | _ \<Rightarrow> False"
    by code_simp
  then obtain t where t: "decode compute_sha256_fallback empty_frame = Some (Ok t)"
    by (auto split: option.splits sum.splits)
  have "le_value (take 8 (drop 56 empty_frame)) = 0" by code_simp
  with decode_integrity [OF t] t show ?thesis by simp
qed

text \<open>
  The size check of \<open>decode\<close> overflows. For every frame with a valid magic whose size field
  is at least \<open>2^64 - 64\<close>, the sum \<open>kHeaderSize + data_size\<close> wraps below the frame size, so
  the truncation check passes and the digest is computed over memory outside the frame.
\<close>

theorem decode_size_overflow:
  assumes "64 \<le> length wire" "read_uint32 0 wire = Some kHeaderMagic" "read_uint64 56 wire = Some n"
    and "2 ^ 64 - 64 \<le> unat n" "length wire < 2 ^ 63"
  shows "decode sha wire = None"
proof -
  have n: "unat n < 2 ^ 64" using unsigned_less [where 'a = nat, of n] by simp
  have "unat (64 + n) = (64 + unat n) mod 2 ^ 64" by (simp add: unat_word_ariths)
  also have "\<dots> = 64 + unat n - 2 ^ 64" using assms(4) n by (subst mod_if) simp
  finally have "unat (64 + n) < 64" using n by simp
  then have "\<not> (64 + n > of_nat (length wire))"
    using assms(1,5) by (simp add: word_less_nat_alt unat_of_nat)
  moreover have "peek 64 (unat n) wire = None"
    using assms(4,5) by (simp add: peek_def)
  ultimately show ?thesis
    using assms(1-3) unfolding decode_def kHeaderSize_def by (simp add: peek_def)
qed

theorem decode_size_overflow_witness:
  "decode compute_sha256_fallback ([0x54, 0x49, 0x41, 0x45] @ replicate 52 0 @ replicate 8 255) = None"
proof -
  let ?w = "[0x54, 0x49, 0x41, 0x45] @ replicate 52 0 @ replicate 8 255 :: bytes"
  have "read_uint32 0 ?w = Some kHeaderMagic" "read_uint64 56 ?w = Some 0xFFFFFFFFFFFFFFFF" by code_simp+
  from decode_size_overflow [OF _ this] show ?thesis by simp
qed

end
