(* ===== verification/Transport.thy ===== *)
theory Transport
  imports Wire
begin

text \<open>
  \<^verbatim>\<open>src/transport/grpc_transport.cpp\<close>: the framing with its CRC-32, the receiving side of a TLS
  connection, the dispatch of incoming frames and the transport object with its handlers, streams
  and connections. The network is external: what \<open>SSL_read\<close> delivers is a list of chunks, and
  the results of \<open>SSL_write\<close>, of connecting and of starting the server are arguments. An access
  outside a buffer is undefined behaviour and makes an operation \<open>None\<close>.
\<close>

section \<open>Types (transport.h)\<close>

record transport_config =
  tc_listen_address :: string
  tc_listen_port :: u32
  tc_tls_certificate_pem :: string
  tc_tls_private_key_pem :: string
  tc_tls_trust_bundle_pem :: string
  tc_max_message_bytes :: u64
  tc_default_deadline_ms :: int
  tc_keepalive_interval_ms :: int
  tc_keepalive_timeout_ms :: int
  tc_keepalive_permit_without_calls :: bool
  tc_max_concurrent_streams :: u32
  tc_max_receive_queue_size :: u32

definition default_transport_config :: transport_config where
  "default_transport_config = \<lparr>tc_listen_address = [], tc_listen_port = 0, tc_tls_certificate_pem = [],
     tc_tls_private_key_pem = [], tc_tls_trust_bundle_pem = [], tc_max_message_bytes = 64 * 1024 * 1024,
     tc_default_deadline_ms = 30000, tc_keepalive_interval_ms = 10000, tc_keepalive_timeout_ms = 5000,
     tc_keepalive_permit_without_calls = True, tc_max_concurrent_streams = 100,
     tc_max_receive_queue_size = 256\<rparr>"

record unary_request =
  rq_method :: string
  rq_payload :: bytes
  rq_target_node_id :: string
  rq_deadline :: time_point
  rq_sequence_number :: u64

record unary_response =
  rs_payload :: bytes
  rs_elapsed_us :: int

record stream_frame =
  sf_stream_id :: string
  sf_sequence_number :: u64
  sf_payload :: bytes
  sf_is_last :: bool

section \<open>Framing\<close>

definition kWireMagic :: u32 where
  "kWireMagic = 0x534F4352"

definition kFrameHeaderSize :: nat where
  "kFrameHeaderSize = 28"

definition kMaxFrameSize :: nat where
  "kMaxFrameSize = 64 * 1024 * 1024"

datatype wire_message_type = kUnaryRequest | kUnaryResponse | kStreamFrame | kStreamAck | kHeartbeat

fun wire_type_code :: "wire_message_type \<Rightarrow> u32" where
  "wire_type_code kUnaryRequest = 0"
| "wire_type_code kUnaryResponse = 1"
| "wire_type_code kStreamFrame = 2"
| "wire_type_code kStreamAck = 3"
| "wire_type_code kHeartbeat = 4"

definition crc_bit :: "u32 \<Rightarrow> u32" where
  "crc_bit crc = drop_bit 1 crc XOR (0xEDB88320 AND - (crc AND 1))"

definition crc_byte :: "u8 \<Rightarrow> u32 \<Rightarrow> u32" where
  "crc_byte b crc = (crc_bit ^^ 8) (crc XOR ucast b)"

definition crc32 :: "bytes \<Rightarrow> u32" where
  "crc32 data = NOT (fold crc_byte data 0xFFFFFFFF)"

text \<open>
  \<open>encode_frame\<close> up to the checksum, and with the final store of the checksum behind the
  payload. The buffer has \<open>kFrameHeaderSize + payload_len\<close> bytes.
\<close>

definition encode_frame_body ::
  "wire_message_type \<Rightarrow> u64 \<Rightarrow> u64 \<Rightarrow> bytes \<Rightarrow> bytes option" where
  "encode_frame_body mtype seq deadline_us payload =
     (let total = kFrameHeaderSize + length payload in
      Option.bind (write_uint32 0 kWireMagic (replicate total 0)) (\<lambda>f1.
      Option.bind (write_uint32 4 (of_nat total) f1) (\<lambda>f2.
      Option.bind (write_uint32 8 (wire_type_code mtype) f2) (\<lambda>f3.
      Option.bind (write_uint64 12 seq f3) (\<lambda>f4.
      Option.bind (write_uint64 20 deadline_us f4) (\<lambda>f5.
      if payload \<noteq> [] then poke kFrameHeaderSize payload f5 else Some f5))))))"

definition encode_frame :: "wire_message_type \<Rightarrow> u64 \<Rightarrow> u64 \<Rightarrow> bytes \<Rightarrow> bytes option" where
  "encode_frame mtype seq deadline_us payload =
     Option.bind (encode_frame_body mtype seq deadline_us payload) (\<lambda>frame.
       write_uint32 (kFrameHeaderSize + length payload)
         (crc32 (take (kFrameHeaderSize + length payload) frame)) frame)"

section \<open>Receiving\<close>

text \<open>
  The loop around \<open>SSL_read\<close>: each read takes what the first chunk still has, at most the
  number of missing bytes; no chunk, or an empty one, is a result \<open>n <= 0\<close>. What was consumed
  stays consumed when the loop fails.
\<close>

fun read_exact :: "nat \<Rightarrow> bytes list \<Rightarrow> bytes option \<times> bytes list" where
  "read_exact 0 chunks = (Some [], chunks)"
| "read_exact (Suc n) [] = (None, [])"
| "read_exact (Suc n) (c # cs) =
     (if c = [] then (None, cs)
      else if Suc n < length c then (Some (take (Suc n) c), drop (Suc n) c # cs)
      else (case read_exact (Suc n - length c) cs of (r, rest) \<Rightarrow> (map_option ((@) c) r, rest)))"

text \<open>\<open>recv_frame\<close> on a connected socket: the frame without its trailer, or a failure.\<close>

definition recv_frame :: "bytes list \<Rightarrow> bytes option \<times> bytes list" where
  "recv_frame chunks =
     (case read_exact kFrameHeaderSize chunks of
        (None, rest) \<Rightarrow> (None, rest)
      | (Some hdr, rest) \<Rightarrow>
          if read_uint32 0 hdr \<noteq> Some kWireMagic then (None, rest)
          else
            let frame_len = unat (the (read_uint32 4 hdr)) in
            if frame_len < kFrameHeaderSize \<or> frame_len > kMaxFrameSize then (None, rest)
            else
              (case read_exact (frame_len - kFrameHeaderSize) rest of
                 (None, rest1) \<Rightarrow> (None, rest1)
               | (Some payload, rest1) \<Rightarrow>
                   (case read_exact 4 rest1 of
                      (None, rest2) \<Rightarrow> (None, rest2)
                    | (Some csum, rest2) \<Rightarrow>
                        (if read_uint32 0 csum = Some (crc32 (hdr @ payload))
                         then (Some (hdr @ payload), rest2) else (None, rest2)))))"

section \<open>Dispatch of incoming frames\<close>

text \<open>
  \<open>[4-byte len][name][payload]\<close>, as the sender builds it and as the receiver takes it apart. In
  the receiver the comparison \<open>payload_len < 4 + method_len\<close> adds in 32 bits; the first
  \<open>None\<close> is undefined behaviour, \<open>Some None\<close> a payload the receiver drops.
\<close>

definition string_bytes :: "string \<Rightarrow> bytes" where
  "string_bytes s = map (\<lambda>c. of_nat (of_char c)) s"

definition bytes_string :: "bytes \<Rightarrow> string" where
  "bytes_string bs = map (\<lambda>b. char_of (unat b)) bs"

definition prefix_payload :: "string \<Rightarrow> bytes \<Rightarrow> bytes option" where
  "prefix_payload name payload =
     (let name_len = of_nat (length name) :: u32;
          buf = replicate (unat (4 + name_len) + length payload) 0 in
      Option.bind (write_uint32 0 name_len buf) (\<lambda>b1.
      Option.bind (poke 4 (take (unat name_len) (string_bytes name)) b1) (\<lambda>b2.
      if payload \<noteq> [] then poke (4 + unat name_len) payload b2 else Some b2)))"

definition split_payload :: "bytes \<Rightarrow> (string \<times> bytes) option option" where
  "split_payload payload =
     (if length payload < 4 then Some None
      else Option.bind (read_uint32 0 payload) (\<lambda>name_len.
        if length payload < unat (4 + name_len) then Some None
        else Option.bind (peek 4 (unat name_len) payload) (\<lambda>name.
          Some (Some (bytes_string name, drop (unat (4 + name_len)) payload)))))"

datatype incoming_effect =
    CalledUnary unary_request
  | CalledStream stream_frame
  | SentFrame bytes

text \<open>
  One received frame in the loop of \<open>handle_incoming\<close>. The handler tables map a name to what
  the handler returns for a request (its own effects are outside the transport).
\<close>

definition handle_unary ::
  "time_point \<Rightarrow> transport_config \<Rightarrow> (string \<Rightarrow> (unary_request \<Rightarrow> unary_response result) option) \<Rightarrow>
   u64 \<Rightarrow> bytes \<Rightarrow> incoming_effect list option" where
  "handle_unary now cfg handlers seq payload =
     Option.bind (split_payload payload) (\<lambda>parsed.
       case parsed of
         None \<Rightarrow> Some []
       | Some (method, body) \<Rightarrow>
           (case handlers method of
              None \<Rightarrow> Some []
            | Some handler \<Rightarrow>
                let req = \<lparr>rq_method = method, rq_payload = body, rq_target_node_id = [],
                           rq_deadline = now + tc_default_deadline_ms cfg * 1000000,
                           rq_sequence_number = seq\<rparr> in
                (case handler req of
                   Inl _ \<Rightarrow> Some [CalledUnary req]
                 | Inr resp \<Rightarrow>
                     Option.bind (encode_frame kUnaryResponse seq 0 (rs_payload resp)) (\<lambda>f.
                       Some [CalledUnary req, SentFrame f]))))"

definition handle_stream ::
  "(string \<Rightarrow> bool) \<Rightarrow> u64 \<Rightarrow> bytes \<Rightarrow> incoming_effect list option" where
  "handle_stream handlers seq payload =
     Option.bind (split_payload payload) (\<lambda>parsed.
       case parsed of
         None \<Rightarrow> Some []
       | Some (stream_id, body) \<Rightarrow>
           if handlers stream_id
           then Some [CalledStream \<lparr>sf_stream_id = stream_id, sf_sequence_number = seq,
                        sf_payload = body, sf_is_last = False\<rparr>]
           else Some [])"

definition handle_frame ::
  "time_point \<Rightarrow> transport_config \<Rightarrow> (string \<Rightarrow> (unary_request \<Rightarrow> unary_response result) option) \<Rightarrow>
   (string \<Rightarrow> bool) \<Rightarrow> bytes \<Rightarrow> incoming_effect list option" where
  "handle_frame now cfg unary_handlers stream_handlers frame =
     (if length frame < kFrameHeaderSize then Some []
      else if read_uint32 0 frame \<noteq> Some kWireMagic then Some []
      else
        let frame_len = unat (the (read_uint32 4 frame));
            type_val = the (read_uint32 8 frame);
            seq = the (read_uint64 12 frame);
            payload_len = (if frame_len \<ge> kFrameHeaderSize then frame_len - kFrameHeaderSize else 0)
        in if type_val = wire_type_code kUnaryRequest then
             Option.bind (peek kFrameHeaderSize payload_len frame) (handle_unary now cfg unary_handlers seq)
           else if type_val = wire_type_code kStreamFrame then
             Option.bind (peek kFrameHeaderSize payload_len frame) (handle_stream stream_handlers seq)
           else if type_val = wire_type_code kHeartbeat then
             Option.bind (encode_frame kHeartbeat 0 0 []) (\<lambda>f. Some [SentFrame f])
           else Some [])"

section \<open>The transport object\<close>

record stream_context =
  sx_stream_id :: string
  sx_remote_address :: string
  sx_last_received_seq :: u64

record transport =
  tr_config :: transport_config
  tr_running :: bool
  tr_server :: bool
  tr_unary_handlers :: "string \<Rightarrow> (unary_request \<Rightarrow> unary_response result) option"
  tr_stream_handlers :: "string \<Rightarrow> bool"
  tr_active_streams :: "string \<Rightarrow> stream_context option"
  tr_connections :: "string set"

definition new_transport :: transport where
  "new_transport = \<lparr>tr_config = default_transport_config, tr_running = False, tr_server = False,
     tr_unary_handlers = (\<lambda>_. None), tr_stream_handlers = (\<lambda>_. False),
     tr_active_streams = (\<lambda>_. None), tr_connections = {}\<rparr>"

text \<open>\<open>server_ok\<close> is the result of \<open>TlsServer::start\<close>.\<close>

definition tr_start :: "bool \<Rightarrow> transport_config \<Rightarrow> transport \<Rightarrow> unit result \<times> transport" where
  "tr_start server_ok config t =
     (if tr_running t then (Err kFailedPrecondition ''transport already started'', t)
      else
        let t1 = t\<lparr>tr_config := config, tr_running := True\<rparr> in
        if tc_listen_address config \<noteq> [] \<and> tc_listen_port config > 0 then
          (if server_ok then (Ok (), t1\<lparr>tr_server := True\<rparr>)
           else (Err kInternal (''TLS server failed to start on '' @ tc_listen_address config @ '':'' @
                   to_string (tc_listen_port config)),
                 t1\<lparr>tr_server := True, tr_running := False\<rparr>))
        else (Ok (), t1))"

definition register_unary_handler ::
  "string \<Rightarrow> (unary_request \<Rightarrow> unary_response result) \<Rightarrow> transport \<Rightarrow> unit result \<times> transport" where
  "register_unary_handler method handler t =
     (if tr_running t then (Err kFailedPrecondition ''cannot register handlers while running'', t)
      else (Ok (), t\<lparr>tr_unary_handlers := (tr_unary_handlers t)(method \<mapsto> handler)\<rparr>))"

definition register_stream_handler :: "string \<Rightarrow> transport \<Rightarrow> unit result \<times> transport" where
  "register_stream_handler stream_id t =
     (if tr_running t then (Err kFailedPrecondition ''cannot register handlers while running'', t)
      else (Ok (), t\<lparr>tr_stream_handlers := (tr_stream_handlers t)(stream_id := True)\<rparr>))"

definition stream_key :: "string \<Rightarrow> string \<Rightarrow> string" where
  "stream_key target stream_id = target @ ''/'' @ stream_id"

definition open_stream :: "string \<Rightarrow> string \<Rightarrow> transport \<Rightarrow> unit result \<times> transport" where
  "open_stream target stream_id t =
     (if \<not> tr_running t then (Err kUnavailable ''transport not running'', t)
      else (Ok (), t\<lparr>tr_active_streams := (tr_active_streams t)(stream_key target stream_id \<mapsto>
              \<lparr>sx_stream_id = stream_id, sx_remote_address = target, sx_last_received_seq = 0\<rparr>)\<rparr>))"

text \<open>The frames handed to the stream's handler are the last component.\<close>

definition inject_incoming_frame ::
  "string \<Rightarrow> string \<Rightarrow> stream_frame \<Rightarrow> transport \<Rightarrow> transport \<times> stream_frame list" where
  "inject_incoming_frame target stream_id frame t =
     (case tr_active_streams t (stream_key target stream_id) of
        None \<Rightarrow> (t, [])
      | Some ctx \<Rightarrow>
          if sf_sequence_number frame \<le> sx_last_received_seq ctx then (t, [])
          else (t\<lparr>tr_active_streams := (tr_active_streams t)(stream_key target stream_id \<mapsto>
                    ctx\<lparr>sx_last_received_seq := sf_sequence_number frame\<rparr>)\<rparr>, [frame]))"

text \<open>
  \<open>host:port\<close>; without a colon the port is the configured one. \<open>std::stoi\<close> throws on a
  port that is no number.
\<close>

definition parse_target :: "transport_config \<Rightarrow> string \<Rightarrow> (string \<times> u16) option" where
  "parse_target cfg target =
     (case str_find target '':'' 0 of
        None \<Rightarrow> Some (target, ucast (tc_listen_port cfg))
      | Some colon \<Rightarrow>
          map_option (\<lambda>p. (substr target 0 colon, word_of_int p)) (stoi (drop (colon + 1) target)))"

text \<open>
  A connection to a host is reused while it is open, otherwise opened; \<open>connects\<close> is the
  network's answer. Connections that closed are not in \<open>tr_connections\<close>.
\<close>

definition get_or_create_connection ::
  "(string \<Rightarrow> bool) \<Rightarrow> string \<Rightarrow> u16 \<Rightarrow> transport \<Rightarrow> string option \<times> transport" where
  "get_or_create_connection connects host port t =
     (let key = host @ '':'' @ to_string port in
      if key \<in> tr_connections t then (Some key, t)
      else if connects key then (Some key, t\<lparr>tr_connections := insert key (tr_connections t)\<rparr>)
      else (None, t))"

text \<open>
  \<open>send_unary\<close> in the build with OpenSSL. \<open>sends\<close> tells whether \<open>SSL_write\<close> took the
  whole frame and \<open>incoming\<close> holds the chunks the peer sends back. The outer \<open>None\<close> is
  undefined behaviour; an \<open>Inl kInternal\<close> with message \<open>stoi\<close> stands for the exception of
  a malformed port.
\<close>

definition send_unary ::
  "(string \<Rightarrow> bool) \<Rightarrow> bool \<Rightarrow> bytes list \<Rightarrow> time_point \<Rightarrow> string \<Rightarrow> unary_request \<Rightarrow> transport
     \<Rightarrow> (unary_response result \<times> transport) option" where
  "send_unary connects sends incoming now target request t =
     (if \<not> tr_running t then Some (Err kUnavailable ''transport not running'', t)
      else if now \<ge> rq_deadline request then Some (Err kDeadlineExceeded ''deadline exceeded'', t)
      else case parse_target (tr_config t) target of
        None \<Rightarrow> Some (Err kInternal ''stoi'', t)
      | Some (host, port) \<Rightarrow>
          (case get_or_create_connection connects host port t of
             (None, t1) \<Rightarrow> Some (Err kUnavailable (''cannot connect to '' @ target), t1)
           | (Some key, t1) \<Rightarrow>
               Option.bind (prefix_payload (rq_method request) (rq_payload request)) (\<lambda>payload.
               Option.bind (encode_frame kUnaryRequest (rq_sequence_number request)
                   (word_of_int (rq_deadline request div 1000)) payload) (\<lambda>frame.
               if \<not> sends then Some (Err kUnavailable (''send failed to '' @ target), t1)
               else case fst (recv_frame incoming) of
                 None \<Rightarrow> Some (Err kDeadlineExceeded (''recv timeout from '' @ target), t1)
               | Some resp \<Rightarrow> Some (Ok \<lparr>rs_payload = drop kFrameHeaderSize resp, rs_elapsed_us = 500\<rparr>, t1)))))"

text \<open>\<open>send_unary\<close> in the build without OpenSSL: a call of the local handler.\<close>

definition send_unary_loopback ::
  "time_point \<Rightarrow> string \<Rightarrow> unary_request \<Rightarrow> transport \<Rightarrow> unary_response result" where
  "send_unary_loopback now target request t =
     (if \<not> tr_running t then Err kUnavailable ''transport not running''
      else if now \<ge> rq_deadline request then Err kDeadlineExceeded ''deadline exceeded''
      else case tr_unary_handlers t (rq_method request) of
        Some handler \<Rightarrow> handler request
      | None \<Rightarrow> Ok \<lparr>rs_payload = [], rs_elapsed_us = 200\<rparr>)"

text \<open>\<open>broadcast\<close> keeps the responses of the targets that answered.\<close>

definition broadcast_loopback ::
  "time_point \<Rightarrow> string list \<Rightarrow> unary_request \<Rightarrow> transport \<Rightarrow> unary_response list result" where
  "broadcast_loopback now targets request t =
     Ok (List.map_filter (\<lambda>a. case send_unary_loopback now a request t of Inl _ \<Rightarrow> None | Inr r \<Rightarrow> Some r) targets)"

definition tr_stop :: "transport \<Rightarrow> transport" where
  "tr_stop t = t\<lparr>tr_running := False, tr_server := False, tr_connections := {},
     tr_active_streams := (\<lambda>_. None)\<rparr>"

section \<open>Specification of the frame format\<close>

text \<open>The frame the receiver expects: header, payload, and the checksum of both.\<close>

definition frame_header :: "wire_message_type \<Rightarrow> u64 \<Rightarrow> u64 \<Rightarrow> bytes \<Rightarrow> bytes" where
  "frame_header mtype seq deadline_us payload =
     le_bytes 4 (unat kWireMagic) @ le_bytes 4 (28 + length payload) @
     le_bytes 4 (unat (wire_type_code mtype)) @ le_bytes 8 (unat seq) @ le_bytes 8 (unat deadline_us)"

definition wire_frame :: "wire_message_type \<Rightarrow> u64 \<Rightarrow> u64 \<Rightarrow> bytes \<Rightarrow> bytes" where
  "wire_frame mtype seq deadline_us payload =
     frame_header mtype seq deadline_us payload @ payload @
     le_bytes 4 (unat (crc32 (frame_header mtype seq deadline_us payload @ payload)))"

section \<open>Lemmas: CRC-32\<close>

lemma crc_bit_msb: "bit (crc_bit c) 31 = bit c 0"
proof -
  have "bit (- (c AND 1) :: u32) 31 = bit c 0"
    by (cases "bit c 0") (auto simp: and_one_eq bit_0 odd_iff_mod_2_eq_one)
  moreover have "bit (0xEDB88320 :: u32) 31" by code_simp
  moreover have "\<not> bit (drop_bit 1 c) 31"
    using bit_imp_le_length [of c 32] by (auto simp: bit_drop_bit_eq)
  ultimately show ?thesis by (simp add: crc_bit_def bit_xor_iff bit_and_iff)
qed

lemma xor_cancel_right: "a XOR c = b XOR c \<longleftrightarrow> a = (b :: 'a::len word)"
proof -
  have "(a XOR c) XOR c = a" "(b XOR c) XOR c = b" by (simp_all add: xor.assoc)
  then show ?thesis by metis
qed

lemma inj_crc_bit: "inj crc_bit"
proof (rule injI)
  fix a b :: u32
  assume eq: "crc_bit a = crc_bit b"
  then have low: "bit a 0 = bit b 0" using crc_bit_msb by metis
  then have "a AND 1 = b AND 1" by (simp add: and_one_eq bit_0 mod_2_eq_odd)
  with eq have "drop_bit 1 a = drop_bit 1 b" by (simp add: crc_bit_def xor_cancel_right)
  then have "bit a (Suc n) = bit b (Suc n)" for n by (metis add.commute bit_drop_bit_eq comp_apply plus_1_eq_Suc)
  with low have "bit a n = bit b n" for n by (cases n) auto
  then show "a = b" by (simp add: bit_eq_iff)
qed

lemma inj_crc_byte: "inj (crc_byte b)"
  using inj_fn [OF inj_crc_bit, of 8] unfolding crc_byte_def inj_def by (metis xor_cancel_right)

lemma crc_byte_differs: "crc_byte a c = crc_byte b c \<longleftrightarrow> a = b"
proof -
  have "crc_byte a c = crc_byte b c \<longleftrightarrow> c XOR ucast a = c XOR (ucast b :: u32)"
    using inj_fn [OF inj_crc_bit, of 8] unfolding crc_byte_def by (simp add: inj_eq)
  also have "\<dots> \<longleftrightarrow> (ucast a :: u32) = ucast b"
    using xor_cancel_right by (metis xor.commute)
  also have "\<dots> \<longleftrightarrow> a = b"
    by (simp add: word_unat_eq_iff unsigned_ucast_eq take_bit_nat_eq_self unsigned_less [THEN less_trans])
  finally show ?thesis .
qed

lemma inj_fold_crc: "fold crc_byte ys a = fold crc_byte ys b \<longleftrightarrow> a = b"
  by (induction ys arbitrary: a b) (auto simp: inj_eq [OF inj_crc_byte])

section \<open>Lemmas: framing\<close>

lemma length_frame_header [simp]: "length (frame_header mtype seq d payload) = 28"
  by (simp add: frame_header_def)

lemma encode_frame_body_eq:
  "encode_frame_body mtype seq d payload = Some (frame_header mtype seq d payload @ payload)"
proof -
  let ?m = "length payload"
  have total: "le_bytes 4 (unat (of_nat (28 + ?m) :: u32)) = le_bytes 4 (28 + ?m)"
    using le_bytes_mod [of 4 "28 + ?m"] unfolding unat_of_nat by simp
  have 1: "write_uint32 0 kWireMagic (replicate (28 + ?m) 0) =
      Some (le_bytes 4 (unat kWireMagic) @ replicate (24 + ?m) 0)"
    unfolding write_uint32_le by (rule poke_replicate [of _ "[]", simplified]) simp_all
  have 2: "write_uint32 4 (of_nat (28 + ?m)) (le_bytes 4 (unat kWireMagic) @ replicate (24 + ?m) 0) =
      Some (le_bytes 4 (unat kWireMagic) @ le_bytes 4 (28 + ?m) @ replicate (20 + ?m) 0)"
    unfolding write_uint32_le total by (rule poke_replicate) simp_all
  have 3: "write_uint32 8 (wire_type_code mtype)
        (le_bytes 4 (unat kWireMagic) @ le_bytes 4 (28 + ?m) @ replicate (20 + ?m) 0) =
      Some (le_bytes 4 (unat kWireMagic) @ le_bytes 4 (28 + ?m) @
        le_bytes 4 (unat (wire_type_code mtype)) @ replicate (16 + ?m) 0)"
    using poke_replicate [of 8 "le_bytes 4 (unat kWireMagic) @ le_bytes 4 (28 + ?m)" "20 + ?m"
        "le_bytes 4 (unat (wire_type_code mtype))" "16 + ?m" 0]
    unfolding write_uint32_le by simp
  let ?h = "le_bytes 4 (unat kWireMagic) @ le_bytes 4 (28 + ?m) @ le_bytes 4 (unat (wire_type_code mtype))"
  have 4: "write_uint64 12 seq (?h @ replicate (16 + ?m) 0) =
      Some (?h @ le_bytes 8 (unat seq) @ replicate (8 + ?m) 0)"
    unfolding write_uint64_le by (rule poke_replicate) simp_all
  have 5: "write_uint64 20 d (?h @ le_bytes 8 (unat seq) @ replicate (8 + ?m) 0) =
      Some (frame_header mtype seq d payload @ replicate ?m 0)"
    using poke_replicate [of 20 "?h @ le_bytes 8 (unat seq)" "8 + ?m" "le_bytes 8 (unat d)" ?m 0]
    unfolding write_uint64_le by (simp add: frame_header_def)
  have 6: "poke 28 payload (frame_header mtype seq d payload @ replicate ?m 0) =
      Some (frame_header mtype seq d payload @ payload)"
    using poke_replicate [of 28 "frame_header mtype seq d payload" ?m payload 0 0] by simp
  show ?thesis
    unfolding encode_frame_body_def Let_def kFrameHeaderSize_def 1 bind.bind_lunit 2
    using 3 4 5 6 by simp
qed

section \<open>Lemmas: receiving\<close>

lemma read_exact_spec:
  assumes "[] \<notin> set chunks"
  obtains rest where "read_exact n chunks =
      (if n \<le> length (concat chunks) then Some (take n (concat chunks)) else None, rest)"
    "concat rest = drop n (concat chunks)" "[] \<notin> set rest"
proof -
  have "\<exists>rest. read_exact n chunks =
      (if n \<le> length (concat chunks) then Some (take n (concat chunks)) else None, rest) \<and>
    concat rest = drop n (concat chunks) \<and> [] \<notin> set rest"
    using assms
  proof (induction n chunks rule: read_exact.induct)
    case (3 n c cs)
    show ?case
    proof (cases "Suc n < length c")
      case True
      with 3 show ?thesis by auto
    next
      case False
      with 3 obtain rest where "read_exact (Suc n - length c) cs =
          (if Suc n - length c \<le> length (concat cs) then Some (take (Suc n - length c) (concat cs)) else None, rest)"
        "concat rest = drop (Suc n - length c) (concat cs)" "[] \<notin> set rest"
        by auto
      with False 3(2) show ?thesis by auto
    qed
  qed auto
  then show ?thesis using that by blast
qed

lemma read_frame_header:
  "read_uint32 0 (frame_header mtype seq d payload) = Some kWireMagic"
  "28 + length payload < 2 ^ 32 \<Longrightarrow>
     read_uint32 4 (frame_header mtype seq d payload) = Some (of_nat (28 + length payload))"
proof -
  have "le_value (le_bytes 4 (unat kWireMagic)) = unat kWireMagic"
    by (simp add: le_value_le_bytes kWireMagic_def)
  then show "read_uint32 0 (frame_header mtype seq d payload) = Some kWireMagic"
    by (simp add: read_uint32_value frame_header_def)
  assume "28 + length payload < 2 ^ 32"
  then have "le_value (le_bytes 4 (28 + length payload)) = 28 + length payload"
    by (simp add: le_value_le_bytes)
  then show "read_uint32 4 (frame_header mtype seq d payload) = Some (of_nat (28 + length payload))"
    by (simp add: read_uint32_value frame_header_def)
qed

text \<open>A header and its payload are accepted exactly when their checksum follows.\<close>

lemma recv_frame_sent:
  assumes chunks: "[] \<notin> set chunks"
    "concat chunks = frame_header mtype seq d payload @ payload @ tail"
    and small: "28 + length payload \<le> kMaxFrameSize"
  shows "fst (recv_frame chunks) =
      (if take 4 tail = le_bytes 4 (unat (crc32 (frame_header mtype seq d payload @ payload)))
       then Some (frame_header mtype seq d payload @ payload) else None)"
    and "concat (snd (recv_frame chunks)) = drop 4 tail"
proof -
  let ?h = "frame_header mtype seq d payload"
  have small': "28 + length payload < 2 ^ 32" using small by (simp add: kMaxFrameSize_def)
  obtain r1 where r1: "read_exact 28 chunks = (Some ?h, r1)" "concat r1 = payload @ tail" "[] \<notin> set r1"
    by (rule read_exact_spec [OF chunks(1), of 28]) (simp add: chunks(2))
  obtain r2 where r2: "read_exact (length payload) r1 = (Some payload, r2)" "concat r2 = tail" "[] \<notin> set r2"
    by (rule read_exact_spec [OF r1(3), of "length payload"]) (simp add: r1(2))
  obtain r3 where r3: "read_exact 4 r2 = (if 4 \<le> length tail then Some (take 4 tail) else None, r3)"
    "concat r3 = drop 4 tail"
    by (rule read_exact_spec [OF r2(3), of 4]) (simp add: r2(2))
  have len: "unat (of_nat (28 + length payload) :: u32) = 28 + length payload"
    using small' unfolding unat_of_nat by simp
  have csum: "read_uint32 0 (take 4 tail) = Some v \<longleftrightarrow> take 4 tail = le_bytes 4 (unat v)"
    if "4 \<le> length tail" for v
    using that by (intro read_uint32_eq) simp
  have short: "take 4 tail \<noteq> le_bytes 4 n" if "\<not> 4 \<le> length tail" for n
    using that by (metis length_le_bytes length_take min.absorb_iff2 min.commute)
  have recv: "recv_frame chunks =
      (if take 4 tail = le_bytes 4 (unat (crc32 (?h @ payload))) then Some (?h @ payload) else None, r3)"
    unfolding recv_frame_def kFrameHeaderSize_def r1(1)
    using r2(1) r3(1) small len csum short by (simp add: read_frame_header(2) [OF small'] read_frame_header(1))
  show "fst (recv_frame chunks) =
      (if take 4 tail = le_bytes 4 (unat (crc32 (?h @ payload))) then Some (?h @ payload) else None)"
    "concat (snd (recv_frame chunks)) = drop 4 tail"
    using recv r3(2) by simp_all
qed

section \<open>Lemmas: payload prefixes\<close>

lemma bytes_string_inverse: "bytes_string (string_bytes s) = s"
proof -
  have "char_of (unat (of_nat (of_char c) :: u8)) = c" for c
  proof -
    have "unat (of_nat (of_char c) :: u8) = of_char c"
      using nat_of_char_less_256 [of c] by (simp add: unat_of_nat)
    then show ?thesis by simp
  qed
  then show ?thesis by (simp add: bytes_string_def string_bytes_def comp_def map_idI)
qed

lemma length_string_bytes [simp]: "length (string_bytes s) = length s"
  by (simp add: string_bytes_def)

lemma prefix_payload_eq:
  assumes "4 + length name < 2 ^ 32"
  shows "prefix_payload name payload = Some (le_bytes 4 (length name) @ string_bytes name @ payload)"
proof -
  let ?n = "of_nat (length name) :: u32"
  have n: "unat ?n = length name" "unat (4 + ?n) = 4 + length name"
    using assms by (simp_all add: unat_word_ariths unat_of_nat)
  have 1: "write_uint32 0 ?n (replicate (4 + length name + length payload) 0) =
      Some (le_bytes 4 (length name) @ replicate (length name + length payload) 0)"
    unfolding write_uint32_le n by (rule poke_replicate [of _ "[]", simplified]) simp_all
  have 2: "poke 4 (string_bytes name) (le_bytes 4 (length name) @ replicate (length name + length payload) 0) =
      Some (le_bytes 4 (length name) @ string_bytes name @ replicate (length payload) 0)"
    by (rule poke_replicate) simp_all
  have 3: "poke (4 + length name) payload
        (le_bytes 4 (length name) @ string_bytes name @ replicate (length payload) 0) =
      Some (le_bytes 4 (length name) @ string_bytes name @ payload)"
    using poke_replicate [of "4 + length name" "le_bytes 4 (length name) @ string_bytes name"
        "length payload" payload 0 0] by simp
  show ?thesis unfolding prefix_payload_def Let_def n 1 using 2 3 by simp
qed

lemma split_prefixed:
  assumes "4 + length name < 2 ^ 32"
  shows "split_payload (le_bytes 4 (length name) @ string_bytes name @ payload) = Some (Some (name, payload))"
proof -
  let ?n = "of_nat (length name) :: u32"
  have n: "unat ?n = length name" "unat (4 + ?n) = 4 + length name"
    using assms by (simp_all add: unat_word_ariths unat_of_nat)
  have "read_uint32 0 (le_bytes 4 (length name) @ string_bytes name @ payload) = Some ?n"
    using read_uint32_le_bytes [of ?n] n(1) by (simp add: read_uint32_value)
  then show ?thesis
    by (simp add: split_payload_def n peek_def bytes_string_inverse)
qed

section \<open>Lemmas: streams\<close>

fun inject_all ::
  "string \<Rightarrow> string \<Rightarrow> stream_frame list \<Rightarrow> transport \<Rightarrow> transport \<times> stream_frame list" where
  "inject_all target sid [] t = (t, [])"
| "inject_all target sid (f # fs) t =
     (case inject_incoming_frame target sid f t of
        (t1, d1) \<Rightarrow> (case inject_all target sid fs t1 of (t2, d2) \<Rightarrow> (t2, d1 @ d2)))"

lemma inject_all_sorted:
  assumes "tr_active_streams t (stream_key target sid) = Some ctx"
  shows "sorted_wrt (<) (map sf_sequence_number (snd (inject_all target sid fs t))) \<and>
    (\<forall>f \<in> set (snd (inject_all target sid fs t)). sx_last_received_seq ctx < sf_sequence_number f) \<and>
    set (snd (inject_all target sid fs t)) \<subseteq> set fs"
  using assms
proof (induction fs arbitrary: t ctx)
  case (Cons f fs)
  show ?case
  proof (cases "sf_sequence_number f \<le> sx_last_received_seq ctx")
    case True
    then have "inject_incoming_frame target sid f t = (t, [])"
      using Cons.prems by (simp add: inject_incoming_frame_def)
    with Cons.IH [OF Cons.prems] show ?thesis by (auto split: prod.splits)
  next
    case False
    let ?ctx' = "ctx\<lparr>sx_last_received_seq := sf_sequence_number f\<rparr>"
    let ?t' = "t\<lparr>tr_active_streams := (tr_active_streams t)(stream_key target sid \<mapsto> ?ctx')\<rparr>"
    have inj: "inject_incoming_frame target sid f t = (?t', [f])"
      using Cons.prems False by (simp add: inject_incoming_frame_def)
    have "tr_active_streams ?t' (stream_key target sid) = Some ?ctx'" by simp
    from Cons.IH [OF this] False inj show ?thesis
      by (auto simp: not_le intro: less_trans split: prod.splits)
  qed
qed simp

section \<open>Properties\<close>

text \<open>
  The checksum detects a damaged byte: two frames that differ in exactly one byte have different
  CRC-32 values, whatever precedes and follows it.
\<close>

theorem crc32_detects_one_byte:
  "crc32 (xs @ a # ys) = crc32 (xs @ b # ys) \<longleftrightarrow> a = b"
  by (simp add: crc32_def inj_fold_crc crc_byte_differs)

text \<open>
  Every frame is encoded with a store behind its buffer. Up to the checksum, the encoder builds
  exactly the documented header followed by the payload; the checksum is then stored at the end of
  a buffer that has no room for it, for every type, sequence number, deadline and payload.
\<close>

theorem encode_frame_overruns:
  "encode_frame_body mtype seq deadline_us payload =
     Some (frame_header mtype seq deadline_us payload @ payload) \<and>
   encode_frame mtype seq deadline_us payload = None"
  by (simp add: encode_frame_def encode_frame_body_eq write_uint32_le poke_def kFrameHeaderSize_def)

text \<open>
  C24. The receiver accepts documented frames. A frame with header, payload and checksum trailer is
  received intact, however the network splits it into chunks, and what follows it stays in the
  connection.
\<close>

theorem recv_frame_roundtrip:
  assumes "[] \<notin> set chunks" "concat chunks = wire_frame mtype seq deadline_us payload @ following"
    and "28 + length payload \<le> kMaxFrameSize"
  shows "fst (recv_frame chunks) = Some (frame_header mtype seq deadline_us payload @ payload) \<and>
    concat (snd (recv_frame chunks)) = following"
proof -
  let ?c = "le_bytes 4 (unat (crc32 (frame_header mtype seq deadline_us payload @ payload)))"
  have "concat chunks = frame_header mtype seq deadline_us payload @ payload @ (?c @ following)"
    using assms(2) by (simp add: wire_frame_def)
  from recv_frame_sent [OF assms(1) this assms(3)] show ?thesis by simp
qed

theorem recv_frame_roundtrip_witness:
  "fst (recv_frame [wire_frame kHeartbeat 0 0 []]) = Some (frame_header kHeartbeat 0 0 [])"
  using recv_frame_roundtrip [of "[wire_frame kHeartbeat 0 0 []]" kHeartbeat 0 0 "[]" "[]"]
  by (simp add: wire_frame_def kMaxFrameSize_def frame_header_def)

text \<open>
  What the sender sends is not such a frame. The encoder's buffer has no trailer, so the
  receiver takes the next four bytes of the connection for the checksum: a frame followed by
  another frame is accepted only if its checksum is the magic number, and a frame followed by
  nothing is never accepted.
\<close>

theorem sent_frames_need_magic_checksum:
  assumes "encode_frame_body mtype seq deadline_us payload = Some sent"
    and "28 + length payload \<le> kMaxFrameSize" "[] \<notin> set chunks"
    and "concat chunks = sent \<or>
         (\<exists>next mt2 seq2 d2 p2. concat chunks = sent @ next \<and> encode_frame_body mt2 seq2 d2 p2 = Some next)"
  shows "fst (recv_frame chunks) \<noteq> None \<longrightarrow> crc32 sent = kWireMagic \<and> concat chunks \<noteq> sent"
proof -
  let ?h = "frame_header mtype seq deadline_us payload"
  have sent: "sent = ?h @ payload" using assms(1) by (simp add: encode_frame_body_eq)
  obtain tail where tail: "concat chunks = ?h @ payload @ tail"
    and t: "tail = [] \<or> take 4 tail = le_bytes 4 (unat kWireMagic)"
    using assms(4) by (auto simp: sent encode_frame_body_eq frame_header_def)
  have "take 4 tail = le_bytes 4 (unat (crc32 sent))" if "fst (recv_frame chunks) \<noteq> None"
    using recv_frame_sent(1) [OF assms(3) tail assms(2)] that by (simp add: sent split: if_splits)
  then have "tail \<noteq> [] \<and> le_bytes 4 (unat kWireMagic) = le_bytes 4 (unat (crc32 sent))"
    if "fst (recv_frame chunks) \<noteq> None" using that t by auto
  moreover have "le_bytes 4 (unat kWireMagic) = le_bytes 4 (unat (crc32 sent)) \<Longrightarrow> crc32 sent = kWireMagic"
    by (metis option.inject read_uint32_le_bytes)
  ultimately show ?thesis using tail sent by auto
qed

theorem sent_frames_need_magic_checksum_witness:
  "fst (recv_frame [frame_header kHeartbeat 0 0 []]) = None"
proof -
  have body: "encode_frame_body kHeartbeat 0 0 [] = Some (frame_header kHeartbeat 0 0 [])"
    by (simp add: encode_frame_body_eq)
  have "[] \<notin> set [frame_header kHeartbeat 0 0 []]" by (simp add: frame_header_def)
  with sent_frames_need_magic_checksum [OF body, of "[frame_header kHeartbeat 0 0 []]"] show ?thesis
    by (auto simp: kMaxFrameSize_def)
qed

text \<open>
  Method names and stream ids survive the wire, and the length check overflows. A prefixed
  payload with a name shorter than \<open>2^32 - 4\<close> bytes is taken apart into the same name and
  payload; but a received payload whose length field is within four of \<open>2^32\<close> passes the length
  check, which adds in 32 bits, and the name is then read from outside the frame.
\<close>

theorem payload_prefix_roundtrip_and_overflow:
  "(4 + length name < 2 ^ 32 \<longrightarrow>
      Option.bind (prefix_payload name payload) split_payload = Some (Some (name, payload))) \<and>
   (2 ^ 32 - 4 \<le> unat n \<and> length rest < 2 ^ 31 \<longrightarrow> split_payload (le_bytes 4 (unat (n :: u32)) @ rest) = None)"
proof (intro conjI impI)
  assume "4 + length name < 2 ^ 32"
  then show "Option.bind (prefix_payload name payload) split_payload = Some (Some (name, payload))"
    by (simp add: prefix_payload_eq split_prefixed)
next
  assume n: "2 ^ 32 - 4 \<le> unat n \<and> length rest < 2 ^ 31"
  have "unat n < 2 ^ 32" using unsigned_less [where 'a = nat, of n] by simp
  moreover have "unat (4 + n) = (4 + unat n) mod 2 ^ 32" by (simp add: unat_word_ariths)
  moreover have "(4 + unat n) mod 2 ^ 32 = 4 + unat n - 2 ^ 32"
    using n calculation(1) by (subst mod_if) simp
  ultimately have "unat (4 + n) < 4" using n by linarith
  moreover have "read_uint32 0 (le_bytes 4 (unat n) @ rest) = Some n"
    using read_uint32_le_bytes [of n] by (simp add: read_uint32_value)
  ultimately show "split_payload (le_bytes 4 (unat n) @ rest) = None"
    using n by (simp add: split_payload_def peek_def)
qed

theorem payload_prefix_roundtrip_and_overflow_witness:
  "Option.bind (prefix_payload ''run'' [1, 2]) split_payload = Some (Some (''run'', [1, 2])) \<and>
   split_payload (le_bytes 4 (unat (0xFFFFFFFF :: u32)) @ [0]) = None"
  using payload_prefix_roundtrip_and_overflow [of "''run''" "[1, 2]" "0xFFFFFFFF" "[0]"] by simp



end
