(* ===== verification/Json.thy ===== *)
theory Json
  imports Types
begin

text \<open>
  The JSON helpers of \<^verbatim>\<open>src/persistence/sqlite_assignment_store.cpp\<close>: escaping, the search for a
  key, and the text form of a plan's scalar fields.
\<close>

section \<open>Definitions\<close>

fun json_escape :: "string \<Rightarrow> string" where
  "json_escape [] = []"
| "json_escape (c # cs) =
     (if c = CHR 0x22 then [CHR 0x5C, CHR 0x22] @ json_escape cs
      else if c = CHR 0x5C then [CHR 0x5C, CHR 0x5C] @ json_escape cs
      else if c = CHR 0x0A then [CHR 0x5C, CHR ''n''] @ json_escape cs
      else c # json_escape cs)"

text \<open>The unescape loop over the characters between \<open>pos\<close> and \<open>end\<close>.\<close>

fun json_unescape :: "string \<Rightarrow> string" where
  "json_unescape [] = []"
| "json_unescape [c] = [c]"
| "json_unescape (c # d # cs) = (if c = CHR 0x5C then d # json_unescape cs else c # json_unescape (d # cs))"

abbreviation quote :: char where
  "quote \<equiv> CHR 0x22"

definition json_extract_string :: "string \<Rightarrow> string \<Rightarrow> string option" where
  "json_extract_string json key =
     (let search = [quote] @ key @ [quote, CHR '':'', quote] in
      case str_find json search 0 of
        None \<Rightarrow> None
      | Some p \<Rightarrow>
          (let pos = p + length search in
           case str_find json [quote] pos of
             None \<Rightarrow> None
           | Some e \<Rightarrow> Some (json_unescape (substr json pos (e - pos)))))"

text \<open>\<open>strtoll\<close>: saturates at the limits of 64 bits; \<open>None\<close> when there is no number.\<close>

definition strtoll :: "string \<Rightarrow> i64 option" where
  "strtoll s = map_option (\<lambda>(neg, n).
     max (- (2 ^ 63)) (min (2 ^ 63 - 1) (if neg then - int n else int n))) (parse_number s)"

definition json_extract_int :: "string \<Rightarrow> string \<Rightarrow> i64 option" where
  "json_extract_int json key =
     (let search = [quote] @ key @ [quote, CHR '':''] in
      case str_find json search 0 of
        None \<Rightarrow> None
      | Some p \<Rightarrow>
          (let rest = dropWhile (\<lambda>c. c = CHR '' '' \<or> c = CHR 0x09) (drop (p + length search) json) in
           if rest = [] then None else strtoll rest))"

text \<open>\<open>duration_cast<milliseconds>\<close> of nanoseconds: truncation towards zero.\<close>

definition to_millis :: "time_point \<Rightarrow> int" where
  "to_millis t = (if t \<ge> 0 then t div 1000000 else - ((- t) div 1000000))"

definition plan_to_json :: "pipeline_plan \<Rightarrow> string" where
  "plan_to_json plan =
     [CHR ''{'', quote] @ ''plan_id'' @ [quote, CHR '':'', quote] @ json_escape (pp_plan_id plan) @
     [quote, CHR '','', quote] @ ''model_id'' @ [quote, CHR '':'', quote] @ json_escape (pp_model_id plan) @
     [quote, CHR '','', quote] @ ''manifest_revision'' @ [quote, CHR '':'', quote] @
       json_escape (pp_manifest_revision plan) @
     [quote, CHR '','', quote] @ ''fence_term'' @ [quote, CHR '':''] @ to_string (lf_term (pp_fence plan)) @
     [CHR '','', quote] @ ''fence_token'' @ [quote, CHR '':'', quote] @ json_escape (lf_token (pp_fence plan)) @
     [quote, CHR '','', quote] @ ''fence_membership_revision'' @ [quote, CHR '':''] @
       to_string (lf_membership_revision (pp_fence plan)) @
     [CHR '','', quote] @ ''issued_at_epoch_ms'' @ [quote, CHR '':''] @
       to_string_int (to_millis (pp_issued_at_utc plan)) @
     [CHR '','', quote] @ ''valid_for_ms'' @ [quote, CHR '':''] @ to_string_int (pp_valid_for_ms plan) @ ''}''"

definition plan_from_json :: "string \<Rightarrow> pipeline_plan" where
  "plan_from_json json =
     default_plan\<lparr>
       pp_plan_id := (case json_extract_string json ''plan_id'' of Some v \<Rightarrow> v | None \<Rightarrow> []),
       pp_model_id := (case json_extract_string json ''model_id'' of Some v \<Rightarrow> v | None \<Rightarrow> []),
       pp_manifest_revision := (case json_extract_string json ''manifest_revision'' of Some v \<Rightarrow> v | None \<Rightarrow> []),
       pp_fence := \<lparr>
         lf_term = (case json_extract_int json ''fence_term'' of Some v \<Rightarrow> word_of_int v | None \<Rightarrow> 0),
         lf_token = (case json_extract_string json ''fence_token'' of Some v \<Rightarrow> v | None \<Rightarrow> []),
         lf_membership_revision =
           (case json_extract_int json ''fence_membership_revision'' of Some v \<Rightarrow> word_of_int v | None \<Rightarrow> 0)\<rparr>,
       pp_issued_at_utc := (case json_extract_int json ''issued_at_epoch_ms'' of Some v \<Rightarrow> v * 1000000 | None \<Rightarrow> 0),
       pp_valid_for_ms := (case json_extract_int json ''valid_for_ms'' of Some v \<Rightarrow> v | None \<Rightarrow> 0)\<rparr>"

text \<open>Text without the characters that \<open>json_escape\<close> rewrites.\<close>

definition clean_text :: "string \<Rightarrow> bool" where
  "clean_text s \<longleftrightarrow> quote \<notin> set s \<and> CHR 0x5C \<notin> set s \<and> CHR 0x0A \<notin> set s"

section \<open>Lemmas: searching text made of quoted segments\<close>

text \<open>The text after the first occurrence of a pattern.\<close>

definition after :: "string \<Rightarrow> string \<Rightarrow> string option" where
  "after s pat = map_option (\<lambda>p. drop (p + length pat) s) (str_find s pat 0)"

lemma str_find_shift:
  assumes "q \<notin> set xs"
  shows "str_find (xs @ ys) (q # p) 0 = map_option ((+) (length xs)) (str_find ys (q # p) 0)"
proof -
  have no: "\<not> occurs_at (xs @ ys) (q # p) i" if "i < length xs" for i
  proof
    assume "occurs_at (xs @ ys) (q # p) i"
    then have "hd (drop i (xs @ ys)) = q"
      by (metis list.sel(1) list.size(4) occurs_at_def hd_take zero_less_Suc length_Cons)
    with that have "xs ! i = q" by (simp add: hd_drop_conv_nth nth_append)
    with that assms show False by auto
  qed
  have shift: "occurs_at (xs @ ys) (q # p) (length xs + i) = occurs_at ys (q # p) i" for i
    by (simp add: occurs_at_def)
  show ?thesis
  proof (cases "str_find ys (q # p) 0")
    case None
    then have "\<not> occurs_at (xs @ ys) (q # p) i" for i
      using no [of i] shift [of "i - length xs"] by (cases "i < length xs") (auto simp: str_find_None)
    then have "str_find (xs @ ys) (q # p) 0 = None" by (simp add: str_find_None)
    with None show ?thesis by simp
  next
    case (Some k)
    then have k: "occurs_at ys (q # p) k" "\<And>l. l < k \<Longrightarrow> \<not> occurs_at ys (q # p) l"
      by (auto simp: str_find_Some)
    have "\<not> occurs_at (xs @ ys) (q # p) l" if "l < length xs + k" for l
      using no [of l] k(2) [of "l - length xs"] shift [of "l - length xs"] that
      by (cases "l < length xs") auto
    with k(1) shift [of k] have "str_find (xs @ ys) (q # p) 0 = Some (length xs + k)"
      by (simp add: str_find_Some)
    with Some show ?thesis by simp
  qed
qed

lemma str_find_head:
  "str_find (q # zs) (q # p) 0 =
     (if take (length p) zs = p then Some 0 else map_option Suc (str_find zs (q # p) 0))"
proof (cases "take (length p) zs = p")
  case True
  then have "occurs_at (q # zs) (q # p) 0" by (simp add: occurs_at_def)
  with True show ?thesis by (simp add: str_find_Some)
next
  case False
  then have no: "\<not> occurs_at (q # zs) (q # p) 0" by (simp add: occurs_at_def)
  have shift: "occurs_at (q # zs) (q # p) (Suc i) = occurs_at zs (q # p) i" for i
    by (simp add: occurs_at_def)
  show ?thesis
  proof (cases "str_find zs (q # p) 0")
    case None
    then have "\<not> occurs_at (q # zs) (q # p) i" for i
      using no shift by (cases i) (auto simp: str_find_None)
    then have "str_find (q # zs) (q # p) 0 = None" by (simp add: str_find_None)
    with None False show ?thesis by simp
  next
    case (Some k)
    then have k: "occurs_at zs (q # p) k" "\<And>l. l < k \<Longrightarrow> \<not> occurs_at zs (q # p) l"
      by (auto simp: str_find_Some)
    have "\<not> occurs_at (q # zs) (q # p) l" if "l < Suc k" for l
      using no shift k(2) that by (cases l) auto
    with k(1) shift [of k] have "str_find (q # zs) (q # p) 0 = Some (Suc k)"
      by (simp add: str_find_Some)
    with Some False show ?thesis by simp
  qed
qed

lemma after_quote:
  assumes "q \<notin> set s"
  shows "after (s @ q # rest) (q # p) =
     (if take (length p) rest = p then Some (drop (length p) rest) else after rest (q # p))"
  unfolding after_def str_find_shift [OF assms] str_find_head
  by (auto simp: option.map_comp comp_def algebra_simps intro!: option.map_cong)

lemma after_no_quote: "q \<notin> set s \<Longrightarrow> after s (q # p) = None"
  using str_find_shift [of q s "[]" p] by (simp add: after_def str_find_def occurs_at_def)

lemma prefix_at_quote:
  assumes "q \<notin> set s" "q \<notin> set key"
  shows "take (length (key @ q # r)) (s @ q # rest) = key @ q # r \<longleftrightarrow> s = key \<and> take (length r) rest = r"
  using assms
proof (induction key arbitrary: s)
  case Nil
  then show ?case by (cases s) auto
next
  case (Cons k key)
  then show ?case by (cases s) auto
qed

lemma str_find_char:
  "pos \<le> length s \<Longrightarrow> str_find s [q] pos =
     (if q \<in> set (drop pos s) then Some (pos + length (takeWhile (\<lambda>c. c \<noteq> q) (drop pos s))) else None)"
proof -
  assume pos: "pos \<le> length s"
  have occ: "occurs_at s [q] i \<longleftrightarrow> i < length s \<and> s ! i = q" for i
    by (cases "i < length s") (auto simp: occurs_at_def take_Suc_conv_app_nth hd_drop_conv_nth [symmetric] take_Suc)
  let ?w = "takeWhile (\<lambda>c. c \<noteq> q) (drop pos s)"
  show ?thesis
  proof (cases "q \<in> set (drop pos s)")
    case True
    then have len: "length ?w < length (drop pos s)" and at: "drop pos s ! length ?w = q"
      using nth_length_takeWhile [of "\<lambda>c. c \<noteq> q" "drop pos s"] takeWhile_eq_all_conv length_takeWhile_le
      by (metis (mono_tags, lifting) le_neq_implies_less takeWhile_eq_all_conv takeWhile_eq_take take_all_iff linorder_not_less)+
    have "s ! l \<noteq> q" if "pos \<le> l" "l < pos + length ?w" for l
    proof -
      have "l - pos < length ?w" using that by simp
      then have "?w ! (l - pos) \<noteq> q" "?w ! (l - pos) = s ! l"
        using nth_mem set_takeWhileD takeWhile_nth [of "l - pos" "\<lambda>c. c \<noteq> q" "drop pos s"] len that
        by (fastforce, simp)
      then show ?thesis by simp
    qed
    with len at True pos show ?thesis by (auto simp: str_find_Some occ)
  next
    case False
    then have "s ! l \<noteq> q" if "pos \<le> l" "l < length s" for l
      using that by (metis in_set_conv_nth length_drop less_diff_conv le_add_diff_inverse nth_drop pos add.commute diff_less_mono)
    with False show ?thesis by (auto simp: str_find_None occ)
  qed
qed


text \<open>Texts given by the segments between their quotes.\<close>

fun join :: "string list \<Rightarrow> string" where
  "join [] = []"
| "join [s] = s"
| "join (s # t # ss) = s @ quote # join (t # ss)"

declare join.simps [simp del]

lemma join_Cons: "ss \<noteq> [] \<Longrightarrow> join (s # ss) = s @ quote # join ss"
  by (cases ss) (simp_all add: join.simps)

definition no_quotes :: "string list \<Rightarrow> bool" where
  "no_quotes ss \<longleftrightarrow> (\<forall>s \<in> set ss. quote \<notin> set s)"

lemma no_quotes_simps [simp]:
  "no_quotes []" "no_quotes (s # ss) \<longleftrightarrow> quote \<notin> set s \<and> no_quotes ss"
  by (simp_all add: no_quotes_def)

lemma after_join:
  assumes "quote \<notin> set s" "quote \<notin> set t" "quote \<notin> set key" "ss \<noteq> []"
  shows "after (join (s # t # ss)) (quote # key @ quote # r) =
     (if t = key \<and> take (length r) (join ss) = r then Some (drop (length r) (join ss))
      else after (join (t # ss)) (quote # key @ quote # r))"
proof -
  have j: "join (s # t # ss) = s @ quote # join (t # ss)" "join (t # ss) = t @ quote # join ss"
    using assms(4) by (simp_all add: join_Cons)
  have "drop (length (key @ quote # r)) (t @ quote # join ss) = drop (length r) (join ss)" if "t = key"
    using that by simp
  with after_quote [OF assms(1), of "join (t # ss)" "key @ quote # r"] prefix_at_quote [OF assms(2,3), of r "join ss"]
  show ?thesis unfolding j by auto
qed

lemma after_join_two:
  assumes "quote \<notin> set s" "quote \<notin> set t"
  shows "after (join [s, t]) (quote # key @ quote # r) = None"
proof -
  have "take (length (key @ quote # r)) t \<noteq> key @ quote # r"
    using assms(2) by (metis in_set_conv_decomp in_set_takeD)
  then show ?thesis
    using after_quote [OF assms(1), of t "key @ quote # r"] after_no_quote [OF assms(2)] by (simp add: join.simps)
qed

fun seg_string :: "string \<Rightarrow> string list \<Rightarrow> string option" where
  "seg_string key (s # t # u # v # ss) =
     (if t = key \<and> u = '':'' then (if ss = [] then None else Some v) else seg_string key (t # u # v # ss))"
| "seg_string key ss = None"

lemma json_extract_string_after:
  "json_extract_string json key =
     (case after json (quote # key @ [quote, CHR '':'', quote]) of None \<Rightarrow> None
      | Some rest \<Rightarrow> if quote \<in> set rest then Some (json_unescape (takeWhile (\<lambda>c. c \<noteq> quote) rest)) else None)"
proof (cases "str_find json (quote # key @ [quote, CHR '':'', quote]) 0")
  case (Some p)
  let ?pat = "quote # key @ [quote, CHR '':'', quote]"
  have "p + length ?pat \<le> length json"
    using Some occurs_at_bound [of json ?pat p] by (simp add: str_find_Some)
  then show ?thesis
    using Some takeWhile_eq_take [of "\<lambda>c. c \<noteq> quote" "drop (p + length ?pat) json"]
    by (simp add: json_extract_string_def after_def Let_def str_find_char substr_def)
qed (simp add: json_extract_string_def after_def Let_def)

lemma takeWhile_until: "q \<notin> set v \<Longrightarrow> takeWhile (\<lambda>c. c \<noteq> q) (v @ q # rest) = v"
  by (induction v) auto

lemma takeWhile_join: "quote \<notin> set v \<Longrightarrow> ss \<noteq> [] \<Longrightarrow> takeWhile (\<lambda>c. c \<noteq> quote) (join (v # ss)) = v"
  by (simp add: join_Cons takeWhile_until)

lemma quote_in_join: "no_quotes ss \<Longrightarrow> quote \<in> set (join ss) \<longleftrightarrow> (\<exists>a b rest. ss = a # b # rest)"
  by (induction ss rule: join.induct) (auto simp: join.simps)

lemma colon_segment:
  assumes "quote \<notin> set u" "ss \<noteq> []"
  shows "take (Suc (Suc 0)) (join (u # ss)) = [CHR '':'', quote] \<longleftrightarrow> u = '':''"
  using prefix_at_quote [OF assms(1), of "'':''" "[]" "join ss"] assms
  by (simp add: join_Cons)

lemma extract_string_three:
  assumes "no_quotes [s, t, u]" "quote \<notin> set key"
  shows "json_extract_string (join [s, t, u]) key = None"
proof -
  have "take (Suc (Suc 0)) (join [u]) \<noteq> [CHR '':'', quote]"
    using assms(1) by (auto simp: join.simps dest!: arg_cong [of _ _ set] in_set_takeD)
  with assms after_join [of s t key "[u]" "[CHR '':'', quote]"] after_join_two [of t u key "[CHR '':'', quote]"]
  show ?thesis by (auto simp: json_extract_string_after)
qed

lemma extract_string_join:
  "no_quotes ss \<Longrightarrow> quote \<notin> set key \<Longrightarrow>
     json_extract_string (join ss) key = map_option json_unescape (seg_string key ss)"
proof (induction key ss rule: seg_string.induct)
  case (1 key s t u v ss)
  have rest: "take (Suc (Suc 0)) (join (u # v # ss)) = [CHR '':'', quote] \<longleftrightarrow> u = '':''"
    using 1(2) by (intro colon_segment) simp_all
  have step: "after (join (s # t # u # v # ss)) (quote # key @ [quote, CHR '':'', quote]) =
      (if t = key \<and> u = '':'' then Some (join (v # ss))
       else after (join (t # u # v # ss)) (quote # key @ [quote, CHR '':'', quote]))"
  proof -
    have "drop (Suc (Suc 0)) (join ('':'' # v # ss)) = join (v # ss)" by (simp add: join_Cons)
    with after_join [of s t key "u # v # ss" "[CHR '':'', quote]"] 1(2,3) rest show ?thesis by simp
  qed
  show ?case
  proof (cases "t = key \<and> u = '':''")
    case True
    then show ?thesis
      using 1(2) step quote_in_join [of "v # ss"] takeWhile_join [of v ss]
      by (cases ss) (auto simp: json_extract_string_after)
  next
    case False
    then have "seg_string key (s # t # u # v # ss) = seg_string key (t # u # v # ss)" by auto
    with 1 step False show ?thesis by (auto simp: json_extract_string_after)
  qed
qed (auto simp: json_extract_string_after join.simps after_no_quote after_join_two [unfolded join.simps]
      extract_string_three [unfolded join.simps json_extract_string_after])

fun seg_int :: "string \<Rightarrow> string list \<Rightarrow> string option" where
  "seg_int key (s # t # u # ss) =
     (if t = key \<and> take 1 u = '':'' then Some (drop 1 (join (u # ss))) else seg_int key (t # u # ss))"
| "seg_int key ss = None"

lemma extract_int_join:
  "no_quotes ss \<Longrightarrow> quote \<notin> set key \<Longrightarrow>
     after (join ss) (quote # key @ [quote, CHR '':'']) = seg_int key ss"
proof (induction key ss rule: seg_int.induct)
  case (1 key s t u ss)
  have "take (Suc 0) (join (u # ss)) = '':'' \<longleftrightarrow> take (Suc 0) u = '':''"
    by (cases ss; cases u) (auto simp: join.simps)
  with 1 after_join [of s t key "u # ss" "'':''"] show ?case by auto
qed (auto simp: join.simps after_no_quote after_join_two [unfolded join.simps])

lemma json_extract_int_after:
  "json_extract_int json key =
     (case after json (quote # key @ [quote, CHR '':'']) of None \<Rightarrow> None
      | Some rest \<Rightarrow> (let rest' = dropWhile (\<lambda>c. c = CHR '' '' \<or> c = CHR 0x09) rest in
          if rest' = [] then None else strtoll rest'))"
  by (simp add: json_extract_int_def after_def Let_def split: option.splits)

section \<open>Lemmas: numbers\<close>

lemma dec_head: "\<exists>c cs. dec n = c # cs \<and> is_digit c"
  using dec_nonempty [of n] dec_digits [of _ n] by (cases "dec n") auto

lemma digit_not_space: "is_digit c \<Longrightarrow> \<not> is_space_char c \<and> c \<noteq> CHR ''-'' \<and> c \<noteq> CHR ''+'' \<and> c \<noteq> CHR '' '' \<and> c \<noteq> CHR 0x09"
  by (auto simp: is_digit_def is_space_char_def)

lemma parse_number_dec:
  assumes "\<not> is_digit c"
  shows "parse_number (dec n @ c # rest) = Some (False, n)"
    and "parse_number (CHR ''-'' # dec n @ c # rest) = Some (True, n)"
proof -
  obtain d ds where d: "dec n = d # ds" "is_digit d" using dec_head by blast
  have t: "takeWhile is_digit (dec n @ c # rest) = dec n" using assms by (simp add: takeWhile_digits_dec)
  show "parse_number (dec n @ c # rest) = Some (False, n)"
    using t d digit_not_space [OF d(2)] by (simp add: parse_number_def strip_sign_def)
      (metis digits_val_dec)
  have "\<not> is_space_char CHR ''-''" by (simp add: is_space_char_def)
  then show "parse_number (CHR ''-'' # dec n @ c # rest) = Some (True, n)"
    using t by (simp add: parse_number_def strip_sign_def)
qed

lemma strtoll_to_string:
  assumes "\<not> is_digit c" "unat (w :: u64) < 2 ^ 63"
  shows "strtoll (to_string w @ c # rest) = Some (uint w)"
proof -
  have "int (unat w) < int (2 ^ 63)" using assms(2) by (simp only: of_nat_less_iff)
  then have "uint w < 2 ^ 63" by simp
  then have mn: "min (2 ^ 63 - 1) (int (unat w)) = uint w" by simp
  have "- (2 ^ 63) \<le> uint w" by (rule order_trans [OF _ uint_ge_0]) simp
  then have "max (- (2 ^ 63)) (min (2 ^ 63 - 1) (int (unat w))) = uint w"
    unfolding mn by (rule max_absorb2)
  then show ?thesis unfolding strtoll_def to_string_def parse_number_dec(1) [OF assms(1)] by simp
qed

lemma strtoll_to_string_int:
  assumes "\<not> is_digit c" "- (2 ^ 63) \<le> i" "i < 2 ^ 63"
  shows "strtoll (to_string_int i @ c # rest) = Some i"
  using assms by (auto simp: strtoll_def to_string_int_def parse_number_dec)

lemma to_string_start: "\<exists>c cs. to_string (w :: 'a::len word) @ rest = c # cs \<and> c \<noteq> CHR '' '' \<and> c \<noteq> CHR 0x09"
  using dec_head [of "unat w"] digit_not_space by (auto simp: to_string_def)

lemma to_string_int_start: "\<exists>c cs. to_string_int i @ rest = c # cs \<and> c \<noteq> CHR '' '' \<and> c \<noteq> CHR 0x09"
  using dec_head [of "nat i"] digit_not_space by (auto simp: to_string_int_def)

section \<open>Lemmas: plans\<close>

lemma json_escape_clean: "clean_text s \<Longrightarrow> json_escape s = s"
  by (induction s) (auto simp: clean_text_def)

lemma json_unescape_clean: "CHR 0x5C \<notin> set s \<Longrightarrow> json_unescape s = s"
  by (induction s rule: json_unescape.induct) auto

lemma no_quote_number: "quote \<notin> set (to_string (w :: 'a::len word))" "quote \<notin> set (to_string_int i)"
proof -
  have "\<not> is_digit quote" by (simp add: is_digit_def)
  then have "quote \<notin> set (dec n)" for n using dec_digits by blast
  then show "quote \<notin> set (to_string w)" "quote \<notin> set (to_string_int i)"
    by (simp_all add: to_string_def to_string_int_def)
qed

definition plan_segments :: "pipeline_plan \<Rightarrow> string list" where
  "plan_segments plan =
     [''{'', ''plan_id'', '':'', pp_plan_id plan, '','', ''model_id'', '':'', pp_model_id plan, '','',
      ''manifest_revision'', '':'', pp_manifest_revision plan, '','',
      ''fence_term'', CHR '':'' # to_string (lf_term (pp_fence plan)) @ '','',
      ''fence_token'', '':'', lf_token (pp_fence plan), '','',
      ''fence_membership_revision'', CHR '':'' # to_string (lf_membership_revision (pp_fence plan)) @ '','',
      ''issued_at_epoch_ms'', CHR '':'' # to_string_int (to_millis (pp_issued_at_utc plan)) @ '','',
      ''valid_for_ms'', CHR '':'' # to_string_int (pp_valid_for_ms plan) @ ''}'']"

definition clean_plan :: "pipeline_plan \<Rightarrow> bool" where
  "clean_plan plan \<longleftrightarrow> clean_text (pp_plan_id plan) \<and> clean_text (pp_model_id plan) \<and>
     clean_text (pp_manifest_revision plan) \<and> clean_text (lf_token (pp_fence plan))"

lemma plan_to_json_segments:
  "clean_plan plan \<Longrightarrow> plan_to_json plan = join (plan_segments plan)"
  by (simp add: plan_to_json_def plan_segments_def clean_plan_def json_escape_clean join.simps)

lemma no_quotes_plan_segments: "clean_plan plan \<Longrightarrow> no_quotes (plan_segments plan)"
  by (simp add: plan_segments_def clean_plan_def clean_text_def no_quote_number)


lemma extract_number:
  assumes "strtoll (num @ c # rest) = Some v" "\<exists>d ds. num @ (c # rest) = d # ds \<and> d \<noteq> CHR '' '' \<and> d \<noteq> CHR 0x09"
    and "after json (quote # key @ [quote, CHR '':'']) = Some (num @ c # rest)"
  shows "json_extract_int json key = Some v"
proof -
  obtain d ds where d: "num @ c # rest = d # ds" "d \<noteq> CHR '' ''" "d \<noteq> CHR 0x09" using assms(2) by blast
  with assms(1) have "strtoll (d # ds) = Some v" by simp
  with d assms(3) show ?thesis unfolding json_extract_int_after by simp
qed

lemma not_digit_sep: "\<not> is_digit CHR '',''" "\<not> is_digit CHR ''}''"
  by (simp_all add: is_digit_def)

lemma join_snoc_segment: "\<exists>rest. join ((s @ [c]) # ss) = s @ c # rest"
  by (cases ss) (simp_all add: join.simps)

lemma extract_plan_strings:
  assumes "clean_plan plan"
  shows "json_extract_string (plan_to_json plan) ''plan_id'' = Some (pp_plan_id plan)"
    and "json_extract_string (plan_to_json plan) ''model_id'' = Some (pp_model_id plan)"
    and "json_extract_string (plan_to_json plan) ''manifest_revision'' = Some (pp_manifest_revision plan)"
    and "json_extract_string (plan_to_json plan) ''fence_token'' = Some (lf_token (pp_fence plan))"
proof -
  have ext: "json_extract_string (plan_to_json plan) key = map_option json_unescape (seg_string key (plan_segments plan))"
    if "quote \<notin> set key" for key
    unfolding plan_to_json_segments [OF assms] by (rule extract_string_join [OF no_quotes_plan_segments [OF assms] that])
  have un: "json_unescape (pp_plan_id plan) = pp_plan_id plan" "json_unescape (pp_model_id plan) = pp_model_id plan"
    "json_unescape (pp_manifest_revision plan) = pp_manifest_revision plan"
    "json_unescape (lf_token (pp_fence plan)) = lf_token (pp_fence plan)"
    using assms by (simp_all add: clean_plan_def clean_text_def json_unescape_clean)
  show "json_extract_string (plan_to_json plan) ''plan_id'' = Some (pp_plan_id plan)"
    by (simp add: ext un plan_segments_def)
  show "json_extract_string (plan_to_json plan) ''model_id'' = Some (pp_model_id plan)"
    by (simp add: ext un plan_segments_def)
  show "json_extract_string (plan_to_json plan) ''manifest_revision'' = Some (pp_manifest_revision plan)"
    by (simp add: ext un plan_segments_def)
  show "json_extract_string (plan_to_json plan) ''fence_token'' = Some (lf_token (pp_fence plan))"
    by (simp add: ext un plan_segments_def)
qed

lemma extract_plan_ints:
  assumes "clean_plan plan" "unat (lf_term (pp_fence plan)) < 2 ^ 63"
    "unat (lf_membership_revision (pp_fence plan)) < 2 ^ 63"
    "to_millis (pp_issued_at_utc plan) \<in> {- (2 ^ 63) ..< 2 ^ 63}" "pp_valid_for_ms plan \<in> {- (2 ^ 63) ..< 2 ^ 63}"
  shows "json_extract_int (plan_to_json plan) ''fence_term'' = Some (uint (lf_term (pp_fence plan)))"
    and "json_extract_int (plan_to_json plan) ''fence_membership_revision'' =
      Some (uint (lf_membership_revision (pp_fence plan)))"
    and "json_extract_int (plan_to_json plan) ''issued_at_epoch_ms'' = Some (to_millis (pp_issued_at_utc plan))"
    and "json_extract_int (plan_to_json plan) ''valid_for_ms'' = Some (pp_valid_for_ms plan)"
proof -
  note seg = extract_int_join [OF no_quotes_plan_segments [OF assms(1)]]
  have number: "json_extract_int (plan_to_json plan) key = Some v"
    if "quote \<notin> set key" "seg_int key (plan_segments plan) = Some (drop 1 (join ((CHR '':'' # num @ [c]) # ss)))"
      "\<And>rest. strtoll (num @ c # rest) = Some v"
      "\<And>rest. \<exists>d ds. num @ rest = d # ds \<and> d \<noteq> CHR '' '' \<and> d \<noteq> CHR 0x09"
    for key v num c ss
  proof -
    obtain rest where "join ((CHR '':'' # num @ [c]) # ss) = CHR '':'' # num @ c # rest"
      using join_snoc_segment [of "CHR '':'' # num" c ss] by auto
    with that seg [OF that(1)] show ?thesis
      by (intro extract_number [OF that(3,4)]) (simp add: plan_to_json_segments [OF assms(1)])
  qed
  show "json_extract_int (plan_to_json plan) ''fence_term'' = Some (uint (lf_term (pp_fence plan)))"
    by (rule number [OF _ _ strtoll_to_string [OF not_digit_sep(1) assms(2)] to_string_start])
      (simp_all add: plan_segments_def)
  show "json_extract_int (plan_to_json plan) ''fence_membership_revision'' =
      Some (uint (lf_membership_revision (pp_fence plan)))"
    by (rule number [OF _ _ strtoll_to_string [OF not_digit_sep(1) assms(3)] to_string_start])
      (simp_all add: plan_segments_def)
  show "json_extract_int (plan_to_json plan) ''issued_at_epoch_ms'' = Some (to_millis (pp_issued_at_utc plan))"
    using assms(4) by (intro number [OF _ _ strtoll_to_string_int [OF not_digit_sep(1)] to_string_int_start])
      (simp_all add: plan_segments_def)
  show "json_extract_int (plan_to_json plan) ''valid_for_ms'' = Some (pp_valid_for_ms plan)"
    using assms(5) by (intro number [OF _ _ strtoll_to_string_int [OF not_digit_sep(2)] to_string_int_start])
      (simp_all add: plan_segments_def)
qed

lemma json_escape_append: "json_escape (xs @ ys) = json_escape xs @ json_escape ys"
  by (induction xs) auto

lemma json_unescape_trailing: "CHR 0x5C \<notin> set s \<Longrightarrow> json_unescape (s @ [CHR 0x5C]) = s @ [CHR 0x5C]"
  by (induction s rule: json_unescape.induct) auto

lemma plan_id_cut_at_quote:
  assumes "pp_plan_id plan = x @ quote # y" "clean_text x"
  shows "json_extract_string (plan_to_json plan) ''plan_id'' = Some (x @ [CHR 0x5C])"
proof -
  let ?pat = "quote # ''plan_id'' @ [quote, CHR '':'', quote]"
  obtain tail where json: "plan_to_json plan = ''{'' @ quote # ''plan_id'' @ quote # CHR '':'' # quote # x @ CHR 0x5C # quote # tail"
    unfolding plan_to_json_def using assms by (simp add: json_escape_append json_escape_clean)
  have "after (plan_to_json plan) ?pat = Some ((x @ [CHR 0x5C]) @ quote # tail)"
    unfolding json by (subst after_quote) simp_all
  moreover have "quote \<notin> set (x @ [CHR 0x5C])" using assms(2) by (simp add: clean_text_def)
  ultimately show ?thesis
    using takeWhile_until [of quote "x @ [CHR 0x5C]" tail] assms(2)
    unfolding json_extract_string_after by (simp add: json_unescape_trailing clean_text_def)
qed

lemma plan_json_fields:
  assumes "clean_plan plan" "unat (lf_term (pp_fence plan)) < 2 ^ 63"
    "unat (lf_membership_revision (pp_fence plan)) < 2 ^ 63"
    "to_millis (pp_issued_at_utc plan) \<in> {- (2 ^ 63) ..< 2 ^ 63}" "pp_valid_for_ms plan \<in> {- (2 ^ 63) ..< 2 ^ 63}"
  shows "plan_from_json (plan_to_json plan) =
    plan\<lparr>pp_stages := [], pp_boundaries := [], pp_issued_at_utc := to_millis (pp_issued_at_utc plan) * 1000000\<rparr>"
  by (cases plan; cases "pp_fence plan")
    (use extract_plan_strings [OF assms(1)] extract_plan_ints [OF assms] in
      \<open>simp add: plan_from_json_def default_plan_def\<close>)

section \<open>Properties\<close>

text \<open>
  Plans survive their JSON form when their text is plain. If the plan id, the model id, the
  revision and the fencing token contain no quote, backslash or newline and the numbers fit in 63
  bits, reading back the JSON of a plan gives the same identifiers, fence and validity, and the
  issue time up to the millisecond.
\<close>

theorem plan_json_roundtrip:
  assumes "clean_plan plan" "unat (lf_term (pp_fence plan)) < 2 ^ 63"
    "unat (lf_membership_revision (pp_fence plan)) < 2 ^ 63"
    "to_millis (pp_issued_at_utc plan) \<in> {- (2 ^ 63) ..< 2 ^ 63}" "pp_valid_for_ms plan \<in> {- (2 ^ 63) ..< 2 ^ 63}"
  shows "plan_from_json (plan_to_json plan) =
    plan\<lparr>pp_stages := [], pp_boundaries := [], pp_issued_at_utc := to_millis (pp_issued_at_utc plan) * 1000000\<rparr>"
  using assms by (rule plan_json_fields)

definition example_json_plan :: pipeline_plan where
  "example_json_plan = default_plan\<lparr>pp_plan_id := ''plan-1f'', pp_model_id := ''m'',
     pp_manifest_revision := ''1.0'', pp_fence := \<lparr>lf_term = 7, lf_token = ''fence-2'', lf_membership_revision = 3\<rparr>,
     pp_issued_at_utc := 1500000, pp_valid_for_ms := 300000\<rparr>"

theorem plan_json_roundtrip_witness:
  "plan_from_json (plan_to_json example_json_plan) = example_json_plan\<lparr>pp_issued_at_utc := 1000000\<rparr>"
proof -
  have "clean_plan example_json_plan" by code_simp
  from plan_json_roundtrip [OF this] show ?thesis
    by (simp add: example_json_plan_def default_plan_def to_millis_def)
qed

text \<open>
  A quote in the plan id cuts it. Although \<open>json_escape\<close> escapes quotes, the reader stops at
  the first quote character: for a plan id that is plain text followed by a quote, it yields the
  plain text and a backslash, whatever follows the quote.
\<close>

theorem plan_id_truncated_at_quote:
  assumes "pp_plan_id plan = x @ quote # y" "clean_text x"
  shows "pp_plan_id (plan_from_json (plan_to_json plan)) = x @ [CHR 0x5C]"
  using plan_id_cut_at_quote [OF assms] by (simp add: plan_from_json_def)

theorem plan_id_truncated_at_quote_witness:
  "pp_plan_id (plan_from_json (plan_to_json (default_plan\<lparr>pp_plan_id := ''a'' @ quote # ''b''\<rparr>))) = ''a'' @ [CHR 0x5C]"
  by (rule plan_id_truncated_at_quote) (simp_all add: clean_text_def)

end
