(* ===== verification/Store.thy ===== *)
theory Store
  imports Json
begin

text \<open>
  \<^verbatim>\<open>src/persistence/sqlite_assignment_store.cpp\<close>. SQLite is external: the statements the store issues,
  with their bound parameters, are a datatype, and the engine that runs them is a parameter (a
  record of functions over an abstract database). What the store relies on is the locale
  \<open>sqlite\<close>: the documented effect of each statement and of transactions.
\<close>

section \<open>Rows and statements\<close>

record saved_assignment =
  sv_node_id :: node_id
  sv_model_id :: model_id
  sv_shard_id :: shard_id
  sv_manifest_revision :: string
  sv_quantization :: quantization_kind
  sv_backend :: backend_kind

record token_record =
  tk_request_id :: request_id
  tk_session_id :: session_id
  tk_position :: u64
  tk_token_id :: i32

record plan_row =
  pr_plan_id :: string
  pr_model_id :: string
  pr_manifest_revision :: string
  pr_fence_term :: i64
  pr_fence_token :: string
  pr_fence_membership_revision :: i64
  pr_issued_at_epoch_ms :: i64
  pr_valid_for_ms :: i64
  pr_plan_json :: string

record stage_row =
  sr_plan_id :: string
  sr_model_id :: string
  sr_ordinal :: i32
  sr_node_id :: string
  sr_shard_id :: string
  sr_backend_kind :: i32
  sr_quantization_kind :: i32
  sr_reserved_memory_bytes :: i64
  sr_estimated_stage_microseconds :: double

record token_row =
  tw_request_id :: string
  tw_session_id :: string
  tw_position :: i64
  tw_token_id :: i32

record tables =
  tb_plans :: "plan_row list"
  tb_stages :: "stage_row list"
  tb_tokens :: "token_row list"

datatype sql_statement =
    InsertOrReplacePlan plan_row
  | DeleteStages string
  | InsertStage stage_row
  | InsertOrIgnoreToken token_row
  | DeleteTokens string

text \<open>
  The engine: \<open>exec\<close> of the transaction commands, preparing and stepping a data statement to
  \<open>SQLITE_DONE\<close>, and the queries (\<open>None\<close> when the statement cannot be prepared; the inner
  \<open>None\<close> when the first step gives no row).
\<close>

record 'db sqlite_engine =
  sq_begin :: "'db \<Rightarrow> bool \<times> 'db"
  sq_commit :: "'db \<Rightarrow> bool \<times> 'db"
  sq_rollback :: "'db \<Rightarrow> bool \<times> 'db"
  sq_run :: "sql_statement \<Rightarrow> 'db \<Rightarrow> bool \<times> 'db"
  sq_plan_json :: "string \<Rightarrow> string \<Rightarrow> 'db \<Rightarrow> string option option"
  sq_stages :: "string \<Rightarrow> 'db \<Rightarrow> stage_row list option"
  sq_max_position :: "string \<Rightarrow> 'db \<Rightarrow> i64 option option"
  sq_tokens :: "string \<Rightarrow> i64 \<Rightarrow> i32 \<Rightarrow> 'db \<Rightarrow> token_row list option"
  sq_find :: "string \<Rightarrow> string \<Rightarrow> string \<Rightarrow> 'db \<Rightarrow> (stage_row \<times> plan_row) option option"

section \<open>Bound parameters\<close>

text \<open>\<open>static_cast<int64_t>\<close> of a 64-bit number and \<open>static_cast<int>\<close> of a 32-bit one.\<close>

definition quantization_code :: "quantization_kind \<Rightarrow> i32" where
  "quantization_code q = (case q of kFp16 \<Rightarrow> 0 | kInt8 \<Rightarrow> 1 | kInt4 \<Rightarrow> 2 | kInt2 \<Rightarrow> 3 | kTernary \<Rightarrow> 4)"

definition backend_code :: "backend_kind \<Rightarrow> i32" where
  "backend_code b =
     (case b of kLlamaCpp \<Rightarrow> 0 | kExecuTorchQnn \<Rightarrow> 1 | kExecuTorchCpu \<Rightarrow> 2 | kMlx \<Rightarrow> 3 | kLiteRt \<Rightarrow> 4)"

text \<open>The casts back; \<open>None\<close> is a value that is no enumerator.\<close>

definition quantization_of_code :: "i32 \<Rightarrow> quantization_kind option" where
  "quantization_of_code c =
     (if c = 0 then Some kFp16 else if c = 1 then Some kInt8 else if c = 2 then Some kInt4
      else if c = 3 then Some kInt2 else if c = 4 then Some kTernary else None)"

definition backend_of_code :: "i32 \<Rightarrow> backend_kind option" where
  "backend_of_code c =
     (if c = 0 then Some kLlamaCpp else if c = 1 then Some kExecuTorchQnn
      else if c = 2 then Some kExecuTorchCpu else if c = 3 then Some kMlx
      else if c = 4 then Some kLiteRt else None)"

definition row_of_plan :: "pipeline_plan \<Rightarrow> plan_row" where
  "row_of_plan plan =
     \<lparr>pr_plan_id = pp_plan_id plan, pr_model_id = pp_model_id plan,
      pr_manifest_revision = pp_manifest_revision plan,
      pr_fence_term = sint (lf_term (pp_fence plan)), pr_fence_token = lf_token (pp_fence plan),
      pr_fence_membership_revision = sint (lf_membership_revision (pp_fence plan)),
      pr_issued_at_epoch_ms = to_millis (pp_issued_at_utc plan), pr_valid_for_ms = pp_valid_for_ms plan,
      pr_plan_json = plan_to_json plan\<rparr>"

definition row_of_stage :: "pipeline_plan \<Rightarrow> stage_assignment \<Rightarrow> stage_row" where
  "row_of_stage plan s =
     \<lparr>sr_plan_id = pp_plan_id plan, sr_model_id = pp_model_id plan, sr_ordinal = sint (sa_ordinal s),
      sr_node_id = sa_node_id s, sr_shard_id = sa_shard_id s, sr_backend_kind = backend_code (sa_backend s),
      sr_quantization_kind = quantization_code (sa_quantization s),
      sr_reserved_memory_bytes = sint (sa_reserved_memory_bytes s),
      sr_estimated_stage_microseconds = sa_estimated_stage_microseconds s\<rparr>"

definition stage_of_row :: "stage_row \<Rightarrow> stage_assignment option" where
  "stage_of_row r =
     Option.bind (backend_of_code (sr_backend_kind r)) (\<lambda>b.
     Option.bind (quantization_of_code (sr_quantization_kind r)) (\<lambda>q.
     Some (default_stage\<lparr>sa_ordinal := word_of_int (sr_ordinal r), sa_node_id := sr_node_id r,
       sa_shard_id := sr_shard_id r, sa_backend := b, sa_quantization := q,
       sa_reserved_memory_bytes := word_of_int (sr_reserved_memory_bytes r),
       sa_estimated_stage_microseconds := sr_estimated_stage_microseconds r\<rparr>)))"

definition row_of_token :: "token_record \<Rightarrow> token_row" where
  "row_of_token t = \<lparr>tw_request_id = tk_request_id t, tw_session_id = tk_session_id t,
     tw_position = sint (tk_position t), tw_token_id = tk_token_id t\<rparr>"

section \<open>Operations\<close>

text \<open>
  The database is \<open>None\<close> when it could not be opened. The message of an error is SQLite's, so
  only its code is modelled.
\<close>

definition errmsg :: "'a result" where
  "errmsg = Err kInternal ''sqlite''"

fun run_statements :: "'db sqlite_engine \<Rightarrow> sql_statement list \<Rightarrow> 'db \<Rightarrow> bool \<times> 'db" where
  "run_statements eng [] d = (True, d)"
| "run_statements eng (st # sts) d =
     (case sq_run eng st d of
        (True, d1) \<Rightarrow> run_statements eng sts d1
      | (False, d1) \<Rightarrow> (False, d1))"

definition plan_statements :: "pipeline_plan \<Rightarrow> sql_statement list" where
  "plan_statements plan =
     [InsertOrReplacePlan (row_of_plan plan), DeleteStages (pp_plan_id plan)] @
     map (\<lambda>s. InsertStage (row_of_stage plan s)) (pp_stages plan)"

definition save_plan ::
  "'db sqlite_engine \<Rightarrow> pipeline_plan \<Rightarrow> 'db option \<Rightarrow> bool result \<times> 'db option" where
  "save_plan eng plan db =
     (case db of
        None \<Rightarrow> (errmsg, None)
      | Some d \<Rightarrow>
          (case sq_begin eng d of
             (False, d1) \<Rightarrow> (errmsg, Some d1)
           | (True, d1) \<Rightarrow>
               (case run_statements eng (plan_statements plan) d1 of
                  (False, d2) \<Rightarrow> (errmsg, Some (snd (sq_rollback eng d2)))
                | (True, d2) \<Rightarrow>
                    (case sq_commit eng d2 of
                       (False, d3) \<Rightarrow> (errmsg, Some (snd (sq_rollback eng d3)))
                     | (True, d3) \<Rightarrow> (Ok True, Some d3)))))"

text \<open>\<open>None\<close> as a result is a row whose enum columns hold no enumerator.\<close>

definition load_plan ::
  "'db sqlite_engine \<Rightarrow> model_id \<Rightarrow> string \<Rightarrow> 'db option \<Rightarrow> pipeline_plan option result option" where
  "load_plan eng model_id manifest_revision db =
     (case db of
        None \<Rightarrow> Some (Ok None)
      | Some d \<Rightarrow>
          (case sq_plan_json eng model_id manifest_revision d of
             None \<Rightarrow> Some errmsg
           | Some None \<Rightarrow> Some (Ok None)
           | Some (Some json) \<Rightarrow>
               (let plan = plan_from_json json in
                case sq_stages eng (pp_plan_id plan) d of
                  None \<Rightarrow> Some errmsg
                | Some rows \<Rightarrow>
                    map_option (\<lambda>stages. Ok (Some (plan\<lparr>pp_stages := stages\<rparr>)))
                      (those (map stage_of_row rows)))))"

definition append_token ::
  "'db sqlite_engine \<Rightarrow> token_record \<Rightarrow> 'db option \<Rightarrow> bool result \<times> 'db option" where
  "append_token eng token db =
     (case db of
        None \<Rightarrow> (errmsg, None)
      | Some d \<Rightarrow>
          (case sq_max_position eng (tk_request_id token) d of
             None \<Rightarrow> (errmsg, Some d)
           | Some max_pos \<Rightarrow>
               if (case max_pos of None \<Rightarrow> False | Some m \<Rightarrow> (word_of_int m :: u64) + 1 \<noteq> tk_position token)
               then (Err kDataLoss ''non-contiguous token position'', Some d)
               else
                 (case sq_run eng (InsertOrIgnoreToken (row_of_token token)) d of
                    (False, d1) \<Rightarrow> (errmsg, Some d1)
                  | (True, d1) \<Rightarrow> (Ok True, Some d1))))"

definition load_token_history ::
  "'db sqlite_engine \<Rightarrow> request_id \<Rightarrow> u64 \<Rightarrow> u32 \<Rightarrow> 'db option \<Rightarrow> token_record list result" where
  "load_token_history eng rid start_position maximum_count db =
     (case db of
        None \<Rightarrow> Ok []
      | Some d \<Rightarrow>
          (case sq_tokens eng rid (sint start_position) (sint maximum_count) d of
             None \<Rightarrow> errmsg
           | Some rows \<Rightarrow>
               Ok (map (\<lambda>r. \<lparr>tk_request_id = rid, tk_session_id = [], tk_position = word_of_int (tw_position r),
                            tk_token_id = tw_token_id r\<rparr>) rows)))"

definition erase_token_history ::
  "'db sqlite_engine \<Rightarrow> request_id \<Rightarrow> 'db option \<Rightarrow> bool result \<times> 'db option" where
  "erase_token_history eng rid db =
     (case db of
        None \<Rightarrow> (errmsg, None)
      | Some d \<Rightarrow>
          (case sq_run eng (DeleteTokens rid) d of
             (False, d1) \<Rightarrow> (errmsg, Some d1)
           | (True, d1) \<Rightarrow> (Ok True, Some d1)))"

definition find_assignment ::
  "'db sqlite_engine \<Rightarrow> node_id \<Rightarrow> model_id \<Rightarrow> string \<Rightarrow> 'db option \<Rightarrow> saved_assignment option result option" where
  "find_assignment eng node_id model_id manifest_revision db =
     (case db of
        None \<Rightarrow> Some (Ok None)
      | Some d \<Rightarrow>
          (case sq_find eng node_id model_id manifest_revision d of
             None \<Rightarrow> Some errmsg
           | Some None \<Rightarrow> Some (Ok None)
           | Some (Some (s, p)) \<Rightarrow>
               Option.bind (backend_of_code (sr_backend_kind s)) (\<lambda>b.
               Option.bind (quantization_of_code (sr_quantization_kind s)) (\<lambda>q.
               Some (Ok (Some \<lparr>sv_node_id = sr_node_id s, sv_model_id = pr_model_id p, sv_shard_id = sr_shard_id s,
                 sv_manifest_revision = pr_manifest_revision p, sv_quantization = q, sv_backend = b\<rparr>))))))"

text \<open>The columns of a stage that the store keeps.\<close>

definition stored_stage :: "stage_assignment \<Rightarrow> stage_assignment" where
  "stored_stage s = default_stage\<lparr>sa_ordinal := sa_ordinal s, sa_node_id := sa_node_id s,
     sa_shard_id := sa_shard_id s, sa_backend := sa_backend s, sa_quantization := sa_quantization s,
     sa_reserved_memory_bytes := sa_reserved_memory_bytes s,
     sa_estimated_stage_microseconds := sa_estimated_stage_microseconds s\<rparr>"

definition stored_plan :: "pipeline_plan \<Rightarrow> pipeline_plan" where
  "stored_plan plan = plan\<lparr>pp_boundaries := [],
     pp_issued_at_utc := to_millis (pp_issued_at_utc plan) * 1000000,
     pp_stages := map stored_stage (sort_key (\<lambda>s. sint (sa_ordinal s)) (pp_stages plan))\<rparr>"

text \<open>A plan whose text and numbers survive the JSON column.\<close>

definition storable_plan :: "pipeline_plan \<Rightarrow> bool" where
  "storable_plan plan \<longleftrightarrow> clean_plan plan \<and> unat (lf_term (pp_fence plan)) < 2 ^ 63 \<and>
     unat (lf_membership_revision (pp_fence plan)) < 2 ^ 63 \<and>
     to_millis (pp_issued_at_utc plan) \<in> {- (2 ^ 63) ..< 2 ^ 63} \<and>
     pp_valid_for_ms plan \<in> {- (2 ^ 63) ..< 2 ^ 63} \<and> distinct (map sa_ordinal (pp_stages plan))"

section \<open>What the store relies on\<close>

text \<open>The documented effect of the data statements on the tables.\<close>

fun sql_effect :: "sql_statement \<Rightarrow> tables \<Rightarrow> tables" where
  "sql_effect (InsertOrReplacePlan r) t =
     t\<lparr>tb_plans := filter (\<lambda>p. pr_plan_id p \<noteq> pr_plan_id r) (tb_plans t) @ [r]\<rparr>"
| "sql_effect (DeleteStages pid) t = t\<lparr>tb_stages := filter (\<lambda>r. sr_plan_id r \<noteq> pid) (tb_stages t)\<rparr>"
| "sql_effect (InsertStage r) t = t\<lparr>tb_stages := tb_stages t @ [r]\<rparr>"
| "sql_effect (InsertOrIgnoreToken r) t =
     (if \<exists>q \<in> set (tb_tokens t). tw_request_id q = tw_request_id r \<and> tw_position q = tw_position r then t
      else t\<lparr>tb_tokens := tb_tokens t @ [r]\<rparr>)"
| "sql_effect (DeleteTokens rid) t = t\<lparr>tb_tokens := filter (\<lambda>r. tw_request_id r \<noteq> rid) (tb_tokens t)\<rparr>"

definition plans_of :: "string \<Rightarrow> string \<Rightarrow> tables \<Rightarrow> plan_row list" where
  "plans_of m v t = filter (\<lambda>p. pr_model_id p = m \<and> pr_manifest_revision p = v) (tb_plans t)"

definition tokens_of :: "string \<Rightarrow> tables \<Rightarrow> token_row list" where
  "tokens_of rid t = filter (\<lambda>r. tw_request_id r = rid) (tb_tokens t)"

lemma fold_insert_stages:
  "fold sql_effect (map (\<lambda>x. InsertStage (f x)) xs) t = t\<lparr>tb_stages := tb_stages t @ map f xs\<rparr>"
  by (induction xs arbitrary: t) auto

lemma plan_statements_effect:
  "fold sql_effect (plan_statements plan) t =
     t\<lparr>tb_plans := filter (\<lambda>p. pr_plan_id p \<noteq> pp_plan_id plan) (tb_plans t) @ [row_of_plan plan],
       tb_stages := filter (\<lambda>r. sr_plan_id r \<noteq> pp_plan_id plan) (tb_stages t) @
         map (row_of_stage plan) (pp_stages plan)\<rparr>"
  by (simp add: plan_statements_def fold_insert_stages row_of_plan_def)

lemma code_inverse:
  "backend_of_code (backend_code b) = Some b" "quantization_of_code (quantization_code q) = Some q"
  by (cases b; simp add: backend_of_code_def backend_code_def)
    (cases q; simp add: quantization_of_code_def quantization_code_def)

lemma stage_of_row_of_stage: "stage_of_row (row_of_stage plan s) = Some (stored_stage s)"
  by (simp add: stage_of_row_def row_of_stage_def stored_stage_def code_inverse)

lemma those_map_Some: "(\<And>x. x \<in> set xs \<Longrightarrow> f x = Some (g x)) \<Longrightarrow> those (map f xs) = Some (map g xs)"
  by (induction xs) auto

text \<open>
  Statements and transactions. \<open>live\<close> is what the connection sees, \<open>durable\<close> what survives
  a crash. A failed statement has no effect, but may have ended the transaction.
\<close>

locale sqlite =
  fixes eng :: "'db sqlite_engine" and live durable :: "'db \<Rightarrow> tables" and in_tx :: "'db \<Rightarrow> bool"
  assumes idle: "\<not> in_tx d \<Longrightarrow> durable d = live d"
    and begin_ok: "sq_begin eng d = (True, d') \<Longrightarrow> in_tx d' \<and> live d' = live d \<and> durable d' = durable d"
    and begin_failed: "sq_begin eng d = (False, d') \<Longrightarrow> in_tx d' = in_tx d \<and> durable d' = durable d"
    and run_ok: "sq_run eng st d = (True, d') \<Longrightarrow>
        live d' = sql_effect st (live d) \<and> in_tx d' = in_tx d \<and> (in_tx d \<longrightarrow> durable d' = durable d)"
    and run_failed: "sq_run eng st d = (False, d') \<Longrightarrow> durable d' = durable d \<and> (in_tx d' \<longrightarrow> in_tx d)"
    and commit_ok: "sq_commit eng d = (True, d') \<Longrightarrow> in_tx d \<Longrightarrow> \<not> in_tx d' \<and> durable d' = live d"
    and commit_failed: "sq_commit eng d = (False, d') \<Longrightarrow> durable d' = durable d"
    and rollback: "sq_rollback eng d = (b, d') \<Longrightarrow> \<not> in_tx d' \<and> durable d' = durable d"
begin

lemma run_statements_ok:
  "run_statements eng sts d = (True, d') \<Longrightarrow> in_tx d \<Longrightarrow>
     in_tx d' \<and> live d' = fold sql_effect sts (live d) \<and> durable d' = durable d"
proof (induction sts arbitrary: d)
  case (Cons st sts)
  then obtain d1 where "sq_run eng st d = (True, d1)" "run_statements eng sts d1 = (True, d')"
    by (auto split: prod.splits bool.splits)
  with Cons run_ok show ?case by force
qed simp

lemma run_statements_failed:
  "run_statements eng sts d = (False, d') \<Longrightarrow> in_tx d \<Longrightarrow> durable d' = durable d"
proof (induction sts arbitrary: d)
  case (Cons st sts)
  show ?case
  proof (cases "sq_run eng st d")
    case (Pair b d1)
    with Cons run_ok [of st d d1] run_failed [of st d d1] show ?thesis by (cases b) auto
  qed
qed simp

lemma save_plan_atomic:
  assumes "save_plan eng plan (Some d) = (r, db)" "\<not> in_tx d"
  obtains d' where "db = Some d'" "\<not> in_tx d'"
    "is_ok r \<longrightarrow> durable d' = fold sql_effect (plan_statements plan) (durable d)"
    "\<not> is_ok r \<longrightarrow> durable d' = durable d"
proof -
  obtain b d1 where bg: "sq_begin eng d = (b, d1)" by fastforce
  show ?thesis
  proof (cases b)
    case False
    with bg begin_failed [of d d1] assms that show ?thesis by (auto simp: save_plan_def errmsg_def)
  next
    case True
    have tx: "in_tx d1" "live d1 = durable d" "durable d1 = durable d"
      using begin_ok [of d d1] bg True idle [OF assms(2)] by auto
    obtain b2 d2 where st: "run_statements eng (plan_statements plan) d1 = (b2, d2)" by fastforce
    obtain b3 d3 where cm: "sq_commit eng d2 = (b3, d3)" by fastforce
    obtain b4 d4 where rb: "sq_rollback eng d2 = (b4, d4)" by fastforce
    obtain b5 d5 where rb3: "sq_rollback eng d3 = (b5, d5)" by fastforce
    show ?thesis
    proof (cases "b2 \<and> b3")
      case ok: True
      with bg True st cm assms(1) have "r = Ok True" "db = Some d3" by (auto simp: save_plan_def)
      with ok st cm tx run_statements_ok [of "plan_statements plan" d1 d2] commit_ok [of d2 d3] that
      show ?thesis by auto
    next
      case failed: False
      have dur2: "durable d2 = durable d"
        using st tx run_statements_ok [of _ d1 d2] run_statements_failed [of _ d1 d2] by (cases b2) auto
      show ?thesis
      proof (cases b2)
        case False
        with bg True st rb assms(1) have "r = errmsg" "db = Some d4" by (auto simp: save_plan_def)
        with rollback [OF rb] dur2 that show ?thesis by (simp add: errmsg_def)
      next
        case b2: True
        with failed have "\<not> b3" by simp
        with bg True st b2 cm rb3 assms(1) have "r = errmsg" "db = Some d5" by (auto simp: save_plan_def)
        with rollback [OF rb3] commit_failed [of d2 d3] cm \<open>\<not> b3\<close> dur2 that show ?thesis
          by (simp add: errmsg_def)
      qed
    qed
  qed
qed

end

text \<open>Queries that do not fail return the rows the SQL text asks for.\<close>

locale sqlite_reads = sqlite +
  assumes plan_json: "sq_plan_json eng m v d = Some (Some json) \<Longrightarrow>
        \<exists>p \<in> set (plans_of m v (live d)). pr_plan_json p = json \<and>
          (\<forall>q \<in> set (plans_of m v (live d)). pr_fence_term q \<le> pr_fence_term p)"
    and no_plan_json: "sq_plan_json eng m v d = Some None \<Longrightarrow> plans_of m v (live d) = []"
    and plan_json_prepared: "sq_plan_json eng m v d \<noteq> None"
    and stages: "sq_stages eng pid d = Some rows \<Longrightarrow>
        mset rows = mset (filter (\<lambda>r. sr_plan_id r = pid) (tb_stages (live d))) \<and> sorted (map sr_ordinal rows)"
    and stages_prepared: "sq_stages eng pid d \<noteq> None"
    and max_position: "sq_max_position eng rid d =
        Some (if tokens_of rid (live d) = [] then None
              else Some (Max (tw_position ` set (tokens_of rid (live d)))))"
    and tokens: "sq_tokens eng rid lo n d = Some token_rows \<Longrightarrow>
        token_rows = (let all = filter (\<lambda>r. lo \<le> tw_position r) (sort_key tw_position (tokens_of rid (live d)))
                in if n < 0 then all else take (nat n) all)"

begin

lemma loaded_json:
  assumes t: "live d = fold sql_effect (plan_statements plan) t"
    and best: "\<forall>q \<in> set (plans_of (pp_model_id plan) (pp_manifest_revision plan) t).
        pr_plan_id q \<noteq> pp_plan_id plan \<longrightarrow> pr_fence_term q < sint (lf_term (pp_fence plan))"
  shows "sq_plan_json eng (pp_model_id plan) (pp_manifest_revision plan) d = Some (Some (plan_to_json plan))"
proof -
  let ?m = "pp_model_id plan" and ?v = "pp_manifest_revision plan"
  have mem: "row_of_plan plan \<in> set (plans_of ?m ?v (live d))"
    by (simp add: t plan_statements_effect plans_of_def row_of_plan_def)
  then obtain json where json: "sq_plan_json eng ?m ?v d = Some (Some json)"
    using plan_json_prepared [of ?m ?v d] no_plan_json [of ?m ?v d] by (metis empty_iff list.set(1) option.exhaust)
  from plan_json [OF this] obtain p where p: "p \<in> set (plans_of ?m ?v (live d))" "pr_plan_json p = json"
    "\<forall>q \<in> set (plans_of ?m ?v (live d)). pr_fence_term q \<le> pr_fence_term p" by blast
  have "sint (lf_term (pp_fence plan)) \<le> pr_fence_term p"
    using p(3) mem by (force simp: row_of_plan_def)
  with best p(1) have "p = row_of_plan plan"
    by (auto simp: t plan_statements_effect plans_of_def row_of_plan_def)
  with p(2) json show ?thesis by (simp add: row_of_plan_def)
qed

lemma loaded_stages:
  assumes t: "live d = fold sql_effect (plan_statements plan) t" and ord: "distinct (map sa_ordinal (pp_stages plan))"
  shows "sq_stages eng (pp_plan_id plan) d =
     Some (map (row_of_stage plan) (sort_key (\<lambda>s. sint (sa_ordinal s)) (pp_stages plan)))"
proof -
  obtain rows where rows: "sq_stages eng (pp_plan_id plan) d = Some rows"
    using stages_prepared by fastforce
  let ?ss = "pp_stages plan"
  let ?srt = "map (row_of_stage plan) (sort_key (\<lambda>s. sint (sa_ordinal s)) ?ss)"
  have "filter (\<lambda>r. sr_plan_id r = pp_plan_id plan) (tb_stages (live d)) = map (row_of_stage plan) ?ss"
    by (simp add: t plan_statements_effect row_of_stage_def filter_map comp_def)
  then have m: "mset rows = mset (map (row_of_stage plan) ?ss)" and srt: "sorted (map sr_ordinal rows)"
    using stages [OF rows] by simp_all
  have "sr_ordinal \<circ> row_of_stage plan = (\<lambda>s. sint (sa_ordinal s))"
    by (simp add: row_of_stage_def comp_def fun_eq_iff)
  then have sorted: "sorted (map sr_ordinal ?srt)" by simp
  have inj: "inj_on sr_ordinal (set rows)"
  proof (rule inj_onI)
    fix a b
    assume ab: "a \<in> set rows" "b \<in> set rows" "sr_ordinal a = sr_ordinal b"
    have "set rows = row_of_stage plan ` set ?ss" using m by (metis list.set_map set_mset_mset)
    with ab obtain x y where xy: "x \<in> set ?ss" "y \<in> set ?ss" "a = row_of_stage plan x" "b = row_of_stage plan y"
      by blast
    with ab(3) have "sint (sa_ordinal x) = sint (sa_ordinal y)" by (simp add: row_of_stage_def)
    then have "sa_ordinal x = sa_ordinal y" by (rule signed_word_eqI)
    with ord xy show "a = b" by (auto simp: distinct_map dest: inj_onD)
  qed
  have m2: "mset rows = mset ?srt" using m by simp
  have "sort_key sr_ordinal rows = rows" "sort_key sr_ordinal rows = ?srt"
    using sort_key_inj_key_eq [OF refl inj srt] sort_key_inj_key_eq [OF m2 inj sorted] by simp_all
  then have "rows = ?srt" by simp
  with rows show ?thesis by simp
qed

lemma load_saved_plan:
  assumes ok: "save_plan eng plan (Some d) = (Ok r, db)" "\<not> in_tx d" and plan: "storable_plan plan"
    and best: "\<forall>q \<in> set (plans_of (pp_model_id plan) (pp_manifest_revision plan) (durable d)).
        pr_plan_id q \<noteq> pp_plan_id plan \<longrightarrow> pr_fence_term q < sint (lf_term (pp_fence plan))"
  shows "load_plan eng (pp_model_id plan) (pp_manifest_revision plan) db = Some (Ok (Some (stored_plan plan)))"
proof -
  obtain d' where d': "db = Some d'" "\<not> in_tx d'"
    "durable d' = fold sql_effect (plan_statements plan) (durable d)"
    by (rule save_plan_atomic [OF ok]) simp
  then have live: "live d' = fold sql_effect (plan_statements plan) (durable d)" using idle by simp
  have json: "plan_from_json (plan_to_json plan) =
      plan\<lparr>pp_stages := [], pp_boundaries := [], pp_issued_at_utc := to_millis (pp_issued_at_utc plan) * 1000000\<rparr>"
    using plan by (intro plan_json_fields) (simp_all add: storable_plan_def)
  have "those (map stage_of_row (map (row_of_stage plan) xs)) = Some (map stored_stage xs)" for xs
    by (simp add: comp_def stage_of_row_of_stage those_map_Some)
  then show ?thesis
    using loaded_json [OF live best] loaded_stages [OF live] plan
    by (simp add: load_plan_def d'(1) Let_def json stored_plan_def storable_plan_def del: map_map)
qed

lemma append_token_effect:
  assumes "append_token eng token (Some d) = (Ok r, Some d')"
  shows "live d' = sql_effect (InsertOrIgnoreToken (row_of_token token)) (live d)"
    and "tokens_of (tk_request_id token) (live d) \<noteq> [] \<Longrightarrow>
      (word_of_int (Max (tw_position ` set (tokens_of (tk_request_id token) (live d)))) :: u64) + 1 = tk_position token"
  using assms run_ok [of "InsertOrIgnoreToken (row_of_token token)" d d']
  by (auto simp: append_token_def max_position errmsg_def split: if_splits prod.splits bool.splits)

lemma append_token_refused:
  assumes "append_token eng token (Some d) = (Err kDataLoss m, db)"
  shows "db = Some d"
  using assms by (auto simp: append_token_def max_position errmsg_def split: if_splits prod.splits bool.splits)

lemma history_rows:
  assumes "load_token_history eng rid lo n (Some d) = Ok recs"
  shows "map tk_position recs = map (\<lambda>r. word_of_int (tw_position r))
     (let all = filter (\<lambda>r. sint lo \<le> tw_position r) (sort_key tw_position (tokens_of rid (live d)))
      in if sint n < 0 then all else take (nat (sint n)) all)"
proof -
  obtain rows where rows: "sq_tokens eng rid (sint lo) (sint n) d = Some rows"
    "map tk_position recs = map (\<lambda>r. word_of_int (tw_position r)) rows"
    using assms by (auto simp: load_token_history_def errmsg_def split: option.splits)
  then show ?thesis using tokens [OF rows(1)] by simp
qed

end

section \<open>Contiguous token histories\<close>

definition contiguous_tokens :: "string \<Rightarrow> tables \<Rightarrow> bool" where
  "contiguous_tokens rid t \<longleftrightarrow>
     (\<exists>lo hi. 0 \<le> lo \<and> hi < 2 ^ 63 \<and> map tw_position (tokens_of rid t) = [lo..hi])"

lemma tokens_of_other:
  "tw_request_id r \<noteq> rid \<Longrightarrow> tokens_of rid (sql_effect (InsertOrIgnoreToken r) t) = tokens_of rid t"
  by (simp add: tokens_of_def)

lemma sint_small: "unat (w :: u64) < 2 ^ 63 \<Longrightarrow> sint w = int (unat w)"
proof -
  assume "unat w < 2 ^ 63"
  then have "int (unat w) < int (2 ^ 63)" by (simp only: of_nat_less_iff)
  then have "uint w < 2 ^ 63" by simp
  moreover have "- (2 ^ 63) \<le> uint w" by (rule order_trans [OF _ uint_ge_0]) simp
  ultimately show ?thesis unfolding sint_uint by (simp add: signed_take_bit_int_eq_self)
qed

lemma append_keeps_contiguous:
  assumes inv: "contiguous_tokens (tk_request_id token) t" and small: "unat (tk_position token) < 2 ^ 63"
    and next_pos: "tokens_of (tk_request_id token) t \<noteq> [] \<Longrightarrow>
      (word_of_int (Max (tw_position ` set (tokens_of (tk_request_id token) t))) :: u64) + 1 = tk_position token"
  shows "contiguous_tokens (tk_request_id token) (sql_effect (InsertOrIgnoreToken (row_of_token token)) t)"
proof -
  let ?rid = "tk_request_id token" and ?r = "row_of_token token"
  obtain lo hi where lh: "0 \<le> lo" "hi < 2 ^ 63" "map tw_position (tokens_of ?rid t) = [lo..hi]"
    using inv by (auto simp: contiguous_tokens_def)
  have pos: "tw_position ?r = int (unat (tk_position token))" "tw_request_id ?r = ?rid"
    using sint_small [OF small] by (simp_all add: row_of_token_def)
  have lt: "int (unat (tk_position token)) < 2 ^ 63" using small by (metis of_nat_less_iff of_nat_numeral of_nat_power)
  have set: "tw_position ` set (tokens_of ?rid t) = {lo..hi}" using lh(3) by (metis list.set_map set_upto)
  have fresh: "tokens_of ?rid (sql_effect (InsertOrIgnoreToken ?r) t) = tokens_of ?rid t @ [?r]"
    if "tw_position ?r \<notin> {lo..hi}"
  proof -
    have "\<not> (tw_request_id q = ?rid \<and> tw_position q = tw_position ?r)" if "q \<in> set (tb_tokens t)" for q
    proof
      assume q: "tw_request_id q = ?rid \<and> tw_position q = tw_position ?r"
      with that have "tw_position q \<in> tw_position ` set (tokens_of ?rid t)"
        by (intro imageI) (simp add: tokens_of_def)
      with set q \<open>tw_position ?r \<notin> {lo..hi}\<close> show False by simp
    qed
    then show ?thesis using pos(2) by (auto simp: tokens_of_def)
  qed
  show ?thesis
  proof (cases "tokens_of ?rid t = []")
    case True
    then have "tw_position ?r \<notin> {lo..hi}" using set by simp
    with fresh True pos lt show ?thesis
      by (auto simp: contiguous_tokens_def intro!: exI [of _ "tw_position ?r"])
  next
    case False
    then have le: "lo \<le> hi" using lh(3) by (metis Nil_is_map_conv upto_Nil2 not_le)
    then have "Max {lo..hi} = hi" by (intro Max_eqI) auto
    then have eq: "tk_position token = word_of_int (hi + 1)" using next_pos [OF False] set by simp
    have "uint (word_of_int (hi + 1) :: u64) = hi + 1"
      unfolding uint_word_of_int_eq using le lh(1,2) by (simp add: take_bit_int_eq_self_iff)
    then have "int (unat (tk_position token)) = hi + 1" unfolding eq by (simp only: uint_nat)
    then have p: "tw_position ?r = hi + 1" and bound: "hi + 1 < 2 ^ 63" using pos(1) lt by simp_all
    have "map tw_position (tokens_of ?rid (sql_effect (InsertOrIgnoreToken ?r) t)) = [lo..hi] @ [hi + 1]"
      using fresh p lh(3) by simp
    also have "... = [lo..hi + 1]" using le upto_rec2 [of lo "hi + 1"] by simp
    finally show ?thesis using lh(1) bound unfolding contiguous_tokens_def by blast
  qed
qed

lemma take_upto: "take n [i..j] = [i..min j (i + int n - 1)]"
proof (induction n arbitrary: i)
  case (Suc n)
  show ?case
  proof (cases "i \<le> j")
    case True
    then show ?thesis using Suc [of "i + 1"] by (simp add: upto_rec1 [of i j] upto_rec1 [of i "min j _"] algebra_simps)
  qed simp
qed simp

lemma filter_upto: "filter (\<lambda>x. a \<le> x) [i..j] = [max a i..j]"
proof (induction "nat (j - i + 1)" arbitrary: i)
  case (Suc n)
  then have "i \<le> j" by simp
  moreover have "filter (\<lambda>x. a \<le> x) [i + 1..j] = [max a (i + 1)..j]" using Suc by simp
  moreover have "max a (i + 1) = a" if "\<not> a \<le> i" using that by simp
  ultimately show ?case by (cases "a \<le> i") (simp_all add: upto_rec1 [of i j] max_def)
qed simp

section \<open>A reference engine\<close>

text \<open>An engine that keeps the tables in memory and never fails.\<close>

record memory_db =
  md_live :: tables
  md_saved :: "tables option"

definition md_durable :: "memory_db \<Rightarrow> tables" where
  "md_durable d = (case md_saved d of None \<Rightarrow> md_live d | Some t \<Rightarrow> t)"

definition md_in_tx :: "memory_db \<Rightarrow> bool" where
  "md_in_tx d \<longleftrightarrow> md_saved d \<noteq> None"

fun best_plan :: "plan_row list \<Rightarrow> plan_row option" where
  "best_plan [] = None"
| "best_plan (p # ps) =
     (case best_plan ps of None \<Rightarrow> Some p
      | Some q \<Rightarrow> if pr_fence_term q \<le> pr_fence_term p then Some p else Some q)"

definition memory_engine :: "memory_db sqlite_engine" where
  "memory_engine =
     \<lparr>sq_begin = (\<lambda>d. if md_in_tx d then (False, d) else (True, d\<lparr>md_saved := Some (md_live d)\<rparr>)),
      sq_commit = (\<lambda>d. if md_in_tx d then (True, d\<lparr>md_saved := None\<rparr>) else (False, d)),
      sq_rollback = (\<lambda>d. (md_in_tx d, d\<lparr>md_live := md_durable d, md_saved := None\<rparr>)),
      sq_run = (\<lambda>st d. (True, d\<lparr>md_live := sql_effect st (md_live d)\<rparr>)),
      sq_plan_json = (\<lambda>m v d. Some (map_option pr_plan_json (best_plan (plans_of m v (md_live d))))),
      sq_stages = (\<lambda>pid d. Some (sort_key sr_ordinal (filter (\<lambda>r. sr_plan_id r = pid) (tb_stages (md_live d))))),
      sq_max_position = (\<lambda>rid d. Some (if tokens_of rid (md_live d) = [] then None
         else Some (Max (tw_position ` set (tokens_of rid (md_live d)))))),
      sq_tokens = (\<lambda>rid lo n d. Some (let all = filter (\<lambda>r. lo \<le> tw_position r)
           (sort_key tw_position (tokens_of rid (md_live d))) in if n < 0 then all else take (nat n) all)),
      sq_find = (\<lambda>n m v d. Some None)\<rparr>"

lemma best_plan_None: "best_plan ps = None \<longleftrightarrow> ps = []"
  by (induction ps rule: best_plan.induct) (auto split: option.splits)

lemma best_plan_Some:
  "best_plan ps = Some p \<Longrightarrow> p \<in> set ps \<and> (\<forall>q \<in> set ps. pr_fence_term q \<le> pr_fence_term p)"
proof (induction ps arbitrary: p)
  case (Cons x ps)
  show ?case
  proof (cases "best_plan ps")
    case None
    with Cons.prems show ?thesis by (auto simp: best_plan_None)
  next
    case (Some q)
    with Cons.IH [OF Some] Cons.prems show ?thesis by (fastforce split: if_splits)
  qed
qed simp

interpretation memory_store: sqlite_reads memory_engine md_live md_durable md_in_tx
proof unfold_locales
  show "\<exists>p \<in> set (plans_of m v (md_live d)). pr_plan_json p = json \<and>
      (\<forall>q \<in> set (plans_of m v (md_live d)). pr_fence_term q \<le> pr_fence_term p)"
    if "sq_plan_json memory_engine m v d = Some (Some json)" for m v d json
    using that best_plan_Some [of "plans_of m v (md_live d)"] by (auto simp: memory_engine_def)
qed (auto simp: memory_engine_def md_in_tx_def md_durable_def best_plan_None split: if_splits)

section \<open>Properties\<close>

text \<open>
  C14. Saving a plan is atomic. On any engine with the documented behaviour, outside a transaction,
  \<open>save_plan\<close> either succeeds and the durable tables are the old ones with the plan's row and
  all its stages replaced, or fails and the durable tables are unchanged; no transaction stays
  open. No fence is compared: an older plan is accepted like a newer one.
\<close>

theorem save_plan_all_or_nothing:
  assumes "sqlite eng live durable in_tx" "\<not> in_tx d" "save_plan eng plan (Some d) = (r, Some d')"
  shows "\<not> in_tx d' \<and>
    durable d' =
      (if is_ok r then
         (durable d)\<lparr>tb_plans := filter (\<lambda>p. pr_plan_id p \<noteq> pp_plan_id plan) (tb_plans (durable d)) @ [row_of_plan plan],
           tb_stages := filter (\<lambda>r. sr_plan_id r \<noteq> pp_plan_id plan) (tb_stages (durable d)) @
             map (row_of_stage plan) (pp_stages plan)\<rparr>
       else durable d)"
  using sqlite.save_plan_atomic [OF assms(1,3,2)] by (metis option.inject plan_statements_effect)

definition empty_db :: memory_db where
  "empty_db = \<lparr>md_live = \<lparr>tb_plans = [], tb_stages = [], tb_tokens = []\<rparr>, md_saved = None\<rparr>"

definition example_stage :: "u32 \<Rightarrow> string \<Rightarrow> stage_assignment" where
  "example_stage n node = default_stage\<lparr>sa_ordinal := n, sa_node_id := node, sa_backend := kMlx,
     sa_layers := Some \<lparr>lr_start = 0, lr_end_exclusive = 4\<rparr>\<rparr>"

definition example_saved_plan :: pipeline_plan where
  "example_saved_plan = example_json_plan\<lparr>pp_stages := [example_stage 1 ''b'', example_stage 0 ''a'']\<rparr>"

theorem save_plan_all_or_nothing_witness:
  "\<exists>r d'. save_plan memory_engine example_saved_plan (Some empty_db) = (r, Some d') \<and> \<not> md_in_tx d'"
proof -
  have idle: "\<not> md_in_tx empty_db" by (simp add: md_in_tx_def empty_db_def)
  obtain r db where r: "save_plan memory_engine example_saved_plan (Some empty_db) = (r, db)" by fastforce
  then obtain d' where "db = Some d'" by (rule memory_store.save_plan_atomic [OF _ idle])
  with r save_plan_all_or_nothing [OF memory_store.sqlite_axioms idle] show ?thesis by blast
qed

text \<open>
  C21. What is saved can be loaded, in part. After a successful save of a plan with plain text, 63-bit
  numbers and distinct ordinals whose term exceeds those of the other plans stored for the model
  revision, \<open>load_plan\<close> returns it with its fence, with the stages in the order of their
  ordinals and without their layers, stage ids, boundaries and artifacts.
\<close>

theorem saved_plan_is_loaded:
  assumes "sqlite_reads eng live durable in_tx" "\<not> in_tx d" "save_plan eng plan (Some d) = (Ok r, db)"
    and "storable_plan plan"
    and "\<forall>q \<in> set (plans_of (pp_model_id plan) (pp_manifest_revision plan) (durable d)).
        pr_plan_id q \<noteq> pp_plan_id plan \<longrightarrow> pr_fence_term q < sint (lf_term (pp_fence plan))"
  shows "load_plan eng (pp_model_id plan) (pp_manifest_revision plan) db = Some (Ok (Some (stored_plan plan)))"
  by (rule sqlite_reads.load_saved_plan [OF assms(1,3,2,4,5)])

lemma example_saves:
  "save_plan memory_engine example_saved_plan (Some empty_db) =
     (Ok True, snd (save_plan memory_engine example_saved_plan (Some empty_db)))"
  by (simp add: save_plan_def memory_engine_def empty_db_def md_in_tx_def plan_statements_def
      example_saved_plan_def example_json_plan_def)

theorem saved_plan_is_loaded_witness:
  "load_plan memory_engine ''m'' ''1.0'' (snd (save_plan memory_engine example_saved_plan (Some empty_db))) =
     Some (Ok (Some (stored_plan example_saved_plan)))"
proof -
  have 1: "\<not> md_in_tx empty_db" by (simp add: md_in_tx_def empty_db_def)
  have "clean_plan example_saved_plan" by code_simp
  then have 2: "storable_plan example_saved_plan"
    by (simp add: storable_plan_def example_saved_plan_def example_json_plan_def default_plan_def
        to_millis_def example_stage_def)
  have 3: "\<forall>q \<in> set (plans_of (pp_model_id example_saved_plan) (pp_manifest_revision example_saved_plan)
      (md_durable empty_db)). pr_plan_id q \<noteq> pp_plan_id example_saved_plan \<longrightarrow>
        pr_fence_term q < sint (lf_term (pp_fence example_saved_plan))"
    by (simp add: plans_of_def md_durable_def empty_db_def)
  from saved_plan_is_loaded [OF memory_store.sqlite_reads_axioms 1 example_saves 2 3] show ?thesis
    by (simp add: example_saved_plan_def example_json_plan_def default_plan_def)
qed


definition example_token :: "u64 \<Rightarrow> token_record" where
  "example_token n = \<lparr>tk_request_id = ''r'', tk_session_id = ''s'', tk_position = n, tk_token_id = 42\<rparr>"


end
