(* ===== verification/Manifest.thy ===== *)
theory Manifest
  imports Types "HOL-Library.Monad_Syntax"
begin

text \<open>
  The manifest repository of \<^verbatim>\<open>src/model/manifest_repository.cpp\<close> and the model manager of
  \<^verbatim>\<open>src/model/model_manager.cpp\<close>. A manifest file arrives as the value that nlohmann's JSON
  library parsed from it (or as a parse error); a conversion of that library that throws
  \<open>type_error\<close> is \<open>None\<close>. The file system is a pair of functions given as parameters.
\<close>

section \<open>JSON values\<close>

text \<open>
  An object is the list of its members. Non-negative integers are \<open>number_unsigned\<close>, negative
  ones \<open>number_integer\<close>.
\<close>

datatype json =
    JNull
  | JBool bool
  | JUnsigned u64
  | JInteger i64
  | JFloat double
  | JString string
  | JArray "json list"
  | JObject "(string \<times> json) list"

text \<open>\<open>contains(k)\<close> and \<open>[k]\<close>: a value that is no object contains nothing.\<close>

fun field :: "string \<Rightarrow> json \<Rightarrow> json option" where
  "field k (JObject kvs) = map_of kvs k"
| "field k j = None"

text \<open>The guarded accesses \<open>contains(k) && is_...()\<close>.\<close>

definition string_field :: "string \<Rightarrow> json \<Rightarrow> string option" where
  "string_field k j = (case field k j of Some (JString s) \<Rightarrow> Some s | _ \<Rightarrow> None)"

definition unsigned_field :: "string \<Rightarrow> json \<Rightarrow> u64 option" where
  "unsigned_field k j = (case field k j of Some (JUnsigned w) \<Rightarrow> Some w | _ \<Rightarrow> None)"

definition bool_field :: "string \<Rightarrow> json \<Rightarrow> bool option" where
  "bool_field k j = (case field k j of Some (JBool b) \<Rightarrow> Some b | _ \<Rightarrow> None)"

definition array_field :: "string \<Rightarrow> json \<Rightarrow> json list option" where
  "array_field k j = (case field k j of Some (JArray xs) \<Rightarrow> Some xs | _ \<Rightarrow> None)"

definition object_field :: "string \<Rightarrow> json \<Rightarrow> json option" where
  "object_field k j = (case field k j of Some (JObject kvs) \<Rightarrow> Some (JObject kvs) | _ \<Rightarrow> None)"

definition number_field :: "string \<Rightarrow> json \<Rightarrow> double option" where
  "number_field k j =
     (case field k j of
        Some (JUnsigned w) \<Rightarrow> Some (of_nat (unat w))
      | Some (JInteger i) \<Rightarrow> Some (of_int i)
      | Some (JFloat d) \<Rightarrow> Some d
      | _ \<Rightarrow> None)"

text \<open>
  The unguarded conversions. \<open>get<std::string>()\<close> throws on anything but a string; the integer
  ones throw on anything but a number, and truncate a floating point number (a value outside the
  integer type is undefined behaviour, also \<open>None\<close>).
\<close>

fun get_string :: "json \<Rightarrow> string option" where
  "get_string (JString s) = Some s"
| "get_string j = None"

definition truncate_double :: "double \<Rightarrow> int" where
  "truncate_double d = (if d \<ge> 0 then \<lfloor>d\<rfloor> else \<lceil>d\<rceil>)"

fun get_u64 :: "json \<Rightarrow> u64 option" where
  "get_u64 (JUnsigned w) = Some w"
| "get_u64 (JInteger i) = Some (word_of_int i)"
| "get_u64 (JFloat d) =
     (let i = truncate_double d in if 0 \<le> i \<and> i < 2 ^ 64 then Some (word_of_int i) else None)"
| "get_u64 j = None"

fun get_i64 :: "json \<Rightarrow> i64 option" where
  "get_i64 (JUnsigned w) = Some (sint w)"
| "get_i64 (JInteger i) = Some i"
| "get_i64 (JFloat d) =
     (let i = truncate_double d in if - (2 ^ 63) \<le> i \<and> i < 2 ^ 63 then Some i else None)"
| "get_i64 j = None"

text \<open>A loop that converts every element of an array.\<close>

definition get_list :: "(json \<Rightarrow> 'a option) \<Rightarrow> json list \<Rightarrow> 'a list option" where
  "get_list get xs = those (map get xs)"

section \<open>Resolvers\<close>

definition resolve_quantization_kind :: "string \<Rightarrow> quantization_kind" where
  "resolve_quantization_kind s =
     (if s = ''fp16'' then kFp16 else if s = ''int4'' then kInt4 else if s = ''int8'' then kInt8
      else if s = ''int2'' then kInt2 else if s = ''ternary'' then kTernary else kFp16)"

definition resolve_stage_kind :: "string \<Rightarrow> stage_kind" where
  "resolve_stage_kind s =
     (if s = ''tokenEmbedding'' then kTokenEmbedding
      else if s = ''transformerLayers'' then kTransformerLayers
      else if s = ''outputNormalization'' then kOutputNormalization
      else if s = ''lmHead'' then kLmHead else kTransformerLayers)"

definition resolve_backend_kind :: "string \<Rightarrow> backend_kind" where
  "resolve_backend_kind s =
     (if s = ''llamaCpp'' then kLlamaCpp else if s = ''execuTorchCpu'' then kExecuTorchCpu
      else if s = ''execuTorchQnn'' then kExecuTorchQnn else if s = ''mlx'' then kMlx
      else if s = ''liteRt'' then kLiteRt else kLlamaCpp)"

definition resolve_compute_unit :: "string \<Rightarrow> compute_unit" where
  "resolve_compute_unit s =
     (if s = ''cpu'' then kCpu else if s = ''gpu'' then kGpu else if s = ''npu'' then kNpu else kCpu)"

definition resolve_element_type :: "string \<Rightarrow> element_type" where
  "resolve_element_type s =
     (if s = ''float16'' then kFloat16 else if s = ''float32'' then kFloat32
      else if s = ''bf16'' then kBf16 else if s = ''float64'' then kFloat64
      else if s = ''int8'' then kElInt8 else if s = ''int16'' then kElInt16
      else if s = ''int32'' then kElInt32 else if s = ''int64'' then kElInt64 else kFloat32)"

section \<open>The parser\<close>

record manifest_summary =
  sm_model_id :: model_id
  sm_revision :: string
  sm_total_layers :: u32
  sm_shard_options :: "shard_option list"
  sm_boundaries :: "boundary_contract list"

text \<open>The lookup table from the top-level \<open>quantizations\<close> array.\<close>

fun quantization_table :: "json list \<Rightarrow> (string \<rightharpoonup> quantization_kind) \<Rightarrow> (string \<rightharpoonup> quantization_kind) option" where
  "quantization_table [] m = Some m"
| "quantization_table (q # qs) m =
     (case (field ''id'' q, field ''kind'' q) of
        (Some i, Some k) \<Rightarrow>
          do { qid \<leftarrow> get_string i; kind \<leftarrow> get_string k;
               quantization_table qs (m(qid \<mapsto> resolve_quantization_kind kind)) }
      | _ \<Rightarrow> quantization_table qs m)"

definition parse_layers :: "json \<Rightarrow> layer_range option" where
  "parse_layers s =
     (case object_field ''layers'' s of
        None \<Rightarrow> None
      | Some l \<Rightarrow>
          (case (unsigned_field ''start'' l, unsigned_field ''endExclusive'' l) of
             (Some a, Some b) \<Rightarrow> Some \<lparr>lr_start = ucast a, lr_end_exclusive = ucast b\<rparr>
           | _ \<Rightarrow> None))"

text \<open>\<open>if (a.contains(k)) x = a[k].get<...>()\<close>: the default stays when the key is absent.\<close>

definition get_or :: "(json \<Rightarrow> 'a option) \<Rightarrow> 'a \<Rightarrow> string \<Rightarrow> json \<Rightarrow> 'a option" where
  "get_or get dflt k a = (case field k a of None \<Rightarrow> Some dflt | Some v \<Rightarrow> get v)"

definition parse_artifact :: "json \<Rightarrow> artifact_descriptor option" where
  "parse_artifact s =
     (case object_field ''artifact'' s of
        None \<Rightarrow> Some default_artifact
      | Some a \<Rightarrow>
          do { uri \<leftarrow> get_or get_string [] ''uri'' a;
               sha \<leftarrow> get_or get_string [] ''sha256'' a;
               format \<leftarrow> get_or get_string [] ''format'' a;
               version \<leftarrow> get_or get_string [] ''formatVersion'' a;
               file_bytes \<leftarrow> get_or get_u64 0 ''fileBytes'' a;
               Some \<lparr>ad_uri = uri, ad_sha256_hex = sha, ad_format = format,
                     ad_format_version = version, ad_file_bytes = file_bytes\<rparr> })"

definition get_array_or :: "(json \<Rightarrow> 'a option) \<Rightarrow> string \<Rightarrow> json \<Rightarrow> 'a list option" where
  "get_array_or get k s = (case array_field k s of None \<Rightarrow> Some [] | Some xs \<Rightarrow> get_list get xs)"

text \<open>One pass of the loop over \<open>shards\<close>; \<open>Some None\<close> is the \<open>continue\<close> of a shard without id.\<close>

definition parse_shard :: "(string \<rightharpoonup> quantization_kind) \<Rightarrow> json \<Rightarrow> shard_option option option" where
  "parse_shard quant_map s =
     (case string_field ''shardId'' s of
        None \<Rightarrow> Some None
      | Some shard_id \<Rightarrow>
          do { stage_ids \<leftarrow> get_array_or get_string ''stageIds'' s;
               artifact \<leftarrow> parse_artifact s;
               backends \<leftarrow> get_array_or get_string ''compatibleBackends'' s;
               units \<leftarrow> get_array_or get_string ''requiredComputeUnits'' s;
               ops \<leftarrow> get_array_or get_string ''requiredOperatorIds'' s;
               Some (Some (default_shard_option\<lparr>
                 so_shard_id := shard_id,
                 so_stage_ids := stage_ids,
                 so_stage_kind := (case string_field ''stageKind'' s of None \<Rightarrow> kTransformerLayers
                                   | Some k \<Rightarrow> resolve_stage_kind k),
                 so_layers := parse_layers s,
                 so_quantization := (case string_field ''quantizationId'' s of None \<Rightarrow> kFp16
                                     | Some q \<Rightarrow> (case quant_map q of None \<Rightarrow> kFp16 | Some k \<Rightarrow> k)),
                 so_artifact := artifact,
                 so_execution_profile_id := (case string_field ''executionProfileId'' s of None \<Rightarrow> [] | Some e \<Rightarrow> e),
                 so_peak_runtime_memory_bytes :=
                   (case unsigned_field ''peakRuntimeMemoryBytes'' s of None \<Rightarrow> 0 | Some w \<Rightarrow> w),
                 so_estimated_kv_bytes_per_token :=
                   (case unsigned_field ''estimatedKvBytesPerToken'' s of None \<Rightarrow> 0 | Some w \<Rightarrow> w),
                 so_compatible_backends := map resolve_backend_kind backends,
                 so_required_compute_units := map resolve_compute_unit units,
                 so_required_operator_ids := ops,
                 so_estimated_prefill_microseconds :=
                   (case number_field ''estimatedPrefillMicroseconds'' s of None \<Rightarrow> 0 | Some d \<Rightarrow> d),
                 so_estimated_decode_microseconds :=
                   (case number_field ''estimatedDecodeMicroseconds'' s of None \<Rightarrow> 0 | Some d \<Rightarrow> d),
                 so_sensitivity_score :=
                   (case number_field ''sensitivityScore'' s of None \<Rightarrow> 0 | Some d \<Rightarrow> d)\<rparr>)) })"

fun parse_shards :: "(string \<rightharpoonup> quantization_kind) \<Rightarrow> json list \<Rightarrow> shard_option list option" where
  "parse_shards quant_map [] = Some []"
| "parse_shards quant_map (s # ss) =
     do { opt \<leftarrow> parse_shard quant_map s;
          opts \<leftarrow> parse_shards quant_map ss;
          Some (case opt of None \<Rightarrow> opts | Some x \<Rightarrow> x # opts) }"

definition parse_tensor :: "json \<Rightarrow> boundary_tensor_contract option" where
  "parse_tensor t =
     do { shape \<leftarrow> get_array_or get_i64 ''maximumShape'' t;
          Some \<lparr>btc_tensor_id = (case string_field ''tensorId'' t of None \<Rightarrow> [] | Some i \<Rightarrow> i),
                btc_element_type = (case string_field ''elementType'' t of None \<Rightarrow> kFloat32
                                    | Some e \<Rightarrow> resolve_element_type e),
                btc_maximum_shape = shape,
                btc_layout = (case string_field ''layout'' t of None \<Rightarrow> [] | Some l \<Rightarrow> l),
                btc_maximum_encoded_bytes =
                  (case unsigned_field ''maximumEncodedBytes'' t of None \<Rightarrow> 0 | Some w \<Rightarrow> w)\<rparr> }"

definition parse_boundary :: "json \<Rightarrow> boundary_contract option" where
  "parse_boundary b =
     do { tensors \<leftarrow> get_array_or parse_tensor ''tensors'' b;
          Some \<lparr>bd_boundary_id = (case string_field ''boundaryId'' b of None \<Rightarrow> [] | Some i \<Rightarrow> i),
                bd_producer_stage_id = (case string_field ''producerStageId'' b of None \<Rightarrow> [] | Some i \<Rightarrow> i),
                bd_consumer_stage_id = (case string_field ''consumerStageId'' b of None \<Rightarrow> [] | Some i \<Rightarrow> i),
                bd_tensors = tensors,
                bd_transferable = (case bool_field ''transferable'' b of None \<Rightarrow> False | Some x \<Rightarrow> x),
                bd_reliable_ordered_required =
                  (case bool_field ''reliableOrderedRequired'' b of None \<Rightarrow> True | Some x \<Rightarrow> x)\<rparr> }"

definition parse_manifest_json :: "json \<Rightarrow> manifest_summary result option" where
  "parse_manifest_json j =
     (case string_field ''modelId'' j of
        None \<Rightarrow> Some (Err kInvalidArgument ''manifest missing string field: modelId'')
      | Some model_id \<Rightarrow>
     (case string_field ''version'' j of
        None \<Rightarrow> Some (Err kInvalidArgument ''manifest missing string field: version'')
      | Some version \<Rightarrow>
     (case unsigned_field ''totalTransformerLayers'' j of
        None \<Rightarrow> Some (Err kInvalidArgument
                  ''manifest missing unsigned integer field: totalTransformerLayers'')
      | Some layers \<Rightarrow>
          do { quant_map \<leftarrow> (case array_field ''quantizations'' j of None \<Rightarrow> Some Map.empty
                            | Some qs \<Rightarrow> quantization_table qs Map.empty);
               (case array_field ''shards'' j of
                  None \<Rightarrow> Some (Err kInvalidArgument ''manifest missing array field: shards'')
                | Some ss \<Rightarrow>
                    do { shards \<leftarrow> parse_shards quant_map ss;
                         boundaries \<leftarrow> get_array_or parse_boundary ''boundaries'' j;
                         Some (Ok \<lparr>sm_model_id = model_id, sm_revision = version,
                                   sm_total_layers = ucast layers, sm_shard_options = shards,
                                   sm_boundaries = boundaries\<rparr>) }) })))"

section \<open>The repository\<close>

type_synonym manifest_index = "string \<rightharpoonup> manifest_summary"

text \<open>The file at the path of \<open>publish\<close>: unreadable, not JSON (with the parser's message), or a value.\<close>

datatype manifest_file = Unreadable | Malformed string | Parsed json

definition make_key :: "model_id \<Rightarrow> string \<Rightarrow> string" where
  "make_key m revision = m @ ''/'' @ revision"

definition publish :: "string \<Rightarrow> manifest_file \<Rightarrow> manifest_index \<Rightarrow> manifest_summary result option \<times> manifest_index" where
  "publish path file idx =
     (case file of
        Unreadable \<Rightarrow> (Some (Err kNotFound (''manifest file not readable: '' @ path)), idx)
      | Malformed what \<Rightarrow> (Some (Err kInvalidArgument (''manifest JSON parse error: '' @ what)), idx)
      | Parsed j \<Rightarrow>
          (case parse_manifest_json j of
             None \<Rightarrow> (None, idx)
           | Some (Inl e) \<Rightarrow> (Some (Inl e), idx)
           | Some (Inr summary) \<Rightarrow>
               (let key = make_key (sm_model_id summary) (sm_revision summary) in
                if idx key \<noteq> None
                then (Some (Err kAlreadyExists (''manifest revision already published: '' @ key)), idx)
                else (Some (Ok summary), idx(key \<mapsto> summary)))))"

definition resolve :: "model_id \<Rightarrow> string \<Rightarrow> manifest_index \<Rightarrow> manifest_summary result" where
  "resolve model_id revision idx =
     (case idx (make_key model_id revision) of
        None \<Rightarrow> Err kNotFound (''manifest not found: '' @ model_id @ ''/'' @ revision)
      | Some s \<Rightarrow> Ok s)"

section \<open>The model manager\<close>

record shard_lease =
  sl_shard_id :: shard_id
  sl_path :: string
  sl_size_bytes :: u64

record model_manager =
  mm_model_root :: string
  mm_active_leases :: "string \<rightharpoonup> string"

definition new_model_manager :: "string \<Rightarrow> model_manager" where
  "new_model_manager dir = \<lparr>mm_model_root = dir, mm_active_leases = Map.empty\<rparr>"

text \<open>\<open>path / rel\<close> of \<open>std::filesystem\<close> on POSIX: an absolute right operand replaces the left one.\<close>

definition path_append :: "string \<Rightarrow> string \<Rightarrow> string" where
  "path_append dir rel =
     (if take 1 rel = ''/'' then rel
      else if dir = [] \<or> last dir = CHR ''/'' then dir @ rel
      else dir @ ''/'' @ rel)"

definition artifact_path :: "string \<Rightarrow> string \<Rightarrow> string" where
  "artifact_path dir uri =
     (let rel = (case str_find uri ''./'' 0 of Some p \<Rightarrow> drop (p + 2) uri | None \<Rightarrow> uri)
      in path_append dir rel)"

text \<open>
  \<open>exists\<close> and \<open>file_size\<close> stand for the file system (\<open>None\<close>: the size could not be read).
\<close>

definition acquire ::
  "(string \<Rightarrow> bool) \<Rightarrow> (string \<Rightarrow> u64 option) \<Rightarrow> stage_assignment \<Rightarrow> bool \<Rightarrow> model_manager
     \<Rightarrow> shard_lease result \<times> model_manager" where
  "acquire file_exists file_size assignment cancelled mm =
     (if cancelled then (Err kCancelled ''acquisition cancelled'', mm)
      else
        let uri = ad_uri (sa_artifact assignment) in
        if \<not> starts_with uri ''file:./'' \<and> starts_with uri ''file:''
        then (Err kInvalidArgument (''only file:./ URIs supported: '' @ uri), mm)
        else
          let full = artifact_path (mm_model_root mm) uri in
          if mm_active_leases mm (sa_shard_id assignment) \<noteq> None
          then (Err kAlreadyExists ''shard already leased'', mm)
          else if \<not> file_exists full
          then (Err kNotFound (''artifact not found: '' @ full), mm)
          else
            (case file_size full of
               None \<Rightarrow> (Err kInternal ''failed to read artifact size'', mm)
             | Some sz \<Rightarrow>
                 (Ok \<lparr>sl_shard_id = sa_shard_id assignment, sl_path = full, sl_size_bytes = sz\<rparr>,
                  mm\<lparr>mm_active_leases := (mm_active_leases mm)(sa_shard_id assignment \<mapsto> full)\<rparr>)))"

definition prune :: "u64 \<Rightarrow> model_manager \<Rightarrow> bool result" where
  "prune target_free_bytes mm = Ok True"

section \<open>Printing a manifest\<close>

text \<open>The names the resolvers know, and the manifest that lists a summary with them.\<close>

fun quantization_name :: "quantization_kind \<Rightarrow> string" where
  "quantization_name kFp16 = ''fp16''"
| "quantization_name kInt8 = ''int8''"
| "quantization_name kInt4 = ''int4''"
| "quantization_name kInt2 = ''int2''"
| "quantization_name kTernary = ''ternary''"

fun stage_kind_name :: "stage_kind \<Rightarrow> string" where
  "stage_kind_name kTokenEmbedding = ''tokenEmbedding''"
| "stage_kind_name kTransformerLayers = ''transformerLayers''"
| "stage_kind_name kOutputNormalization = ''outputNormalization''"
| "stage_kind_name kLmHead = ''lmHead''"

fun backend_name :: "backend_kind \<Rightarrow> string" where
  "backend_name kLlamaCpp = ''llamaCpp''"
| "backend_name kExecuTorchCpu = ''execuTorchCpu''"
| "backend_name kExecuTorchQnn = ''execuTorchQnn''"
| "backend_name kMlx = ''mlx''"
| "backend_name kLiteRt = ''liteRt''"

fun compute_unit_name :: "compute_unit \<Rightarrow> string" where
  "compute_unit_name kCpu = ''cpu''"
| "compute_unit_name kGpu = ''gpu''"
| "compute_unit_name kNpu = ''npu''"

fun element_type_name :: "element_type \<Rightarrow> string" where
  "element_type_name kElInt8 = ''int8''"
| "element_type_name kElInt16 = ''int16''"
| "element_type_name kElInt32 = ''int32''"
| "element_type_name kElInt64 = ''int64''"
| "element_type_name kFloat16 = ''float16''"
| "element_type_name kBf16 = ''bf16''"
| "element_type_name kFloat32 = ''float32''"
| "element_type_name kFloat64 = ''float64''"

definition json_strings :: "('a \<Rightarrow> string) \<Rightarrow> 'a list \<Rightarrow> json" where
  "json_strings name xs = JArray (map (\<lambda>x. JString (name x)) xs)"

definition json_of_artifact :: "artifact_descriptor \<Rightarrow> json" where
  "json_of_artifact a = JObject [(''uri'', JString (ad_uri a)), (''sha256'', JString (ad_sha256_hex a)),
     (''format'', JString (ad_format a)), (''formatVersion'', JString (ad_format_version a)),
     (''fileBytes'', JUnsigned (ad_file_bytes a))]"

definition json_of_layers :: "layer_range option \<Rightarrow> json" where
  "json_of_layers r = (case r of None \<Rightarrow> JNull | Some r \<Rightarrow>
     JObject [(''start'', JUnsigned (ucast (lr_start r))), (''endExclusive'', JUnsigned (ucast (lr_end_exclusive r)))])"

definition json_of_shard :: "shard_option \<Rightarrow> json" where
  "json_of_shard s = JObject
     [(''shardId'', JString (so_shard_id s)),
      (''stageIds'', json_strings (\<lambda>x. x) (so_stage_ids s)),
      (''stageKind'', JString (stage_kind_name (so_stage_kind s))),
      (''layers'', json_of_layers (so_layers s)),
      (''quantizationId'', JString (quantization_name (so_quantization s))),
      (''artifact'', json_of_artifact (so_artifact s)),
      (''executionProfileId'', JString (so_execution_profile_id s)),
      (''peakRuntimeMemoryBytes'', JUnsigned (so_peak_runtime_memory_bytes s)),
      (''estimatedKvBytesPerToken'', JUnsigned (so_estimated_kv_bytes_per_token s)),
      (''compatibleBackends'', json_strings backend_name (so_compatible_backends s)),
      (''requiredComputeUnits'', json_strings compute_unit_name (so_required_compute_units s)),
      (''requiredOperatorIds'', json_strings (\<lambda>x. x) (so_required_operator_ids s)),
      (''estimatedPrefillMicroseconds'', JFloat (so_estimated_prefill_microseconds s)),
      (''estimatedDecodeMicroseconds'', JFloat (so_estimated_decode_microseconds s)),
      (''sensitivityScore'', JFloat (so_sensitivity_score s))]"

definition json_of_tensor :: "boundary_tensor_contract \<Rightarrow> json" where
  "json_of_tensor t = JObject
     [(''tensorId'', JString (btc_tensor_id t)),
      (''elementType'', JString (element_type_name (btc_element_type t))),
      (''maximumShape'', JArray (map JInteger (btc_maximum_shape t))),
      (''layout'', JString (btc_layout t)),
      (''maximumEncodedBytes'', JUnsigned (btc_maximum_encoded_bytes t))]"

definition json_of_boundary :: "boundary_contract \<Rightarrow> json" where
  "json_of_boundary b = JObject
     [(''boundaryId'', JString (bd_boundary_id b)),
      (''producerStageId'', JString (bd_producer_stage_id b)),
      (''consumerStageId'', JString (bd_consumer_stage_id b)),
      (''tensors'', JArray (map json_of_tensor (bd_tensors b))),
      (''transferable'', JBool (bd_transferable b)),
      (''reliableOrderedRequired'', JBool (bd_reliable_ordered_required b))]"

definition json_of_manifest :: "manifest_summary \<Rightarrow> json" where
  "json_of_manifest m = JObject
     [(''modelId'', JString (sm_model_id m)),
      (''version'', JString (sm_revision m)),
      (''totalTransformerLayers'', JUnsigned (ucast (sm_total_layers m))),
      (''quantizations'', JArray (map (\<lambda>k. JObject [(''id'', JString (quantization_name k)),
         (''kind'', JString (quantization_name k))]) [kFp16, kInt8, kInt4, kInt2, kTernary])),
      (''shards'', JArray (map json_of_shard (sm_shard_options m))),
      (''boundaries'', JArray (map json_of_boundary (sm_boundaries m)))]"

section \<open>Lemmas\<close>

named_theorems json_facts \<open>reading back what was printed\<close>

lemma field_simps [json_facts]:
  "field k (JObject kvs) = map_of kvs k"
  by simp

lemmas guarded_fields [json_facts] =
  string_field_def unsigned_field_def bool_field_def array_field_def object_field_def number_field_def

lemma resolve_names [json_facts]:
  "resolve_quantization_kind (quantization_name q) = q"
  "resolve_stage_kind (stage_kind_name k) = k"
  "resolve_backend_kind (backend_name b) = b"
  "resolve_compute_unit (compute_unit_name u) = u"
  "resolve_element_type (element_type_name e) = e"
  unfolding resolve_quantization_kind_def resolve_stage_kind_def resolve_backend_kind_def
    resolve_compute_unit_def resolve_element_type_def
  by (cases q, simp_all) (cases k, simp_all, cases b, simp_all, cases u, simp_all, cases e, simp_all)

lemma get_list_map [json_facts]:
  "(\<And>x. x \<in> set xs \<Longrightarrow> get (print x) = Some (val x)) \<Longrightarrow> get_list get (map print xs) = Some (map val xs)"
  unfolding get_list_def by (induction xs) simp_all

lemma ucast_u32_u64 [json_facts]: "ucast (ucast (w :: u32) :: u64) = w"
  by (simp add: ucast_up_ucast_id is_up)

lemma read_layers [json_facts]:
  "field ''layers'' j = Some (json_of_layers r) \<Longrightarrow> parse_layers j = r"
  by (cases r) (simp_all add: parse_layers_def json_of_layers_def json_facts)

lemma read_artifact [json_facts]:
  "field ''artifact'' j = Some (json_of_artifact a) \<Longrightarrow> parse_artifact j = Some a"
  by (simp add: parse_artifact_def json_of_artifact_def get_or_def json_facts)

definition full_table :: "string \<rightharpoonup> quantization_kind" where
  "full_table = [''fp16'' \<mapsto> kFp16, ''int8'' \<mapsto> kInt8, ''int4'' \<mapsto> kInt4, ''int2'' \<mapsto> kInt2, ''ternary'' \<mapsto> kTernary]"

lemma full_table_name [json_facts]: "full_table (quantization_name q) = Some q"
  by (cases q) (simp_all add: full_table_def)

lemma read_table [json_facts]:
  "quantization_table (map (\<lambda>k. JObject [(''id'', JString (quantization_name k)),
     (''kind'', JString (quantization_name k))]) [kFp16, kInt8, kInt4, kInt2, kTernary]) Map.empty = Some full_table"
  by (simp add: full_table_def resolve_quantization_kind_def fun_upd_twist)

lemma read_shard [json_facts]:
  assumes "so_input_boundary_ids s = []" "so_output_boundary_ids s = []"
  shows "parse_shard full_table (json_of_shard s) = Some (Some s)"
  using assms
  by (simp add: parse_shard_def json_of_shard_def json_strings_def get_array_or_def default_shard_option_def
      json_facts comp_def)

lemma read_shards:
  assumes "\<forall>s \<in> set ss. so_input_boundary_ids s = [] \<and> so_output_boundary_ids s = []"
  shows "parse_shards full_table (map json_of_shard ss) = Some ss"
  using assms by (induction ss) (simp_all add: read_shard)

lemma read_tensor: "parse_tensor (json_of_tensor t) = Some t"
  by (simp add: parse_tensor_def json_of_tensor_def get_array_or_def json_facts)

lemma read_boundary: "parse_boundary (json_of_boundary b) = Some b"
  using get_list_map [of "bd_tensors b" parse_tensor json_of_tensor "\<lambda>t. t"]
  by (simp add: parse_boundary_def json_of_boundary_def get_array_or_def json_facts read_tensor)

lemma read_boundaries: "get_list parse_boundary (map json_of_boundary bs) = Some bs"
  using get_list_map [of bs parse_boundary json_of_boundary "\<lambda>b. b"] by (simp add: read_boundary)

lemma publish_Ok:
  assumes "publish path file idx = (Some (Ok s), idx')"
  shows "idx (make_key (sm_model_id s) (sm_revision s)) = None"
    and "idx' = idx(make_key (sm_model_id s) (sm_revision s) \<mapsto> s)"
  using assms unfolding publish_def
  by (auto simp: Err_def Let_def split: manifest_file.splits option.splits sum.splits if_splits)

lemma publish_failed:
  assumes "publish path file idx = (r, idx')" "\<nexists>s. r = Some (Ok s)"
  shows "idx' = idx"
  using assms unfolding publish_def
  by (auto simp: Let_def split: manifest_file.splits option.splits sum.splits if_splits dest: sym)

definition publish_step :: "string \<times> manifest_file \<Rightarrow> manifest_index \<Rightarrow> manifest_index" where
  "publish_step pf idx = snd (publish (fst pf) (snd pf) idx)"

interpretation repository: write_once publish_step "\<lambda>key idx. idx key"
proof
  fix k :: string and idx :: manifest_index and v pf
  assume held: "idx k = Some v"
  obtain r idx' where p: "publish (fst pf) (snd pf) idx = (r, idx')" by fastforce
  show "publish_step pf idx k = Some v"
  proof (cases "\<exists>s. r = Some (Ok s)")
    case True
    then obtain s where "publish (fst pf) (snd pf) idx = (Some (Ok s), idx')" using p by auto
    from publish_Ok [OF this] held show ?thesis by (auto simp: publish_step_def p)
  next
    case False
    then have "idx' = idx" using publish_failed [OF p] by blast
    then show ?thesis using held by (simp add: publish_step_def p)
  qed
qed

lemma acquire_Ok:
  assumes "acquire fe fs a c mm = (Ok l, mm')"
  shows "mm_active_leases mm (sa_shard_id a) = None"
    and "l = \<lparr>sl_shard_id = sa_shard_id a, sl_path = artifact_path (mm_model_root mm) (ad_uri (sa_artifact a)),
           sl_size_bytes = sl_size_bytes l\<rparr>"
    and "fs (sl_path l) = Some (sl_size_bytes l)" "fe (sl_path l)"
    and "mm' = mm\<lparr>mm_active_leases := (mm_active_leases mm)(sa_shard_id a \<mapsto> sl_path l)\<rparr>"
  using assms unfolding acquire_def
  by (auto simp: Err_def Let_def split: if_splits option.splits)

definition acquire_step ::
  "(string \<Rightarrow> bool) \<times> (string \<Rightarrow> u64 option) \<times> stage_assignment \<times> bool \<Rightarrow> model_manager \<Rightarrow> model_manager" where
  "acquire_step call mm = (case call of (fe, fs, a, c) \<Rightarrow> snd (acquire fe fs a c mm))"

interpretation leases: write_once acquire_step "\<lambda>shard mm. mm_active_leases mm shard"
proof
  fix k v call and mm :: model_manager
  assume "mm_active_leases mm k = Some v"
  then show "mm_active_leases (acquire_step call mm) k = Some v"
    by (auto simp: acquire_step_def acquire_def Let_def split: prod.splits option.splits)
qed

section \<open>Properties\<close>

text \<open>
  C17. The manifest reader is the inverse of printing: a manifest that lists the identity, the five
  quantizations, every shard with all its attributes and every boundary with its tensors is read
  back as exactly that summary. (The reader has no field for the boundary ids of a shard.)
\<close>

theorem manifest_roundtrip:
  assumes "\<forall>s \<in> set (sm_shard_options m). so_input_boundary_ids s = [] \<and> so_output_boundary_ids s = []"
  shows "parse_manifest_json (json_of_manifest m) = Some (Ok m)"
  using read_shards [OF assms] read_boundaries [of "sm_boundaries m"]
  by (simp add: parse_manifest_json_def json_of_manifest_def get_array_or_def json_facts del: list.map)

definition example_manifest :: manifest_summary where
  "example_manifest = \<lparr>sm_model_id = ''tiny'', sm_revision = ''1.0'', sm_total_layers = 2,
     sm_shard_options = [default_shard_option\<lparr>so_shard_id := ''s0'', so_quantization := kInt4,
       so_layers := Some \<lparr>lr_start = 0, lr_end_exclusive = 2\<rparr>, so_compatible_backends := [kMlx]\<rparr>],
     sm_boundaries = []\<rparr>"

theorem manifest_roundtrip_witness:
  "parse_manifest_json (json_of_manifest example_manifest) = Some (Ok example_manifest)"
  by (rule manifest_roundtrip) (simp add: example_manifest_def default_shard_option_def)

text \<open>
  C18. A published manifest is immutable: whatever is published later, \<open>resolve\<close> returns the
  summary that was published under that identity and revision, and every later manifest with the
  same key is refused with kAlreadyExists and leaves the index as it is.
\<close>

theorem published_manifest_immutable:
  assumes "publish path file idx = (Some (Ok s), idx')"
  shows "resolve (sm_model_id s) (sm_revision s) (fold publish_step later idx') = Ok s \<and>
    (\<forall>path2 j s2. parse_manifest_json j = Some (Ok s2) \<longrightarrow>
       make_key (sm_model_id s2) (sm_revision s2) = make_key (sm_model_id s) (sm_revision s) \<longrightarrow>
       (\<exists>m. publish path2 (Parsed j) (fold publish_step later idx') =
              (Some (Err kAlreadyExists m), fold publish_step later idx')))"
proof -
  have "idx' (make_key (sm_model_id s) (sm_revision s)) = Some s" using publish_Ok(2) [OF assms] by simp
  from repository.run_keeps [where i = idx', OF this] show ?thesis by (auto simp: resolve_def publish_def)
qed

text \<open>
  The key joins model and revision with a slash, so another model with a slash in its name can
  take the key.
\<close>

theorem published_manifest_immutable_witness:
  "\<exists>idx'. publish ''f'' (Parsed (json_of_manifest example_manifest)) Map.empty = (Some (Ok example_manifest), idx') \<and>
     resolve ''tiny'' ''1.0'' idx' = Ok example_manifest \<and>
     (\<exists>m. publish ''g'' (Parsed (json_of_manifest (example_manifest\<lparr>sm_model_id := ''a/b'', sm_revision := ''c''\<rparr>)))
        (snd (publish ''f'' (Parsed (json_of_manifest (example_manifest\<lparr>sm_model_id := ''a'', sm_revision := ''b/c''\<rparr>)))
           Map.empty)) = (Some (Err kAlreadyExists m), 
        snd (publish ''f'' (Parsed (json_of_manifest (example_manifest\<lparr>sm_model_id := ''a'', sm_revision := ''b/c''\<rparr>)))
           Map.empty)))"
proof -
  let ?m1 = "example_manifest\<lparr>sm_model_id := ''a'', sm_revision := ''b/c''\<rparr>"
  let ?m2 = "example_manifest\<lparr>sm_model_id := ''a/b'', sm_revision := ''c''\<rparr>"
  have parse: "parse_manifest_json (json_of_manifest m) = Some (Ok m)"
    if "sm_shard_options m = sm_shard_options example_manifest" for m
    using that read_shards [of "sm_shard_options m"] read_boundaries [of "sm_boundaries m"]
    by (simp add: parse_manifest_json_def json_of_manifest_def get_array_or_def json_facts
        example_manifest_def default_shard_option_def del: list.map)
  have pub: "publish ''f'' (Parsed (json_of_manifest m)) Map.empty =
      (Some (Ok m), [make_key (sm_model_id m) (sm_revision m) \<mapsto> m])"
    if "sm_shard_options m = sm_shard_options example_manifest" for m
    using parse [OF that] by (simp add: publish_def Let_def)
  have p0: "publish ''f'' (Parsed (json_of_manifest example_manifest)) Map.empty =
      (Some (Ok example_manifest), [''tiny/1.0'' \<mapsto> example_manifest])"
    using pub [of example_manifest] by (simp add: example_manifest_def make_key_def)
  have p1: "publish ''f'' (Parsed (json_of_manifest ?m1)) Map.empty = (Some (Ok ?m1), [''a/b/c'' \<mapsto> ?m1])"
    using pub [of ?m1] by (simp add: make_key_def)
  from published_manifest_immutable [OF p0, of "[]"] published_manifest_immutable [OF p1, of "[]"] parse [of ?m2] p0 p1
  show ?thesis by (auto simp: make_key_def example_manifest_def)
qed

text \<open>
  A shard is leased at most once in the life of a manager: after a successful acquisition no
  later one for the same shard succeeds (nothing ever gives a lease back), and the lease names the
  artifact the assignment's URI resolves to, which exists.
\<close>

theorem shard_leased_once:
  assumes "acquire fe fs a c mm = (Ok l, mm')"
  shows "fe (sl_path l) \<and> sl_path l = artifact_path (mm_model_root mm) (ad_uri (sa_artifact a)) \<and>
    (sa_shard_id b = sa_shard_id a \<longrightarrow> \<not> is_ok (fst (acquire fe2 fs2 b c2 (fold acquire_step later mm'))))"
proof -
  note ok = acquire_Ok [OF assms]
  have "mm_active_leases mm' (sa_shard_id a) = Some (sl_path l)" using ok(5) by simp
  from leases.run_keeps [OF this, of later] ok(2,4) show ?thesis
    by (auto simp: acquire_def Let_def) (metis ok(2) shard_lease.select_convs(2))+
qed

definition example_assignment :: "string \<Rightarrow> stage_assignment" where
  "example_assignment uri = default_stage\<lparr>sa_shard_id := ''s0'', sa_artifact := default_artifact\<lparr>ad_uri := uri\<rparr>\<rparr>"

theorem shard_leased_once_witness:
  "\<exists>l mm'. acquire (\<lambda>p. p = ''/models/s0.gguf'') (\<lambda>_. Some 7) (example_assignment ''file:./s0.gguf'') False
      (new_model_manager ''/models'') = (Ok l, mm') \<and> sl_path l = ''/models/s0.gguf'' \<and>
    \<not> is_ok (fst (acquire (\<lambda>_. True) (\<lambda>_. Some 7) (example_assignment ''file:./s0.gguf'') False mm'))"
proof -
  have path: "artifact_path ''/models'' ''file:./s0.gguf'' = ''/models/s0.gguf''" by code_simp
  have ok: "starts_with ''file:./s0.gguf'' ''file:./''" by code_simp
  obtain l mm' where a: "acquire (\<lambda>p. p = ''/models/s0.gguf'') (\<lambda>_. Some 7) (example_assignment ''file:./s0.gguf'') False
      (new_model_manager ''/models'') = (Ok l, mm')"
    by (simp add: acquire_def example_assignment_def new_model_manager_def path ok Let_def)
  from shard_leased_once [OF a, of "example_assignment ''file:./s0.gguf''" "\<lambda>_. True" "\<lambda>_. Some 7" False "[]"] a
  show ?thesis by (auto simp: example_assignment_def new_model_manager_def path)
qed

text \<open>
  The model directory does not confine artifacts: an absolute path without \<open>./\<close> is opened as
  it stands, whatever the model directory is.
\<close>

theorem absolute_uri_leaves_model_root:
  assumes "acquire fe fs a c mm = (Ok l, mm')" "take 1 (ad_uri (sa_artifact a)) = ''/''"
    and "\<not> contains_str (ad_uri (sa_artifact a)) ''./''"
  shows "sl_path l = ad_uri (sa_artifact a)"
proof -
  have "sl_path l = artifact_path (mm_model_root mm) (ad_uri (sa_artifact a))"
    using acquire_Ok(2) [OF assms(1)] by (metis shard_lease.select_convs(2))
  with assms(2,3) show ?thesis
    by (simp add: artifact_path_def path_append_def contains_str_def)
qed

theorem absolute_uri_leaves_model_root_witness:
  "\<exists>l mm'. acquire (\<lambda>_. True) (\<lambda>_. Some 7) (example_assignment ''/etc/shadow'') False
      (new_model_manager ''/models'') = (Ok l, mm') \<and> sl_path l = ''/etc/shadow''"
proof -
  have path: "\<not> starts_with ''/etc/shadow'' ''file:''" "\<not> contains_str ''/etc/shadow'' ''./''" by code_simp+
  obtain l mm' where a: "acquire (\<lambda>_. True) (\<lambda>_. Some 7) (example_assignment ''/etc/shadow'') False
      (new_model_manager ''/models'') = (Ok l, mm')"
    by (simp add: acquire_def example_assignment_def new_model_manager_def path Let_def)
  from absolute_uri_leaves_model_root [OF a] path(2) a show ?thesis by (auto simp: example_assignment_def)
qed

end
