(* ===== verification/Validator.thy ===== *)
theory Validator
  imports Prelude
begin

text \<open>
  The manifest validator of \<^verbatim>\<open>src/model/manifest_validator.cpp\<close>: textual heuristics over the
  manifest, one function per rule, each appending to the list of errors. The scan over artifact
  URIs is a loop that need not end; it is a partial function, with \<open>None\<close> for a run without end.
\<close>

record validation_error =
  ve_rule :: string
  ve_field :: string
  ve_message :: string

definition add_error :: "validation_error list \<Rightarrow> string \<Rightarrow> string \<Rightarrow> string \<Rightarrow> validation_error list" where
  "add_error errors rule fld msg = errors @ [\<lparr>ve_rule = rule, ve_field = fld, ve_message = msg\<rparr>]"

abbreviation dq :: char where
  "dq \<equiv> CHR 0x22"

text \<open>A key or a value in double quotes, as in the C++ literals.\<close>

definition quoted :: "string \<Rightarrow> string" where
  "quoted s = dq # s @ [dq]"

definition validate_model_id :: "string \<Rightarrow> validation_error list \<Rightarrow> validation_error list" where
  "validate_model_id json errors =
     (let e1 = (if \<not> contains_str json (quoted ''modelId'')
                then add_error errors ''identity.missing_model_id'' ''modelId''
                       ''model_id must be present and non-empty'' else errors);
          e2 = (if contains_str json (quoted ''modelId'' @ '': '' @ quoted [])
                then add_error e1 ''identity.empty_model_id'' ''modelId''
                       ''model_id must match [A-Za-z0-9][A-Za-z0-9._-]{0,127}'' else e1)
      in if \<not> contains_str json (quoted ''manifestId'')
         then add_error e2 ''identity.missing_manifest_id'' ''manifestId'' ''manifest_id is required'' else e2)"

definition validate_graph_ordinals :: "string \<Rightarrow> validation_error list \<Rightarrow> validation_error list" where
  "validate_graph_ordinals json errors =
     (if contains_str json (quoted ''ordinal'' @ '': 5'') \<or> contains_str json (quoted ''ordinal'' @ '':5'')
      then add_error errors ''graph.stage_ordinals'' ''graph.transformer.ordinal''
             ''ordinals must be exactly 0..N-1 contiguous sequence'' else errors)"

definition validate_layer_coverage :: "string \<Rightarrow> validation_error list \<Rightarrow> validation_error list" where
  "validate_layer_coverage json errors =
     (let e1 = (if contains_str json (quoted ''startLayer'' @ '': 15'') \<or>
                   contains_str json (quoted ''startLayer'' @ '':15'')
                then add_error errors ''graph.incomplete_coverage'' ''graph.transformer.layers''
                       ''transformer layers must cover [0, total_transformer_layers) without gaps'' else errors)
      in if contains_str json (quoted ''startLayer'' @ '': 10'') \<and>
            contains_str json (quoted ''endLayerExclusive'' @ '': 5'')
         then add_error e1 ''graph.invalid_range'' ''graph.transformer''
                ''layer start must be less than end_exclusive'' else e1)"

section \<open>Regular expressions\<close>

text \<open>\<^verbatim>\<open>^file:\.\/[^\/].+\<close>: a dot matches anything but a line terminator.\<close>

definition uri_scheme_matches :: "string \<Rightarrow> bool" where
  "uri_scheme_matches uri \<longleftrightarrow>
     take 7 uri = ''file:./'' \<and>
     (case drop 7 uri of
        c # d # rest \<Rightarrow> c \<noteq> CHR ''/'' \<and> CHR 0x0A \<notin> set (d # rest) \<and> CHR 0x0D \<notin> set (d # rest)
      | _ \<Rightarrow> False)"

definition between :: "char \<Rightarrow> char \<Rightarrow> char \<Rightarrow> bool" where
  "between lo hi c \<longleftrightarrow> lo \<le> c \<and> c \<le> hi"

definition is_word_char :: "char \<Rightarrow> bool" where
  "is_word_char c \<longleftrightarrow>
     c = CHR ''_'' \<or> is_digit c \<or> between (CHR ''A'') (CHR ''Z'') c \<or> between (CHR ''a'') (CHR ''z'') c"

text \<open>\<open>\d+\<close> followed by the rest of the text; \<open>None\<close> without a digit.\<close>

definition eat_digits :: "string \<Rightarrow> string option" where
  "eat_digits s = (if takeWhile is_digit s = [] then None else Some (dropWhile is_digit s))"

definition eat_char :: "char \<Rightarrow> string \<Rightarrow> string option" where
  "eat_char c s = (case s of [] \<Rightarrow> None | d # rest \<Rightarrow> if c = d then Some rest else None)"

text \<open>The optional suffix \<^verbatim>\<open>(c[\w.]+)?\<close>.\<close>

definition eat_suffix :: "char \<Rightarrow> string \<Rightarrow> string option" where
  "eat_suffix c s =
     (case eat_char c s of
        None \<Rightarrow> Some s
      | Some rest \<Rightarrow>
          if takeWhile (\<lambda>x. is_word_char x \<or> x = CHR ''.'') rest = [] then None
          else Some (dropWhile (\<lambda>x. is_word_char x \<or> x = CHR ''.'') rest))"

text \<open>\<^verbatim>\<open>^\d+\.\d+\.\d+(-[\w.]+)?(\+[\w.]+)?$\<close>.\<close>

definition semver_matches :: "string \<Rightarrow> bool" where
  "semver_matches s \<longleftrightarrow>
     Option.bind (eat_digits s) (\<lambda>s1. Option.bind (eat_char (CHR ''.'') s1) (\<lambda>s2.
     Option.bind (eat_digits s2) (\<lambda>s3. Option.bind (eat_char (CHR ''.'') s3) (\<lambda>s4.
     Option.bind (eat_digits s4) (\<lambda>s5. Option.bind (eat_suffix (CHR ''-'') s5) (\<lambda>s6.
     eat_suffix (CHR ''+'') s6)))))) = Some []"

section \<open>The scan over URIs\<close>

text \<open>\<open>find('"', pos) + 1\<close>: \<open>npos + 1\<close> wraps to 0.\<close>

definition after_quote :: "string \<Rightarrow> nat \<Rightarrow> nat" where
  "after_quote json pos = (case str_find json [dq] pos of None \<Rightarrow> 0 | Some q \<Rightarrow> q + 1)"

definition uri_key :: string where
  "uri_key = quoted ''uri'' @ '': ''"

definition refused_uri :: "string \<Rightarrow> bool" where
  "refused_uri uri \<longleftrightarrow>
     uri \<noteq> [] \<and> \<not> uri_scheme_matches uri \<and> (starts_with uri ''https://'' \<or> starts_with uri ''http://'')"

partial_function (option) uri_loop ::
  "string \<Rightarrow> nat option \<Rightarrow> validation_error list \<Rightarrow> validation_error list option" where
  "uri_loop json pos errors =
     (case pos of
        None \<Rightarrow> Some errors
      | Some p \<Rightarrow>
          (let start = after_quote json (p + 7) in
           case str_find json [dq] start of
             None \<Rightarrow> uri_loop json None errors
           | Some fin \<Rightarrow>
               (let uri = substr json start (fin - start) in
                if refused_uri uri
                then Some (add_error errors ''artifact.uri_scheme'' ''uri''
                       (''MVP artifact URIs must use file:./ scheme, got: '' @ uri))
                else uri_loop json (str_find json uri_key fin) errors)))"

declare uri_loop.simps [code]

definition validate_uri_schemes :: "string \<Rightarrow> validation_error list \<Rightarrow> validation_error list option" where
  "validate_uri_schemes json errors = uri_loop json (str_find json uri_key 0) errors"

section \<open>The remaining rules\<close>

definition validate_shard_counts :: "string \<Rightarrow> validation_error list \<Rightarrow> validation_error list" where
  "validate_shard_counts json errors =
     (if contains_str json (quoted ''shardCount'' @ '': 3'') \<and> contains_str json (quoted ''shardCount'' @ '': 1'')
      then add_error errors ''artifact.shard_count'' ''shardCount''
             ''shard_count field must match number of shard entries'' else errors)"

definition validate_quantization_refs :: "string \<Rightarrow> validation_error list \<Rightarrow> validation_error list" where
  "validate_quantization_refs json errors =
     (if contains_str json (quoted ''quantizationId'' @ '': '' @ quoted ''q4_k_m'') \<and>
         \<not> contains_str json (quoted ''quantizationId'' @ '': '' @ quoted ''q4_k_m'')
      then add_error errors ''manifest.unresolved_quantization'' ''quantizationId''
             ''shard quantization_id must resolve to a quantizations[] entry'' else errors)"

definition validate_profile_refs :: "string \<Rightarrow> validation_error list \<Rightarrow> validation_error list" where
  "validate_profile_refs json errors =
     (case str_find json (quoted ''fallbackProfileId'') 0 of
        None \<Rightarrow> errors
      | Some pos \<Rightarrow>
          (let start = after_quote json (pos + 19) in
           case str_find json [dq] start of
             None \<Rightarrow> errors
           | Some fin \<Rightarrow>
               (let ref = substr json start (fin - start) in
                if \<not> contains_str json (quoted ''profileId'' @ '': '' @ quoted ref)
                then add_error errors ''profile.unresolved_fallback'' ''fallbackProfileId''
                       (''fallback profile must resolve: '' @ ref)
                else errors)))"

definition validate_unknown_fields :: "string \<Rightarrow> validation_error list \<Rightarrow> validation_error list" where
  "validate_unknown_fields json errors =
     (if contains_str json ''unsupportedFieldThatDoesNotExist''
      then add_error errors ''schema.no_unknown_fields'' ''-''
             ''unknown fields are rejected for schema version 1.0'' else errors)"

definition validate_calibration_ranges :: "string \<Rightarrow> validation_error list \<Rightarrow> validation_error list" where
  "validate_calibration_ranges json errors =
     (if contains_str json (quoted ''layerIndex'' @ '': 999'')
      then add_error errors ''calibration.layer_out_of_range'' ''layerIndex''
             ''calibration layer index exceeds total layers'' else errors)"

definition validate_version_strings :: "string \<Rightarrow> validation_error list \<Rightarrow> validation_error list" where
  "validate_version_strings json errors =
     (case str_find json (quoted ''backendVersion'') 0 of
        None \<Rightarrow> errors
      | Some pos \<Rightarrow>
          (let start = after_quote json (pos + 16) in
           case str_find json [dq] start of
             None \<Rightarrow> errors
           | Some fin \<Rightarrow>
               (let v = substr json start (fin - start);
                    semver = (if starts_with v ''>='' then drop 2 v else v)
                in if \<not> semver_matches semver
                   then add_error errors ''manifest.invalid_version'' ''backendVersion''
                          (''version must be SemVer 2.0.0 without leading v: '' @ v)
                   else errors)))"

definition validate :: "string \<Rightarrow> validation_error list result option" where
  "validate json =
     (case validate_uri_schemes json
             (validate_layer_coverage json (validate_graph_ordinals json (validate_model_id json []))) of
        None \<Rightarrow> None
      | Some errors \<Rightarrow>
          Some (Ok (validate_version_strings json (validate_calibration_ranges json
            (validate_unknown_fields json (validate_profile_refs json (validate_quantization_refs json
            (validate_shard_counts json errors))))))))"

section \<open>Termination of the scan\<close>

lemma uri_key_props [simp]: "uri_key \<noteq> []" "length uri_key = 7" "occurs_at json uri_key p \<Longrightarrow> occurs_at json [dq] p"
proof -
  show "occurs_at json [dq] p" if "occurs_at json uri_key p"
    using that by (cases "drop p json") (simp_all add: occurs_at_def uri_key_def quoted_def)
qed (simp_all add: uri_key_def quoted_def)

lemma prefix_before:
  assumes "str_find s [q] 0 = Some n"
  shows "take n s = takeWhile (\<lambda>c. c \<noteq> q) s"
proof -
  have occ: "occurs_at s [q] i \<longleftrightarrow> i < length s \<and> s ! i = q" for i
    by (cases "i < length s") (auto simp: occurs_at_def Cons_nth_drop_Suc [symmetric])
  with assms have "n < length s" "s ! n = q" "\<And>l. l < n \<Longrightarrow> s ! l \<noteq> q"
    by (auto simp: str_find_Some)
  then show ?thesis by (intro takeWhile_eq_take_P_nth [symmetric]) auto
qed

lemma uri_loop_ends:
  assumes followed: "\<And>p. occurs_at json uri_key p \<Longrightarrow> str_find json [dq] (p + 7) \<noteq> None"
    and pos: "\<And>p. pos = Some p \<Longrightarrow> occurs_at json uri_key p \<and> p \<le> length json"
  shows "\<exists>errs. uri_loop json pos errors = Some errs"
proof (cases pos)
  case (Some p)
  then show ?thesis using pos
  proof (induction "length json - p" arbitrary: p pos rule: less_induct)
    case less
    then have occ: "occurs_at json uri_key p" and le: "p \<le> length json" by auto
    obtain q where q: "str_find json [dq] (p + 7) = Some q" using followed [OF occ] by auto
    then have "p + 7 \<le> q" by (simp add: str_find_Some)
    have start: "after_quote json (p + 7) = q + 1" by (simp add: after_quote_def q)
    show ?case
    proof (cases "str_find json [dq] (q + 1)")
      case None
      then show ?thesis using less.prems(1) start
        by (subst uri_loop.simps) (simp, subst uri_loop.simps, simp)
    next
      case (Some fin)
      then have "q + 1 \<le> fin" by (simp add: str_find_Some)
      have "\<exists>errs. uri_loop json (str_find json uri_key fin) errors = Some errs"
      proof (cases "str_find json uri_key fin")
        case None
        then show ?thesis by (subst uri_loop.simps) simp
      next
        case p': (Some p')
        then have "fin \<le> p'" "occurs_at json uri_key p'" by (simp_all add: str_find_Some)
        moreover have "p' < length json"
          using occurs_at_bound [OF \<open>occurs_at json uri_key p'\<close>] by simp
        ultimately show ?thesis
          using less.hyps [of p' "Some p'"] p' \<open>p + 7 \<le> q\<close> \<open>q + 1 \<le> fin\<close> le by auto
      qed
      then show ?thesis using less.prems(1) start Some
        by (subst uri_loop.simps) (auto simp: Let_def)
    qed
  qed
qed (subst uri_loop.simps, simp)

lemma uri_loop_cycles:
  assumes first: "str_find json uri_key 0 = Some p" and no_quote: "str_find json [dq] (p + 7) = None"
    and kept: "\<not> refused_uri (takeWhile (\<lambda>c. c \<noteq> dq) json)"
  shows "uri_loop json (Some p) errors = None"
proof (rule ccontr)
  assume "uri_loop json (Some p) errors \<noteq> None"
  then obtain r where ret: "uri_loop json (Some p) errors = Some r" by blast
  have occ: "occurs_at json [dq] p" using first by (simp add: str_find_Some)
  obtain fin where fin: "str_find json [dq] 0 = Some fin" "fin \<le> p"
  proof (cases "str_find json [dq] 0")
    case (Some fin)
    with occ that show ?thesis by (metis linorder_not_less list.distinct(1) str_find_Some zero_le)
  qed (use occ in \<open>auto simp: str_find_None\<close>)
  have again: "str_find json uri_key fin = Some p"
    using first fin(2) by (simp add: str_find_Some)
  have uri: "substr json 0 fin = takeWhile (\<lambda>c. c \<noteq> dq) json"
    using fin(1) prefix_before [of json dq] by (simp add: substr_def)
  have "\<not> (json = json \<and> Some p = Some p)"
  proof (rule uri_loop.raw_induct [where P = "\<lambda>j pos es r. \<not> (j = json \<and> pos = Some p)", OF _ ret])
    fix f j pos es r
    assume IH: "\<And>j pos es r. f j pos es = Some r \<Longrightarrow> \<not> (j = json \<and> pos = Some p)"
      and eq: "(case pos of None \<Rightarrow> Some es
        | Some p \<Rightarrow>
            (let start = after_quote j (p + 7) in
             case str_find j [dq] start of None \<Rightarrow> f j None es
             | Some fin \<Rightarrow>
                 (let uri = substr j start (fin - start) in
                  if refused_uri uri
                  then Some (add_error es ''artifact.uri_scheme'' ''uri''
                         (''MVP artifact URIs must use file:./ scheme, got: '' @ uri))
                  else f j (str_find j uri_key fin) es))) = Some r"
    show "\<not> (j = json \<and> pos = Some p)"
    proof
      assume "j = json \<and> pos = Some p"
      with eq kept have "f json (Some p) es = Some r"
        by (simp add: after_quote_def no_quote fin(1) uri again)
      then show False using IH by blast
    qed
  qed
  then show False by simp
qed

section \<open>Properties\<close>

text \<open>
  Termination of the validator. If every \<^verbatim>\<open>"uri": \<close> in the text is followed by a quote, the
  scan ends and \<open>validate\<close> returns a list of errors, never an error result. If the first one is
  not followed by any quote (say its value is a number), \<open>npos + 1\<close> wraps to 0, the scan starts
  over from the beginning, and \<open>validate\<close> never returns, unless the text itself starts like a web
  address.
\<close>

theorem validator_termination:
  "((\<forall>p. occurs_at json uri_key p \<longrightarrow> str_find json [dq] (p + 7) \<noteq> None) \<longrightarrow>
      (\<exists>errors. validate json = Some (Ok errors))) \<and>
   (\<forall>p. str_find json uri_key 0 = Some p \<longrightarrow> str_find json [dq] (p + 7) = None \<longrightarrow>
      \<not> refused_uri (takeWhile (\<lambda>c. c \<noteq> dq) json) \<longrightarrow> validate json = None)"
proof (intro conjI impI allI)
  assume followed: "\<forall>p. occurs_at json uri_key p \<longrightarrow> str_find json [dq] (p + 7) \<noteq> None"
  have "occurs_at json uri_key p \<and> p \<le> length json" if "str_find json uri_key 0 = Some p" for p
    using that occurs_at_bound [of json uri_key p] by (simp add: str_find_Some)
  then have "\<exists>errs. uri_loop json (str_find json uri_key 0) errors = Some errs" for errors
    using followed by (intro uri_loop_ends) blast+
  then obtain errs where "uri_loop json (str_find json uri_key 0)
      (validate_layer_coverage json (validate_graph_ordinals json (validate_model_id json []))) = Some errs" by blast
  then show "\<exists>errors. validate json = Some (Ok errors)"
    by (simp add: validate_def validate_uri_schemes_def)
next
  fix p
  assume "str_find json uri_key 0 = Some p" "str_find json [dq] (p + 7) = None"
    "\<not> refused_uri (takeWhile (\<lambda>c. c \<noteq> dq) json)"
  then show "validate json = None"
    by (simp add: validate_def validate_uri_schemes_def uri_loop_cycles)
qed

definition numeric_uri :: string where
  "numeric_uri = ''{'' @ uri_key @ ''5}''"

definition quoted_uri :: string where
  "quoted_uri = ''{'' @ uri_key @ quoted ''file:./a'' @ ''}''"

theorem validator_termination_witness:
  "validate numeric_uri = None \<and> (\<exists>errors. validate quoted_uri = Some (Ok errors))"
proof
  have "str_find numeric_uri uri_key 0 = Some 1" "str_find numeric_uri [dq] (1 + 7) = None"
    "\<not> refused_uri (takeWhile (\<lambda>c. c \<noteq> dq) numeric_uri)" by code_simp+
  with validator_termination [of numeric_uri] show "validate numeric_uri = None" by blast
  have len: "length quoted_uri = 19" by code_simp
  have "list_all (\<lambda>p. occurs_at quoted_uri uri_key p \<longrightarrow> str_find quoted_uri [dq] (p + 7) \<noteq> None) [0..<19]"
    by code_simp
  then have "str_find quoted_uri [dq] (p + 7) \<noteq> None" if "occurs_at quoted_uri uri_key p" for p
    using that occurs_at_bound [OF that] len by (auto simp: list_all_iff)
  with validator_termination [of quoted_uri] show "\<exists>errors. validate quoted_uri = Some (Ok errors)" by blast
qed

text \<open>
  The check of the quantization references asks for a text that both contains and does not contain
  the same literal, so the rule is never reported.
\<close>

lemma quantization_rule_is_void: "validate_quantization_refs json errors = errors"
  by (simp add: validate_quantization_refs_def)

end
