(* ===== verification/Backends.thy ===== *)
theory Backends
  imports Types
begin

text \<open>
  The backend registry of \<^verbatim>\<open>src/inference/backend_registry.cpp\<close> and the platform dispatch of
  \<^verbatim>\<open>src/runtime/backend_dispatch.cpp\<close>. A backend adapter is a value of a type parameter; its
  methods \<open>capability\<close> and \<open>load_model\<close> call third-party engines and are parameters, which
  read and change a world given by another type parameter.
\<close>

section \<open>The registry\<close>

type_synonym 'b registry = "backend_kind \<rightharpoonup> 'b"

definition register_backend :: "backend_kind \<Rightarrow> 'b \<Rightarrow> 'b registry \<Rightarrow> 'b registry" where
  "register_backend kind b reg = reg(kind \<mapsto> b)"

definition resolve_backend :: "backend_kind \<Rightarrow> 'b registry \<Rightarrow> 'b result" where
  "resolve_backend kind reg =
     (case reg kind of None \<Rightarrow> Err kNotFound ''backend not registered'' | Some b \<Rightarrow> Ok b)"

record fallback_request =
  fr_requested :: backend_kind
  fr_artifact_format :: string
  fr_quantization_id :: string
  fr_requested_profile_id :: string
  fr_cpu_fallback_profile_id :: "string option"
  fr_artifact_compatible_backends :: "backend_kind list"
  fr_allow_cpu_fallback :: bool

definition fallback_chain :: "fallback_request \<Rightarrow> backend_kind list result" where
  "fallback_chain request =
     (if \<not> fr_allow_cpu_fallback request then Ok [fr_requested request]
      else Ok (fr_requested request #
        (case fr_requested request of
           kExecuTorchQnn \<Rightarrow> [kExecuTorchCpu]
         | kMlx \<Rightarrow> [kExecuTorchCpu]
         | kLiteRt \<Rightarrow> [kExecuTorchCpu]
         | kLlamaCpp \<Rightarrow> [kExecuTorchCpu]
         | kExecuTorchCpu \<Rightarrow> [])))"

section \<open>Platform dispatch\<close>

text \<open>The preprocessor branches, and the feature macros of the build.\<close>

datatype platform = AppleArm64 | AndroidArm64 | WindowsArm64 | WindowsAmd64 | OtherPlatform

record build_flags =
  bf_platform :: platform
  bf_qnn :: bool
  bf_litert :: bool
  bf_llama :: bool

text \<open>The backends that are created, in the order of the source.\<close>

definition chain_kinds :: "build_flags \<Rightarrow> backend_kind list" where
  "chain_kinds fl =
     (case bf_platform fl of
        AppleArm64 \<Rightarrow> [kMlx]
      | AndroidArm64 \<Rightarrow> (if bf_qnn fl then [kExecuTorchQnn] else [])
      | WindowsArm64 \<Rightarrow> (if bf_qnn fl then [kExecuTorchQnn] else []) @ (if bf_litert fl then [kLiteRt] else [])
      | WindowsAmd64 \<Rightarrow> (if bf_qnn fl then [kExecuTorchQnn] else [])
      | OtherPlatform \<Rightarrow> []) @
     (if bf_llama fl then [kLlamaCpp] else []) @ [kExecuTorchCpu]"

text \<open>\<open>create\<close> stands for the factory functions; each backend is registered and put on the chain.\<close>

definition build_backend_fallback_chain ::
  "build_flags \<Rightarrow> (backend_kind \<Rightarrow> 'b) \<Rightarrow> 'b registry \<Rightarrow> 'b registry \<times> 'b list" where
  "build_backend_fallback_chain fl create reg =
     fold (\<lambda>kind (reg, chain). (register_backend kind (create kind) reg, chain @ [create kind]))
       (chain_kinds fl) (reg, [])"

record load_options =
  lo_quantization :: quantization_kind
  lo_stage_ids :: "string list"
  lo_layers :: "layer_range option"
  lo_execution_profile_id :: string
  lo_memory_budget_bytes :: u64
  lo_backend_options :: attributes

fun load_model_with_fallback ::
  "('b \<Rightarrow> backend_capability result) \<Rightarrow> ('b \<Rightarrow> 'w \<Rightarrow> 's result \<times> 'w) \<Rightarrow> 'b list \<Rightarrow> 'w \<Rightarrow> 's result \<times> 'w" where
  "load_model_with_fallback capability load [] w = (Err kUnavailable ''all backends exhausted'', w)"
| "load_model_with_fallback capability load (b # chain) w =
     (if is_err (capability b) then load_model_with_fallback capability load chain w
      else case load b w of
        (Inr s, w') \<Rightarrow> (Ok s, w')
      | (Inl _, w') \<Rightarrow> load_model_with_fallback capability load chain w')"

section \<open>Lemmas\<close>

lemma register_fold:
  "fold (\<lambda>kind (reg, chain). (register_backend kind (create kind) reg, chain @ [create kind])) ks (reg, chain) =
     (\<lambda>k. if k \<in> set ks then Some (create k) else reg k, chain @ map create ks)"
proof (induction ks arbitrary: reg chain)
  case (Cons k ks)
  show ?case
    by (simp add: Cons.IH) (auto simp: register_backend_def)
qed simp

lemma build_chain_eq:
  "build_backend_fallback_chain fl create reg =
     (\<lambda>k. if k \<in> set (chain_kinds fl) then Some (create k) else reg k, map create (chain_kinds fl))"
  by (simp add: build_backend_fallback_chain_def register_fold)

text \<open>A loaded session comes from the first backend of the chain that could load.\<close>

lemma fallback_load_Ok:
  assumes "load_model_with_fallback capability load chain w = (Ok s, w')"
  shows "\<exists>pre b post w1. chain = pre @ b # post \<and> is_ok (capability b) \<and>
    load_model_with_fallback capability load pre w = (Err kUnavailable ''all backends exhausted'', w1) \<and>
    load b w1 = (Ok s, w')"
  using assms
proof (induction capability load chain w rule: load_model_with_fallback.induct)
  case (2 capability load b chain w)
  show ?case
  proof (cases "is_ok (capability b)")
    case False
    then obtain pre b' post w1 where "chain = pre @ b' # post" "is_ok (capability b')"
      "load_model_with_fallback capability load pre w = (Err kUnavailable ''all backends exhausted'', w1)"
      "load b' w1 = (Ok s, w')"
      using 2 by auto
    with False show ?thesis by (intro exI [of _ "b # pre"]) auto
  next
    case True
    show ?thesis
    proof (cases "load b w")
      case (Pair r w1)
      show ?thesis
      proof (cases r)
        case (Inl e)
        then obtain pre b' post w2 where "chain = pre @ b' # post" "is_ok (capability b')"
          "load_model_with_fallback capability load pre w1 = (Err kUnavailable ''all backends exhausted'', w2)"
          "load b' w2 = (Ok s, w')"
          using 2 True Pair by auto
        with True Pair Inl show ?thesis by (intro exI [of _ "b # pre"]) auto
      next
        case (Inr t)
        with 2 True Pair show ?thesis by (intro exI [of _ "[]"]) auto
      qed
    qed
  qed
qed (simp add: Err_def)

section \<open>Properties\<close>

text \<open>
  After the platform dispatch every backend of the chain resolves from the registry, the chain
  has no duplicates and ends with the ExecuTorch CPU backend, and any backend that is not on it
  resolves as before. The fallback chain of the registry starts with the requested backend and,
  when a CPU fallback is allowed, always ends with the CPU backend, whether or not the artifact
  is compatible with it.
\<close>

theorem backend_chain_registered:
  assumes "build_backend_fallback_chain fl create reg = (reg', chain)"
  shows "chain = map create (chain_kinds fl) \<and> distinct (chain_kinds fl) \<and> last (chain_kinds fl) = kExecuTorchCpu \<and>
    (\<forall>k. resolve_backend k reg' = (if k \<in> set (chain_kinds fl) then Ok (create k) else resolve_backend k reg)) \<and>
    (fr_allow_cpu_fallback request \<longrightarrow>
       (\<exists>ks. fallback_chain request = Ok ks \<and> hd ks = fr_requested request \<and> last ks = kExecuTorchCpu))"
proof (intro conjI allI impI)
  note eq = assms [unfolded build_chain_eq]
  show "chain = map create (chain_kinds fl)" using eq by simp
  show "distinct (chain_kinds fl)" by (simp add: chain_kinds_def split: platform.splits)
  show "last (chain_kinds fl) = kExecuTorchCpu" by (simp add: chain_kinds_def)
  show "resolve_backend k reg' = (if k \<in> set (chain_kinds fl) then Ok (create k) else resolve_backend k reg)" for k
    using eq by (auto simp: resolve_backend_def)
  assume "fr_allow_cpu_fallback request"
  then show "\<exists>ks. fallback_chain request = Ok ks \<and> hd ks = fr_requested request \<and> last ks = kExecuTorchCpu"
    by (cases "fr_requested request") (simp_all add: fallback_chain_def)
qed

theorem backend_chain_registered_witness:
  "resolve_backend kExecuTorchCpu (fst (build_backend_fallback_chain
      \<lparr>bf_platform = AppleArm64, bf_qnn = True, bf_litert = False, bf_llama = True\<rparr> (\<lambda>k. k) Map.empty)) = Ok kExecuTorchCpu \<and>
   (\<exists>ks. fallback_chain \<lparr>fr_requested = kMlx, fr_artifact_format = ''mlx'', fr_quantization_id = [],
      fr_requested_profile_id = [], fr_cpu_fallback_profile_id = None, fr_artifact_compatible_backends = [kMlx],
      fr_allow_cpu_fallback = True\<rparr> = Ok ks \<and> last ks = kExecuTorchCpu)"
  (is "resolve_backend _ (fst (build_backend_fallback_chain ?fl _ _)) = _ \<and> (\<exists>ks. fallback_chain ?rq = Ok ks \<and> _)")
  using backend_chain_registered [OF surjective_pairing [of "build_backend_fallback_chain ?fl (\<lambda>k. k) Map.empty"],
      where request = ?rq]
  by (auto simp: chain_kinds_def)

end
