(* ===== verification/Stages.thy ===== *)
theory Stages
  imports Codec Transport Manifest Backends
begin

text \<open>
  One pass of a token through the stages of a plan, the production part of
  \<^verbatim>\<open>src/pipeline/inference_pipeline.cpp\<close>: cached sessions for the local stages, transport calls
  for the remote ones. Inference engines, the network and the file system are functions of a
  world, collected in a record; the outer \<open>None\<close> is undefined behaviour.
\<close>

section \<open>Requests and results\<close>

record named_tensor =
  nt_tensor_id :: string
  nt_value :: tensor

record run_request =
  rr_request_id :: request_id
  rr_session_id :: session_id
  rr_stage_id :: string
  rr_input_boundary_id :: string
  rr_output_boundary_id :: string
  rr_inputs :: "named_tensor list"
  rr_layers :: "layer_range option"
  rr_token_position :: u64
  rr_deadline :: time_point

record run_result =
  ro_outputs :: "named_tensor list"
  ro_token_id :: "i32 option"
  ro_elapsed_us :: int

text \<open>
  What lies outside: \<open>InferenceBackend::load_model\<close>, \<open>InferenceSession::run_layers\<close>,
  \<open>Transport::send_unary\<close>, the file system, the digest of the tensor codec, and the two flags
  that other threads set: the cancellation token, and \<open>!state->active\<close>.
\<close>

record ('b, 's, 'w) stage_env =
  se_load_model :: "'b \<Rightarrow> shard_lease \<Rightarrow> load_options \<Rightarrow> 'w \<Rightarrow> 's result \<times> 'w"
  se_run_layers :: "'s \<Rightarrow> run_request \<Rightarrow> 'w \<Rightarrow> run_result result \<times> 'w"
  se_send_unary :: "string \<Rightarrow> unary_request \<Rightarrow> 'w \<Rightarrow> (unary_response result \<times> 'w) option"
  se_file_exists :: "'w \<Rightarrow> string \<Rightarrow> bool"
  se_file_size :: "'w \<Rightarrow> string \<Rightarrow> u64 option"
  se_stop_requested :: "'w \<Rightarrow> bool"
  se_inactive :: "'w \<Rightarrow> bool"
  se_sha :: "bytes \<Rightarrow> bytes"

record 's loaded_stage =
  ls_stage_id :: string
  ls_backend :: backend_kind
  ls_session :: "'s option"

record ('b, 's) stage_cache =
  sc_transport :: bool
  sc_backends :: "'b registry option"
  sc_models :: "model_manager option"
  sc_local_node_id :: node_id
  sc_loaded_sessions :: "'s loaded_stage list"

type_synonym ('b, 's, 'w, 'a) stage_outcome = "('a result \<times> ('b, 's) stage_cache \<times> 'w) option"

definition has_distributed_capability :: "('b, 's) stage_cache \<Rightarrow> bool" where
  "has_distributed_capability c \<longleftrightarrow> sc_transport c \<and> sc_backends c \<noteq> None"

definition is_local_stage :: "('b, 's) stage_cache \<Rightarrow> stage_assignment \<Rightarrow> bool" where
  "is_local_stage c stage \<longleftrightarrow> sa_node_id stage = sc_local_node_id c"

section \<open>Sessions\<close>

definition stage_load_options :: "stage_assignment \<Rightarrow> load_options" where
  "stage_load_options stage = \<lparr>lo_quantization = sa_quantization stage, lo_stage_ids = sa_stage_ids stage,
     lo_layers = sa_layers stage, lo_execution_profile_id = sa_execution_profile_id stage,
     lo_memory_budget_bytes = sa_reserved_memory_bytes stage, lo_backend_options = []\<rparr>"

text \<open>Acquire the shard (with a model manager) and load it; without a manager there is no session.\<close>

definition load_session ::
  "('b, 's, 'w) stage_env \<Rightarrow> 'b \<Rightarrow> stage_assignment \<Rightarrow> ('b, 's) stage_cache \<Rightarrow> 'w
     \<Rightarrow> 's option result \<times> ('b, 's) stage_cache \<times> 'w" where
  "load_session env backend stage c w =
     (case sc_models c of
        None \<Rightarrow> (Ok None, c, w)
      | Some mm \<Rightarrow>
          (case acquire (se_file_exists env w) (se_file_size env w) stage (se_stop_requested env w) mm of
             (Inl e, mm') \<Rightarrow> (Inl e, c\<lparr>sc_models := Some mm'\<rparr>, w)
           | (Inr lease, mm') \<Rightarrow>
               (case se_load_model env backend lease (stage_load_options stage) w of
                  (Inl e, w') \<Rightarrow> (Inl e, c\<lparr>sc_models := Some mm'\<rparr>, w')
                | (Inr s, w') \<Rightarrow> (Ok (Some s), c\<lparr>sc_models := Some mm'\<rparr>, w'))))"

definition ensure_session_loaded ::
  "('b, 's, 'w) stage_env \<Rightarrow> stage_assignment \<Rightarrow> ('b, 's) stage_cache \<Rightarrow> 'w \<Rightarrow> ('b, 's, 'w, 's option) stage_outcome" where
  "ensure_session_loaded env stage c w =
     (if sc_loaded_sessions c \<noteq> [] \<and> sa_stage_ids stage = [] then None
      else case List.find (\<lambda>ls. ls_stage_id ls = hd (sa_stage_ids stage) \<and> ls_backend ls = sa_backend stage)
             (sc_loaded_sessions c) of
        Some ls \<Rightarrow> Some (Ok (ls_session ls), c, w)
      | None \<Rightarrow>
          (case sc_backends c of
             None \<Rightarrow> Some (Err kUnavailable ''no backend registry'', c, w)
           | Some reg \<Rightarrow>
               (case resolve_backend (sa_backend stage) reg of
                  Inl e \<Rightarrow> Some (Inl e, c, w)
                | Inr backend \<Rightarrow>
                    (case load_session env backend stage c w of
                       (Inl e, c', w') \<Rightarrow> Some (Inl e, c', w')
                     | (Inr s, c', w') \<Rightarrow>
                         if sa_stage_ids stage = [] then None
                         else Some (Ok s, c'\<lparr>sc_loaded_sessions := sc_loaded_sessions c' @
                                [\<lparr>ls_stage_id = hd (sa_stage_ids stage), ls_backend = sa_backend stage,
                                  ls_session = s\<rparr>]\<rparr>, w')))))"

section \<open>Local and remote stages\<close>

definition execute_local_stage ::
  "('b, 's, 'w) stage_env \<Rightarrow> stage_assignment \<Rightarrow> run_request \<Rightarrow> ('b, 's) stage_cache \<Rightarrow> 'w
     \<Rightarrow> ('b, 's, 'w, run_result) stage_outcome" where
  "execute_local_stage env stage run_req c w =
     (case ensure_session_loaded env stage c w of
        None \<Rightarrow> None
      | Some (Inl e, c', w') \<Rightarrow> Some (Inl e, c', w')
      | Some (Inr None, c', w') \<Rightarrow> Some (Ok \<lparr>ro_outputs = [], ro_token_id = None, ro_elapsed_us = 500\<rparr>, c', w')
      | Some (Inr (Some s), c', w') \<Rightarrow>
          (case se_run_layers env s run_req w' of (r, w'') \<Rightarrow> Some (r, c', w'')))"

text \<open>The call and the decoding of its answer, with the encoded input as payload.\<close>

definition remote_call ::
  "('b, 's, 'w) stage_env \<Rightarrow> stage_assignment \<Rightarrow> run_request \<Rightarrow> bytes \<Rightarrow> ('b, 's) stage_cache \<Rightarrow> 'w
     \<Rightarrow> ('b, 's, 'w, run_result) stage_outcome" where
  "remote_call env stage run_req payload c w =
     (let ureq = \<lparr>rq_method = ''RunLayers'', rq_payload = payload, rq_target_node_id = sa_node_id stage,
            rq_deadline = rr_deadline run_req, rq_sequence_number = 0\<rparr>
      in case se_send_unary env (sa_node_id stage @ '':9876'') ureq w of
           None \<Rightarrow> None
         | Some (Inl e, w') \<Rightarrow> Some (Inl e, c, w')
         | Some (Inr resp, w') \<Rightarrow>
             (case decode (se_sha env) (rs_payload resp) of
                None \<Rightarrow> None
              | Some (Inl e) \<Rightarrow> Some (Inl e, c, w')
              | Some (Inr t) \<Rightarrow>
                  Some (Ok \<lparr>ro_outputs = [\<lparr>nt_tensor_id = ''hidden_states'', nt_value = t\<rparr>], ro_token_id = None,
                            ro_elapsed_us = rs_elapsed_us resp\<rparr>, c, w')))"

definition execute_remote_stage ::
  "('b, 's, 'w) stage_env \<Rightarrow> stage_assignment \<Rightarrow> run_request \<Rightarrow> ('b, 's) stage_cache \<Rightarrow> 'w
     \<Rightarrow> ('b, 's, 'w, run_result) stage_outcome" where
  "execute_remote_stage env stage run_req c w =
     (if \<not> sc_transport c then Some (Err kUnavailable ''no transport configured'', c, w)
      else case rr_inputs run_req of
        [] \<Rightarrow> remote_call env stage run_req [] c w
      | x # _ \<Rightarrow>
          (case encode (se_sha env) (nt_value x) of
             None \<Rightarrow> None
           | Some (Inl e) \<Rightarrow> Some (Inl e, c, w)
           | Some (Inr payload) \<Rightarrow> remote_call env stage run_req payload c w))"

definition execute_stage ::
  "('b, 's, 'w) stage_env \<Rightarrow> stage_assignment \<Rightarrow> run_request \<Rightarrow> ('b, 's) stage_cache \<Rightarrow> 'w
     \<Rightarrow> ('b, 's, 'w, run_result) stage_outcome" where
  "execute_stage env stage run_req c w =
     (if is_local_stage c stage then execute_local_stage env stage run_req c w
      else execute_remote_stage env stage run_req c w)"

section \<open>A pass over all stages\<close>

definition stage_run_request ::
  "request_id \<Rightarrow> session_id \<Rightarrow> time_point \<Rightarrow> u64 \<Rightarrow> named_tensor list \<Rightarrow> stage_assignment \<Rightarrow> run_request" where
  "stage_run_request rid sid deadline pos inputs stage =
     \<lparr>rr_request_id = rid, rr_session_id = sid,
      rr_stage_id = (case sa_stage_ids stage of [] \<Rightarrow> [] | s # _ \<Rightarrow> s),
      rr_input_boundary_id = [], rr_output_boundary_id = [], rr_inputs = inputs,
      rr_layers = sa_layers stage, rr_token_position = pos, rr_deadline = deadline\<rparr>"

text \<open>
  The outputs of a stage are moved into the inputs of the next one before the result of the last
  stage is returned; a vector that was moved from is empty.
\<close>

fun execute_pipeline_pass ::
  "('b, 's, 'w) stage_env \<Rightarrow> request_id \<Rightarrow> session_id \<Rightarrow> time_point \<Rightarrow> u64 \<Rightarrow> stage_assignment list
     \<Rightarrow> named_tensor list \<Rightarrow> ('b, 's) stage_cache \<Rightarrow> 'w \<Rightarrow> ('b, 's, 'w, run_result) stage_outcome" where
  "execute_pipeline_pass env rid sid deadline pos [] inputs c w =
     Some (Err kInternal ''pipeline completed without a final stage'', c, w)"
| "execute_pipeline_pass env rid sid deadline pos (stage # stages) inputs c w =
     (if se_stop_requested env w \<or> se_inactive env w
      then Some (Err kCancelled ''cancelled mid-stage'', c, w)
      else case execute_stage env stage (stage_run_request rid sid deadline pos inputs stage) c w of
        None \<Rightarrow> None
      | Some (Inl e, c', w') \<Rightarrow> Some (Inl e, c', w')
      | Some (Inr res, c', w') \<Rightarrow>
          if stages = [] then Some (Ok (res\<lparr>ro_outputs := []\<rparr>), c', w')
          else execute_pipeline_pass env rid sid deadline pos stages (ro_outputs res) c' w')"

section \<open>Specification of a pass\<close>

text \<open>
  \<open>stage_chain stages inputs c w results c' w'\<close>: the stages ran one after the other without
  an interruption in front of any, each on the outputs of the one before it.
\<close>

inductive stage_chain ::
  "('b, 's, 'w) stage_env \<Rightarrow> request_id \<Rightarrow> session_id \<Rightarrow> time_point \<Rightarrow> u64 \<Rightarrow> stage_assignment list
     \<Rightarrow> named_tensor list \<Rightarrow> ('b, 's) stage_cache \<Rightarrow> 'w \<Rightarrow> run_result list \<Rightarrow> ('b, 's) stage_cache \<Rightarrow> 'w \<Rightarrow> bool"
  for env rid sid deadline pos where
  chain_done: "stage_chain env rid sid deadline pos [] inputs c w [] c w"
| chain_stage: "stage_chain env rid sid deadline pos (stage # stages) inputs c w (res # rs) c2 w2"
  if "\<not> se_stop_requested env w" "\<not> se_inactive env w"
    "execute_stage env stage (stage_run_request rid sid deadline pos inputs stage) c w = Some (Ok res, c1, w1)"
    "stage_chain env rid sid deadline pos stages (ro_outputs res) c1 w1 rs c2 w2"

inductive_cases stage_chain_NilE: "stage_chain env rid sid deadline pos [] inputs c w rs c' w'"
inductive_cases stage_chain_ConsE: "stage_chain env rid sid deadline pos (stage # stages) inputs c w rs c' w'"

definition returns_ok :: "('a result \<times> 'c \<times> 'w) option \<Rightarrow> bool" where
  "returns_ok x = (case x of Some (Inr r, _) \<Rightarrow> True | _ \<Rightarrow> False)"

lemma returns_ok_iff: "returns_ok x \<longleftrightarrow> (\<exists>r c w. x = Some (Ok r, c, w))"
  by (cases x; cases "fst (the x)") (auto simp: returns_ok_def)

lemma pass_chain:
  "execute_pipeline_pass env rid sid deadline pos stages inputs c w = Some (Ok r, c', w') \<Longrightarrow>
     \<exists>rs. stage_chain env rid sid deadline pos stages inputs c w rs c' w' \<and> rs \<noteq> [] \<and> r = (last rs)\<lparr>ro_outputs := []\<rparr>"
proof (induction env rid sid deadline pos stages inputs c w rule: execute_pipeline_pass.induct)
  case (2 env rid sid deadline pos stage stages inputs c w)
  then have go: "\<not> se_stop_requested env w" "\<not> se_inactive env w" by (auto simp: Err_def split: if_splits)
  obtain res c1 w1 where res: "execute_stage env stage (stage_run_request rid sid deadline pos inputs stage) c w =
      Some (Ok res, c1, w1)"
    using 2(2) go by (auto split: option.splits sum.splits)
  show ?case
  proof (cases "stages = []")
    case True
    then show ?thesis using 2(2) go res by (intro exI [of _ "[res]"]) (auto intro: stage_chain.intros)
  next
    case False
    then have "execute_pipeline_pass env rid sid deadline pos stages (ro_outputs res) c1 w1 = Some (Ok r, c', w')"
      using 2(2) go res by simp
    then obtain rs where rs: "stage_chain env rid sid deadline pos stages (ro_outputs res) c1 w1 rs c' w'"
      "rs \<noteq> []" "r = (last rs)\<lparr>ro_outputs := []\<rparr>"
      using 2(1) [OF _ res refl refl refl] go False by blast
    with stage_chain.intros(2) [OF go res rs(1)] show ?thesis by (intro exI [of _ "res # rs"]) simp
  qed
qed (simp add: Err_def)

lemma chain_pass:
  "stage_chain env rid sid deadline pos stages inputs c w rs c' w' \<Longrightarrow> stages \<noteq> [] \<Longrightarrow>
     execute_pipeline_pass env rid sid deadline pos stages inputs c w = Some (Ok ((last rs)\<lparr>ro_outputs := []\<rparr>), c', w')"
proof (induction rule: stage_chain.induct)
  case (chain_stage w stage inputs c res c1 w1 stages rs c2 w2)
  then show ?case by (cases "stages = []") (auto elim: stage_chain_NilE stage_chain.cases)
qed simp

section \<open>The session cache\<close>

definition cached :: "('b, 's) stage_cache \<Rightarrow> stage_assignment \<Rightarrow> 's option \<Rightarrow> bool" where
  "cached c stage s \<longleftrightarrow> sa_stage_ids stage \<noteq> [] \<and>
     (\<exists>ls. List.find (\<lambda>ls. ls_stage_id ls = hd (sa_stage_ids stage) \<and> ls_backend ls = sa_backend stage)
        (sc_loaded_sessions c) = Some ls \<and> ls_session ls = s)"

lemma cached_hit: "cached c stage s \<Longrightarrow> ensure_session_loaded env stage c w = Some (Ok s, c, w)"
  by (auto simp: cached_def ensure_session_loaded_def)

lemma load_session_keeps:
  "load_session env backend stage c w = (r, c', w') \<Longrightarrow> sc_loaded_sessions c' = sc_loaded_sessions c"
  by (auto simp: load_session_def split: option.splits prod.splits sum.splits)

lemma ensure_caches:
  assumes "ensure_session_loaded env stage c w = Some (Ok s, c', w')"
  shows "cached c' stage s"
proof (cases "List.find (\<lambda>ls. ls_stage_id ls = hd (sa_stage_ids stage) \<and> ls_backend ls = sa_backend stage)
    (sc_loaded_sessions c)")
  case (Some ls)
  then have "sc_loaded_sessions c \<noteq> []" by auto
  with Some assms show ?thesis by (auto simp: cached_def ensure_session_loaded_def split: if_splits)
next
  case None
  then show ?thesis using assms
    by (auto simp: cached_def ensure_session_loaded_def find_append Err_def dest!: load_session_keeps
        split: if_splits option.splits sum.splits prod.splits)
qed

lemma ensure_keeps:
  assumes "cached c stage s" "ensure_session_loaded env stage2 c w = Some (r, c', w')"
  shows "cached c' stage s"
  using assms
  by (auto simp: cached_def ensure_session_loaded_def find_append dest!: load_session_keeps
      split: if_splits option.splits sum.splits prod.splits)

lemma execute_stage_keeps:
  assumes "cached c stage s" "execute_stage env stage2 rr c w = Some (r, c', w')"
  shows "cached c' stage s"
  using assms ensure_keeps [OF assms(1)]
  by (auto simp: execute_stage_def execute_local_stage_def execute_remote_stage_def remote_call_def Let_def
      split: if_splits option.splits sum.splits prod.splits list.splits)

lemma pass_keeps:
  "cached c stage s \<Longrightarrow> execute_pipeline_pass env rid sid deadline pos stages inputs c w = Some (r, c', w') \<Longrightarrow>
     cached c' stage s"
proof (induction env rid sid deadline pos stages inputs c w rule: execute_pipeline_pass.induct)
  case (2 env rid sid deadline pos stage2 stages inputs c w)
  show ?case
  proof (cases "se_stop_requested env w \<or> se_inactive env w")
    case False
    then obtain r1 c1 w1 where one: "execute_stage env stage2 (stage_run_request rid sid deadline pos inputs stage2) c w =
        Some (r1, c1, w1)"
      using 2(3) by (auto split: option.splits)
    have c1: "cached c1 stage s" by (rule execute_stage_keeps [OF 2(2) one])
    show ?thesis
    proof (cases r1)
      case (Inr res)
      with 2(3) False one c1 2(1) [OF False one refl Inr refl] show ?thesis by (auto split: if_splits)
    qed (use 2(3) False one c1 in auto)
  qed (use 2 in auto)
qed auto

section \<open>Properties\<close>


text \<open>An environment for examples: every call succeeds and returns one output and a token.\<close>

definition example_result :: run_result where
  "example_result = \<lparr>ro_outputs = [\<lparr>nt_tensor_id = ''h'', nt_value = example_tensor\<rparr>],
     ro_token_id = Some 42, ro_elapsed_us = 1\<rparr>"

definition example_env :: "(backend_kind, nat, nat) stage_env" where
  "example_env = \<lparr>se_load_model = \<lambda>b l opts w. (Ok w, w + 1), se_run_layers = \<lambda>s rr w. (Ok example_result, w),
     se_send_unary = \<lambda>target rq w. Some (Err kUnavailable ''down'', w), se_file_exists = \<lambda>w p. True,
     se_file_size = \<lambda>w p. Some 10, se_stop_requested = \<lambda>w. False, se_inactive = \<lambda>w. False,
     se_sha = compute_sha256_fallback\<rparr>"

definition example_cache :: "(backend_kind, nat) stage_cache" where
  "example_cache = \<lparr>sc_transport = True, sc_backends = Some [kLlamaCpp \<mapsto> kLlamaCpp],
     sc_models = Some (new_model_manager ''/m''), sc_local_node_id = ''n'', sc_loaded_sessions = []\<rparr>"

definition example_local_stage :: "string \<Rightarrow> stage_assignment" where
  "example_local_stage s = default_stage\<lparr>sa_node_id := ''n'', sa_shard_id := s, sa_stage_ids := [s],
     sa_artifact := default_artifact\<lparr>ad_uri := s\<rparr>\<rparr>"

lemma example_pass:
  "returns_ok (execute_pipeline_pass example_env ''r'' ''s'' 0 0 [example_local_stage ''a'', example_local_stage ''b''] []
     example_cache 0)"
  by code_simp


text \<open>
  A stage is loaded once: after a session for a stage was obtained, any number of passes later
  the same session is returned again, without touching the cache, the model manager or the world.
\<close>

fun passes ::
  "('b, 's, 'w) stage_env \<Rightarrow> (request_id \<times> session_id \<times> time_point \<times> u64 \<times> stage_assignment list \<times> named_tensor list) list
     \<Rightarrow> ('b, 's) stage_cache \<Rightarrow> 'w \<Rightarrow> (('b, 's) stage_cache \<times> 'w) option" where
  "passes env [] c w = Some (c, w)"
| "passes env ((rid, sid, dl, pos, stages, inputs) # calls) c w =
     (case execute_pipeline_pass env rid sid dl pos stages inputs c w of
        None \<Rightarrow> None
      | Some (r, c', w') \<Rightarrow> passes env calls c' w')"

lemma passes_keep: "cached c stage s \<Longrightarrow> passes env calls c w = Some (c', w') \<Longrightarrow> cached c' stage s"
  by (induction env calls c w rule: passes.induct) (auto split: option.splits dest: pass_keeps)

theorem session_loaded_once:
  assumes "ensure_session_loaded env stage c w = Some (Ok s, c1, w1)" "passes env calls c1 w1 = Some (c2, w2)"
  shows "ensure_session_loaded env stage c2 w3 = Some (Ok s, c2, w3)"
  by (rule cached_hit, rule passes_keep [OF ensure_caches [OF assms(1)] assms(2)])

theorem session_loaded_once_witness:
  "\<exists>s c1 w1. ensure_session_loaded example_env (example_local_stage ''a'') example_cache 0 = Some (Ok s, c1, w1) \<and>
     ensure_session_loaded example_env (example_local_stage ''a'') c1 9 = Some (Ok s, c1, 9)"
proof -
  have "returns_ok (ensure_session_loaded example_env (example_local_stage ''a'') example_cache 0)" by code_simp
  then obtain s c1 w1 where
    "ensure_session_loaded example_env (example_local_stage ''a'') example_cache 0 = Some (Ok s, c1, w1)"
    unfolding returns_ok_iff by blast
  with session_loaded_once [OF this, of "[]"] show ?thesis by auto
qed

text \<open>
  What a remote stage returns. When the peer answers with the encoding of a tensor, the stage
  gives its data to the next one exactly when the last eight bytes of the digest happen to spell
  the size of the data, as in the codec.
\<close>

theorem remote_stage_result:
  assumes "digest (se_sha env)" "encode (se_sha env) t = Some (Ok wire)" "length wire < 2 ^ 64"
    and "sc_transport c" "rr_inputs rr = []"
    and "\<And>rq. se_send_unary env (sa_node_id stage @ '':9876'') rq w = Some (Ok \<lparr>rs_payload = wire, rs_elapsed_us = us\<rparr>, w')"
  shows "(\<exists>res. execute_remote_stage env stage rr c w = Some (Ok res, c, w') \<and>
       map (\<lambda>x. tn_data (nt_value x)) (ro_outputs res) = [tn_data t]) \<longleftrightarrow>
     le_value (drop 24 (se_sha env (tn_data t))) = length (tn_data t)"
proof
  assume "le_value (drop 24 (se_sha env (tn_data t))) = length (tn_data t)"
  from decode_own_frame [OF assms(2,1,3) this] assms(4,5,6)
  show "\<exists>res. execute_remote_stage env stage rr c w = Some (Ok res, c, w') \<and>
      map (\<lambda>x. tn_data (nt_value x)) (ro_outputs res) = [tn_data t]"
    by (auto simp: execute_remote_stage_def remote_call_def Let_def)
next
  assume "\<exists>res. execute_remote_stage env stage rr c w = Some (Ok res, c, w') \<and>
      map (\<lambda>x. tn_data (nt_value x)) (ro_outputs res) = [tn_data t]"
  then obtain t' where "decode (se_sha env) wire = Some (Ok t')" "tn_data t' = tn_data t"
    using assms(4,5,6)
    by (auto simp: execute_remote_stage_def remote_call_def Let_def split: option.splits sum.splits)
  then show "le_value (drop 24 (se_sha env (tn_data t))) = length (tn_data t)"
    by (rule own_frame_size [OF assms(2,1)])
qed

definition echo_env :: "bytes \<Rightarrow> (backend_kind, nat, nat) stage_env" where
  "echo_env wire = example_env\<lparr>se_send_unary := \<lambda>target rq w. Some (Ok \<lparr>rs_payload = wire, rs_elapsed_us = 500\<rparr>, w)\<rparr>"

theorem remote_stage_result_witness:
  "\<exists>wire. encode compute_sha256_fallback example_tensor = Some (Ok wire) \<and>
     \<not> (\<exists>res. execute_remote_stage (echo_env wire) (example_local_stage ''x'')
          (stage_run_request ''r'' ''s'' 0 0 [] (example_local_stage ''x'')) example_cache 0 = Some (Ok res, example_cache, 0) \<and>
        map (\<lambda>x. tn_data (nt_value x)) (ro_outputs res) = [tn_data example_tensor])"
proof -
  have "case encode compute_sha256_fallback example_tensor of Some (Inr w) \<Rightarrow> length w = 66 | _ \<Rightarrow> False"
    by code_simp
  then obtain wire where enc: "encode compute_sha256_fallback example_tensor = Some (Ok wire)" "length wire = 66"
    by (auto split: option.splits sum.splits)
  have sha: "se_sha (echo_env wire) = compute_sha256_fallback" by (simp add: echo_env_def example_env_def)
  have "le_value (drop 24 (compute_sha256_fallback (tn_data example_tensor))) \<noteq> length (tn_data example_tensor)"
    by code_simp
  with remote_stage_result [of "echo_env wire" example_tensor wire example_cache
      "stage_run_request ''r'' ''s'' 0 0 [] (example_local_stage ''x'')" "example_local_stage ''x''" 0 500 0]
    enc fallback.digest_axioms show ?thesis
    by (simp add: sha) (simp add: echo_env_def example_cache_def stage_run_request_def)
qed

end
