(* ===== verification/Pipeline.thy ===== *)
theory Pipeline
  imports Stages Store "HOL-Library.AList"
begin

text \<open>
  Admission, batching, generation and recovery of \<^verbatim>\<open>src/pipeline/inference_pipeline.cpp\<close>. The
  requests that the threads share by pointer are the entries of a list; queue entries, worker
  threads and the table of active requests refer to them by index. Every method is atomic, and so
  is every iteration of a worker's loop; what happens in between is any sequence of such steps.
  Events carry the index of the request whose callback received them. The outer \<open>None\<close> is
  \<open>std::terminate\<close>, from assigning to a thread that is still joinable.
\<close>

section \<open>Requests and events\<close>

record generation_options =
  go_maximum_new_tokens :: u32
  go_context_window :: u32
  go_temperature :: double
  go_top_p :: double
  go_seed :: "u64 option"

record inference_request =
  iq_request_id :: request_id
  iq_session_id :: session_id
  iq_model_id :: model_id
  iq_prompt :: string
  iq_generation :: generation_options
  iq_deadline :: time_point

datatype batching_mode = kImmediate | kSerial | kAdaptive

record batching_config =
  bc_mode :: batching_mode
  bc_max_batch_size :: u32
  bc_batch_timeout :: int
  bc_long_context_threshold :: u32

definition default_batching :: batching_config where
  "default_batching = \<lparr>bc_mode = kImmediate, bc_max_batch_size = 4, bc_batch_timeout = 5,
     bc_long_context_threshold = 4096\<rparr>"

datatype stream_event_kind = kStarted | kToken | kReplanningEvent | kCompleted | kFailed | kQueued

record stream_event =
  ev_kind :: stream_event_kind
  ev_request_id :: request_id
  ev_sequence :: u64
  ev_text_delta :: string
  ev_token_id :: "i32 option"
  ev_error :: "runtime_error option"
  ev_metadata :: attributes

definition event_of :: "stream_event_kind \<Rightarrow> request_id \<Rightarrow> u64 \<Rightarrow> stream_event" where
  "event_of kind rid seqno = \<lparr>ev_kind = kind, ev_request_id = rid, ev_sequence = seqno, ev_text_delta = [],
     ev_token_id = None, ev_error = None, ev_metadata = []\<rparr>"

text \<open>\<open>ar_cancel\<close> is the cancellation token that the handle and the worker of a request share.\<close>

record active_request =
  ar_request :: inference_request
  ar_plan :: pipeline_plan
  ar_callback :: bool
  ar_active :: bool
  ar_tokens_emitted :: u64
  ar_next_expected_position :: u64
  ar_token_history :: "token_record list"
  ar_cancel :: nat

abbreviation ar_id :: "active_request \<Rightarrow> request_id" where
  "ar_id ar \<equiv> iq_request_id (ar_request ar)"

record queued_request =
  qr_state :: nat
  qr_context_window :: u32

definition is_long_context :: "batching_config \<Rightarrow> queued_request \<Rightarrow> bool" where
  "is_long_context cfg qr \<longleftrightarrow> qr_context_window qr > bc_long_context_threshold cfg"

text \<open>A worker thread inside its loop: the request it serves, the loop that \<open>run_generation\<close> chose, the next position.\<close>

datatype worker_mode = Distributed | Local | Simulated

record worker =
  wk_state :: nat
  wk_mode :: worker_mode
  wk_pos :: u64

text \<open>
  The dispatcher thread outside its critical section: it holds nothing, a request to run alone, or
  a batch that it will complete with the configuration it has read.
\<close>

datatype dispatcher =
    Idle
  | Solo queued_request
  | Collecting batching_config "queued_request list"

record pipeline =
  pi_distributed :: bool
  pi_llama :: bool
  pi_production_mode :: bool
  pi_local_node_id :: node_id
  pi_states :: "active_request list"
  pi_active_requests :: "(string \<times> nat) list"
  pi_workers :: "(string \<times> nat) list"
  pi_threads :: "worker list"
  pi_queue :: "queued_request list"
  pi_batching :: batching_config
  pi_dispatcher_running :: bool
  pi_dispatcher :: dispatcher
  pi_stopped :: "nat list"

type_synonym pipeline_event = "nat \<times> stream_event"
type_synonym 'a pipeline_outcome = "('a result \<times> pipeline \<times> pipeline_event list) option"

text \<open>\<open>distributed\<close> says whether transport and backend registry exist, \<open>llama\<close> whether the build has llama.cpp.\<close>

definition new_pipeline :: "bool \<Rightarrow> bool \<Rightarrow> pipeline" where
  "new_pipeline distributed llama = \<lparr>pi_distributed = distributed, pi_llama = llama, pi_production_mode = False,
     pi_local_node_id = [], pi_states = [], pi_active_requests = [], pi_workers = [], pi_threads = [],
     pi_queue = [], pi_batching = default_batching, pi_dispatcher_running = True, pi_dispatcher = Idle, pi_stopped = []\<rparr>"

definition set_production_mode :: "bool \<Rightarrow> pipeline \<Rightarrow> pipeline" where
  "set_production_mode enabled p = p\<lparr>pi_production_mode := enabled\<rparr>"

definition set_batching_config :: "batching_config \<Rightarrow> pipeline \<Rightarrow> pipeline" where
  "set_batching_config config p = p\<lparr>pi_batching := config\<rparr>"

definition set_local_node_id :: "node_id \<Rightarrow> pipeline \<Rightarrow> pipeline" where
  "set_local_node_id n p = p\<lparr>pi_local_node_id := n\<rparr>"

section \<open>Emission\<close>

text \<open>An event reaches the caller when the request still has a callback.\<close>

definition emit :: "nat \<Rightarrow> active_request \<Rightarrow> stream_event \<Rightarrow> pipeline_event list" where
  "emit k ar ev = (if ar_callback ar then [(k, ev)] else [])"

definition emit_queued :: "nat \<Rightarrow> active_request \<Rightarrow> pipeline_event list" where
  "emit_queued k ar = emit k ar (event_of kQueued (ar_id ar) 0)"

definition emit_started :: "nat \<Rightarrow> active_request \<Rightarrow> pipeline_event list" where
  "emit_started k ar = emit k ar (event_of kStarted (ar_id ar) 0)"

definition emit_token :: "nat \<Rightarrow> active_request \<Rightarrow> u64 \<Rightarrow> i32 \<Rightarrow> string \<Rightarrow> pipeline_event list" where
  "emit_token k ar seqno token_id piece =
     emit k ar ((event_of kToken (ar_id ar) seqno)\<lparr>ev_token_id := Some token_id, ev_text_delta := piece\<rparr>)"

definition emit_terminal :: "nat \<Rightarrow> active_request \<Rightarrow> bool \<Rightarrow> pipeline_event list" where
  "emit_terminal k ar success =
     emit k ar (event_of (if success then kCompleted else kFailed) (ar_id ar) (ar_tokens_emitted ar))"

section \<open>Worker loops\<close>

text \<open>
  One iteration: the request afterwards, the events, and the next position (\<open>None\<close> when the loop
  has ended). The guard is the loop condition with the check at the head of the body.
\<close>

definition loop_continues :: "bool \<Rightarrow> active_request \<Rightarrow> u64 \<Rightarrow> bool" where
  "loop_continues stop ar pos \<longleftrightarrow>
     pos < ucast (go_maximum_new_tokens (iq_generation (ar_request ar))) \<and> ar_active ar \<and> \<not> stop"

definition record_token :: "u64 \<Rightarrow> i32 \<Rightarrow> active_request \<Rightarrow> active_request" where
  "record_token pos token_id ar =
     ar\<lparr>ar_token_history := ar_token_history ar @ [\<lparr>tk_request_id = ar_id ar,
            tk_session_id = iq_session_id (ar_request ar), tk_position = pos, tk_token_id = token_id\<rparr>],
        ar_next_expected_position := pos + 1,
        ar_tokens_emitted := ar_tokens_emitted ar + 1\<rparr>"

text \<open>\<open>static_cast<std::int32_t>(i)\<close>.\<close>

definition token_of_pos :: "u64 \<Rightarrow> i32" where
  "token_of_pos pos = sint (ucast pos :: u32)"

definition run_generation_simulated ::
  "nat \<Rightarrow> bool \<Rightarrow> active_request \<Rightarrow> u64 \<Rightarrow> active_request \<times> pipeline_event list \<times> u64 option" where
  "run_generation_simulated k stop ar pos =
     (if loop_continues stop ar pos then
        (record_token pos (token_of_pos pos) ar,
         emit_token k ar pos (token_of_pos pos) (''tok:'' @ to_string pos), Some (pos + 1))
      else (ar, emit_terminal k ar (ar_active ar), None))"

text \<open>\<open>pass\<close> is what \<open>execute_pipeline_pass\<close> returned at this position.\<close>

definition run_generation_distributed ::
  "nat \<Rightarrow> bool \<Rightarrow> run_result result \<Rightarrow> active_request \<Rightarrow> u64 \<Rightarrow> active_request \<times> pipeline_event list \<times> u64 option" where
  "run_generation_distributed k stop pass ar pos =
     (if loop_continues stop ar pos then
        (case pass of
           Inl e \<Rightarrow> (ar\<lparr>ar_active := False\<rparr>,
                    emit k ar ((event_of kFailed (ar_id ar) (ar_tokens_emitted ar))\<lparr>ev_error := Some e\<rparr>), None)
         | Inr res \<Rightarrow>
             (let token_id = (case ro_token_id res of Some t \<Rightarrow> t | None \<Rightarrow> token_of_pos pos) in
              (record_token pos token_id ar, emit_token k ar pos token_id (''tok:'' @ to_string pos), Some (pos + 1))))
      else (ar, emit_terminal k ar (ar_active ar), None))"

text \<open>
  An iteration with llama.cpp: the model could not be set up (\<open>LocalFail\<close>), there is nothing more
  to sample (\<open>LocalStop\<close>), or a token was sampled, with its text when it has one, and decoding it
  succeeded or not. The counters of the request are not touched.
\<close>

datatype local_iteration = LocalFail | LocalStop | LocalToken i32 "string option" bool

definition run_generation_local ::
  "nat \<Rightarrow> bool \<Rightarrow> local_iteration \<Rightarrow> active_request \<Rightarrow> u64 \<Rightarrow> active_request \<times> pipeline_event list \<times> u64 option" where
  "run_generation_local k stop it ar pos =
     (if it = LocalFail then (ar, emit_terminal k ar False, None)
      else if \<not> loop_continues stop ar pos then (ar, emit_terminal k ar (ar_active ar), None)
      else case it of
        LocalToken tok piece decoded \<Rightarrow>
          (let evs = (case piece of None \<Rightarrow> [] | Some s \<Rightarrow> emit_token k ar pos tok s) in
           if decoded then (ar, evs, Some (pos + 1))
           else (ar, evs @ emit_terminal k ar (ar_active ar), None))
      | _ \<Rightarrow> (ar, emit_terminal k ar (ar_active ar), None))"

definition generation_mode :: "pipeline \<Rightarrow> active_request \<Rightarrow> worker_mode" where
  "generation_mode p ar =
     (if pi_distributed p \<and> length (pp_stages (ar_plan ar)) > 1 then Distributed
      else if pi_llama p \<and> length (pp_stages (ar_plan ar)) = 1 then Local
      else Simulated)"

text \<open>One iteration of the \<open>j\<close>-th worker; a worker whose loop has ended removes its thread from the table.\<close>

definition worker_step ::
  "nat \<Rightarrow> run_result result \<Rightarrow> local_iteration \<Rightarrow> pipeline \<Rightarrow> pipeline \<times> pipeline_event list" where
  "worker_step j pass it p =
     (if j < length (pi_threads p) then
        (let wk = pi_threads p ! j; k = wk_state wk; ar = pi_states p ! k;
             stop = (ar_cancel ar \<in> set (pi_stopped p));
             (ar', evs, next_pos) =
               (case wk_mode wk of
                  Simulated \<Rightarrow> run_generation_simulated k stop ar (wk_pos wk)
                | Distributed \<Rightarrow> run_generation_distributed k stop pass ar (wk_pos wk)
                | Local \<Rightarrow> run_generation_local k stop it ar (wk_pos wk));
             p' = p\<lparr>pi_states := (pi_states p)[k := ar']\<rparr>
         in case next_pos of
              Some pos \<Rightarrow> (p'\<lparr>pi_threads := (pi_threads p)[j := wk\<lparr>wk_pos := pos\<rparr>]\<rparr>, evs)
            | None \<Rightarrow> (p'\<lparr>pi_threads := take j (pi_threads p) @ drop (Suc j) (pi_threads p),
                          pi_workers := AList.delete (ar_id ar) (pi_workers p)\<rparr>, evs))
      else (p, []))"

definition launch_worker :: "nat \<Rightarrow> pipeline \<Rightarrow> pipeline option" where
  "launch_worker k p =
     (let ar = pi_states p ! k in
      if map_of (pi_workers p) (ar_id ar) \<noteq> None then None
      else Some (p\<lparr>pi_threads := pi_threads p @ [\<lparr>wk_state = k, wk_mode = generation_mode p ar, wk_pos = 0\<rparr>],
                   pi_workers := AList.update (ar_id ar) k (pi_workers p)\<rparr>))"

section \<open>Admission\<close>

definition generate ::
  "inference_request \<Rightarrow> pipeline_plan \<Rightarrow> bool \<Rightarrow> nat \<Rightarrow> pipeline \<Rightarrow> nat pipeline_outcome" where
  "generate request plan callback token p =
     (if token \<in> set (pi_stopped p) then Some (Err kCancelled ''generation cancelled'', p, [])
      else if pp_stages plan = [] then Some (Err kInvalidArgument ''plan has no stages'', p, [])
      else if pi_production_mode p \<and> \<not> pi_distributed p
      then Some (Err kUnavailable
             ''production mode: transport and backends required - node cannot participate in inference'', p, [])
      else
        let k = length (pi_states p);
            ar = \<lparr>ar_request = request, ar_plan = plan, ar_callback = callback, ar_active = True,
                  ar_tokens_emitted = 0, ar_next_expected_position = 0, ar_token_history = [], ar_cancel = token\<rparr>;
            p1 = p\<lparr>pi_states := pi_states p @ [ar],
                   pi_active_requests := AList.update (iq_request_id request) k (pi_active_requests p)\<rparr>
        in if bc_mode (pi_batching p) = kImmediate
           then map_option (\<lambda>p2. (Ok k, p2, emit_started k ar)) (launch_worker k p1)
           else Some (Ok k, p1\<lparr>pi_queue := pi_queue p @
                  [\<lparr>qr_state = k, qr_context_window = go_context_window (iq_generation request)\<rparr>]\<rparr>,
                  emit_queued k ar))"

text \<open>The two handles: \<open>cancel\<close> of a request that was started at once, and of one that was queued.\<close>

definition cancel_handle :: "nat \<Rightarrow> pipeline \<Rightarrow> pipeline" where
  "cancel_handle k p = p\<lparr>pi_stopped := ar_cancel (pi_states p ! k) # pi_stopped p,
     pi_states := (pi_states p)[k := (pi_states p ! k)\<lparr>ar_active := False\<rparr>]\<rparr>"

definition remove_queued :: "request_id \<Rightarrow> pipeline \<Rightarrow> pipeline \<times> pipeline_event list" where
  "remove_queued rid p =
     (case List.find (\<lambda>i. ar_id (pi_states p ! qr_state (pi_queue p ! i)) = rid) [0 ..< length (pi_queue p)] of
        None \<Rightarrow> (p, [])
      | Some i \<Rightarrow>
          (let k = qr_state (pi_queue p ! i); ar = pi_states p ! k in
           (p\<lparr>pi_queue := take i (pi_queue p) @ drop (Suc i) (pi_queue p)\<rparr>,
            emit k ar ((event_of kFailed (ar_id ar) 0)\<lparr>ev_error :=
              Some \<lparr>err_code = kCancelled, err_message = ''cancelled while queued''\<rparr>\<rparr>))))"

definition cancel_queued_handle :: "nat \<Rightarrow> pipeline \<Rightarrow> pipeline \<times> pipeline_event list" where
  "cancel_queued_handle k p = remove_queued (ar_id (pi_states p ! k)) (cancel_handle k p)"

section \<open>The dispatcher\<close>

text \<open>The inner loop: move short requests from the front of the queue into the batch, dropping inactive ones.\<close>

fun collect_batch ::
  "batching_config \<Rightarrow> active_request list \<Rightarrow> queued_request list \<Rightarrow> queued_request list
     \<Rightarrow> queued_request list \<times> queued_request list" where
  "collect_batch cfg states [] batch = (batch, [])"
| "collect_batch cfg states (qr # queue) batch =
     (if length batch \<ge> unat (bc_max_batch_size cfg) \<or> is_long_context cfg qr then (batch, qr # queue)
      else if \<not> ar_active (states ! qr_state qr) then collect_batch cfg states queue batch
      else collect_batch cfg states queue (batch @ [qr]))"

fun dispatch_batch :: "queued_request list \<Rightarrow> pipeline \<Rightarrow> (pipeline \<times> pipeline_event list) option" where
  "dispatch_batch [] p = Some (p, [])"
| "dispatch_batch (qr # batch) p =
     (let k = qr_state qr; ar = pi_states p ! k in
      if \<not> ar_active ar then dispatch_batch batch p
      else case launch_worker k p of
        None \<Rightarrow> None
      | Some p1 \<Rightarrow>
          (case dispatch_batch batch p1 of
             None \<Rightarrow> None
           | Some (p2, evs) \<Rightarrow> Some (p2, emit_started k ar @ evs)))"

text \<open>
  The critical section of \<open>dispatcher_loop\<close> up to the wait for more requests. A round that finds
  nothing to hold goes back to the beginning of the loop.
\<close>

definition dispatcher_take :: "pipeline \<Rightarrow> pipeline" where
  "dispatcher_take p =
     (if pi_dispatcher p \<noteq> Idle \<or> \<not> pi_dispatcher_running p then p
      else case pi_queue p of
        [] \<Rightarrow> p
      | first # rest \<Rightarrow>
          (case bc_mode (pi_batching p) of
             kImmediate \<Rightarrow> p
           | kSerial \<Rightarrow> p\<lparr>pi_queue := rest, pi_dispatcher := Solo first\<rparr>
           | kAdaptive \<Rightarrow>
               if is_long_context (pi_batching p) first then p\<lparr>pi_queue := rest, pi_dispatcher := Solo first\<rparr>
               else case collect_batch (pi_batching p) (pi_states p) (pi_queue p) [] of
                 (batch, queue) \<Rightarrow>
                   p\<lparr>pi_queue := queue,
                     pi_dispatcher := (if batch = [] then Idle else Collecting (pi_batching p) batch)\<rparr>))"

text \<open>After the wait: complete the batch from what has arrived meanwhile, and dispatch.\<close>

definition dispatcher_flush :: "pipeline \<Rightarrow> (pipeline \<times> pipeline_event list) option" where
  "dispatcher_flush p =
     (case pi_dispatcher p of
        Idle \<Rightarrow> Some (p, [])
      | Solo qr \<Rightarrow> dispatch_batch [qr] (p\<lparr>pi_dispatcher := Idle\<rparr>)
      | Collecting cfg batch \<Rightarrow>
          (case collect_batch cfg (pi_states p) (pi_queue p) batch of
             (batch', queue) \<Rightarrow> dispatch_batch batch' (p\<lparr>pi_queue := queue, pi_dispatcher := Idle\<rparr>)))"

text \<open>
  The end of \<open>generate\<close> for a queued request: the handle is made from the entry at the back of the
  queue, which is read after the lock was released. \<open>None\<close> is \<open>back()\<close> of an empty queue.
\<close>

definition queued_handle :: "pipeline \<Rightarrow> nat option" where
  "queued_handle p = (if pi_queue p = [] then None else Some (qr_state (last (pi_queue p))))"

section \<open>Recovery\<close>

fun replay_events :: "nat \<Rightarrow> active_request \<Rightarrow> request_id \<Rightarrow> u64 \<Rightarrow> token_record list \<Rightarrow> pipeline_event list" where
  "replay_events k ar rid i [] = []"
| "replay_events k ar rid i (rec # recs) =
     emit k ar ((event_of kToken rid i)\<lparr>ev_text_delta := ''replay:'' @ to_string i, ev_token_id := Some (tk_token_id rec)\<rparr>)
       @ replay_events k ar rid (i + 1) recs"

definition replan :: "request_id \<Rightarrow> pipeline_plan \<Rightarrow> pipeline \<Rightarrow> bool result \<times> pipeline \<times> pipeline_event list" where
  "replan rid replacement p =
     (case map_of (pi_active_requests p) rid of
        None \<Rightarrow> (Err kNotFound ''request not found'', p, [])
      | Some k \<Rightarrow>
          (let ar = pi_states p ! k in
           if lf_term (pp_fence replacement) \<le> lf_term (pp_fence (ar_plan ar))
           then (Err kFailedPrecondition ''replacement plan has stale fence'', p, [])
           else
             (let ar' = ar\<lparr>ar_plan := replacement, ar_active := True\<rparr> in
              (Ok True, p\<lparr>pi_states := (pi_states p)[k := ar']\<rparr>,
               emit k ar ((event_of kReplanningEvent rid (ar_tokens_emitted ar))\<lparr>ev_metadata :=
                 [(''replacement_plan_id'', pp_plan_id replacement)]\<rparr>) @
               replay_events k ar rid 0 (ar_token_history ar) @
               emit k ar (event_of kCompleted rid (ar_tokens_emitted ar))))))"

definition affected :: "node_id \<Rightarrow> active_request \<Rightarrow> bool" where
  "affected lost ar \<longleftrightarrow> (\<exists>stage \<in> set (pp_stages (ar_plan ar)). sa_node_id stage = lost)"

text \<open>The table of active requests is visited in some order; each request is in it at most once.\<close>

definition detect_node_loss :: "node_id \<Rightarrow> pipeline \<Rightarrow> pipeline \<times> pipeline_event list" where
  "detect_node_loss lost p =
     fold (\<lambda>(rid, k) (p, evs).
        let ar = pi_states p ! k in
        if affected lost ar then
          (p\<lparr>pi_states := (pi_states p)[k := ar\<lparr>ar_active := False\<rparr>]\<rparr>,
           evs @ emit k ar ((event_of kReplanningEvent (ar_id ar) 0)\<lparr>ev_metadata := [(''lost_node'', lost)]\<rparr>))
        else (p, evs)) (pi_active_requests p) (p, [])"

definition active_generation_count :: "pipeline \<Rightarrow> nat" where
  "active_generation_count p =
     length (filter (\<lambda>(rid, k). ar_active (pi_states p ! k) \<and> ar_tokens_emitted (pi_states p ! k) > 0)
       (pi_active_requests p)) +
     length (filter (\<lambda>(rid, t). map_of (pi_active_requests p) rid \<noteq> None) (pi_workers p))"

definition queued_request_count :: "pipeline \<Rightarrow> nat" where
  "queued_request_count p = length (pi_queue p)"

text \<open>The destructor: the dispatcher stops, callbacks are dropped, the queue is cleared, workers are joined.\<close>

definition shutdown_request :: "nat list \<Rightarrow> nat \<Rightarrow> active_request \<Rightarrow> active_request" where
  "shutdown_request ks k ar = (if k \<in> set ks then ar\<lparr>ar_callback := False, ar_active := False\<rparr> else ar)"

definition shutdown :: "pipeline \<Rightarrow> pipeline" where
  "shutdown p =
     (let ks = map snd (pi_active_requests p) @ map qr_state (pi_queue p) in
      p\<lparr>pi_dispatcher_running := False, pi_dispatcher := Idle, pi_queue := [], pi_workers := [],
        pi_states := map (\<lambda>(k, ar). shutdown_request ks k ar) (enumerate 0 (pi_states p))\<rparr>)"

section \<open>Calls and runs\<close>

datatype pipeline_call =
    Generate inference_request pipeline_plan bool nat
  | Cancel nat
  | CancelQueued nat
  | Replan request_id pipeline_plan
  | NodeLoss node_id
  | DispatcherTake
  | DispatcherFlush
  | WorkerStep nat "run_result result" local_iteration
  | SetBatching batching_config
  | SetProduction bool
  | SetLocalNode node_id
  | Shutdown

fun pi_perform :: "pipeline_call \<Rightarrow> pipeline \<Rightarrow> (pipeline \<times> pipeline_event list) option" where
  "pi_perform (Generate rq plan cb tok) p = map_option snd (generate rq plan cb tok p)"
| "pi_perform (Cancel k) p = Some (if k < length (pi_states p) then (cancel_handle k p, []) else (p, []))"
| "pi_perform (CancelQueued k) p = Some (if k < length (pi_states p) then cancel_queued_handle k p else (p, []))"
| "pi_perform (Replan rid plan) p = Some (snd (replan rid plan p))"
| "pi_perform (NodeLoss n) p = Some (detect_node_loss n p)"
| "pi_perform DispatcherTake p = Some (dispatcher_take p, [])"
| "pi_perform DispatcherFlush p = dispatcher_flush p"
| "pi_perform (WorkerStep j pass it) p = Some (worker_step j pass it p)"
| "pi_perform (SetBatching cfg) p = Some (set_batching_config cfg p, [])"
| "pi_perform (SetProduction b) p = Some (set_production_mode b p, [])"
| "pi_perform (SetLocalNode n) p = Some (set_local_node_id n p, [])"
| "pi_perform Shutdown p = Some (shutdown p, [])"

fun pi_run :: "pipeline_call list \<Rightarrow> pipeline \<Rightarrow> (pipeline \<times> pipeline_event list) option" where
  "pi_run [] p = Some (p, [])"
| "pi_run (c # cs) p =
     (case pi_perform c p of
        None \<Rightarrow> None
      | Some (p1, evs) \<Rightarrow>
          (case pi_run cs p1 of None \<Rightarrow> None | Some (p2, evs2) \<Rightarrow> Some (p2, evs @ evs2)))"

fun is_replan :: "pipeline_call \<Rightarrow> bool" where
  "is_replan (Replan rid plan) = True"
| "is_replan c = False"

section \<open>The protocol of an event stream\<close>

text \<open>
  What the interface promises about the events of one request, as an automaton: it is queued or
  started, delivers tokens with increasing sequence numbers, and ends with one terminal event. A
  replanning event may come at any time.
\<close>

datatype phase = Fresh | Open u64 | Closed

fun terminal_kind :: "stream_event_kind \<Rightarrow> bool" where
  "terminal_kind kCompleted = True"
| "terminal_kind kFailed = True"
| "terminal_kind _ = False"

fun advance :: "phase \<Rightarrow> stream_event \<Rightarrow> phase option" where
  "advance ph ev =
     (case ev_kind ev of
        kQueued \<Rightarrow> (if ph = Fresh then Some Fresh else None)
      | kStarted \<Rightarrow> (if ph = Fresh then Some (Open 0) else None)
      | kToken \<Rightarrow> (case ph of Open n \<Rightarrow> if n \<le> ev_sequence ev then Some (Open (ev_sequence ev + 1)) else None | _ \<Rightarrow> None)
      | kReplanningEvent \<Rightarrow> Some ph
      | _ \<Rightarrow> (if ph = Closed then None else Some Closed))"

fun advance_all :: "phase \<Rightarrow> stream_event list \<Rightarrow> phase option" where
  "advance_all ph [] = Some ph"
| "advance_all ph (ev # evs) = (case advance ph ev of None \<Rightarrow> None | Some ph' \<Rightarrow> advance_all ph' evs)"

definition events_of :: "nat \<Rightarrow> pipeline_event list \<Rightarrow> stream_event list" where
  "events_of k evs = map snd (filter (\<lambda>e. fst e = k) evs)"

definition stream_ok :: "stream_event list \<Rightarrow> bool" where
  "stream_ok evs \<longleftrightarrow> advance_all Fresh evs \<noteq> None"

end
