(* ===== verification/Protocol.thy ===== *)
theory Protocol
  imports Pipeline
begin

text \<open>
  Theorems about the inference pipeline. A request is waiting, running at a position or gone; the
  relation \<open>slot_step\<close> says which events may accompany a move, and every operation of the pipeline is
  shown to be such a step for each request. From this the protocol of the event streams follows by
  induction over the calls. The other theorems treat the end of a generation, batching and recovery.
\<close>

section \<open>Lists\<close>

lemma set_remove_nth:
  assumes "distinct xs" "j < length xs"
  shows "set (take j xs @ drop (Suc j) xs) = set xs - {xs ! j}" "distinct (take j xs @ drop (Suc j) xs)"
proof -
  have split: "xs = take j xs @ xs ! j # drop (Suc j) xs" using assms(2) by (rule id_take_nth_drop)
  then have "distinct (take j xs @ xs ! j # drop (Suc j) xs)" using assms(1) by simp
  then show "distinct (take j xs @ drop (Suc j) xs)" "set (take j xs @ drop (Suc j) xs) = set xs - {xs ! j}"
    using arg_cong [OF split, of set] by auto
qed

lemma events_of_simps [simp]:
  "events_of k [] = []" "events_of k (e # es) = (if fst e = k then [snd e] else []) @ events_of k es"
  "events_of k (es @ fs) = events_of k es @ events_of k fs"
  by (simp_all add: events_of_def)

lemma events_of_emit [simp]: "events_of k (emit j ar ev) = (if j = k \<and> ar_callback ar then [ev] else [])"
  by (simp add: emit_def)

lemma advance_all_append:
  "advance_all ph (xs @ ys) = (case advance_all ph xs of None \<Rightarrow> None | Some ph' \<Rightarrow> advance_all ph' ys)"
  by (induction ph xs rule: advance_all.induct) (auto split: option.splits)

section \<open>Where a request is\<close>

datatype slot = Waiting | RunningAt u64 | Gone

fun held :: "dispatcher \<Rightarrow> queued_request list" where
  "held Idle = []"
| "held (Solo qr) = [qr]"
| "held (Collecting cfg batch) = batch"

definition waiting_states :: "pipeline \<Rightarrow> nat list" where
  "waiting_states p = map qr_state (held (pi_dispatcher p) @ pi_queue p)"

definition thread_states :: "pipeline \<Rightarrow> nat list" where
  "thread_states p = map wk_state (pi_threads p)"

fun at_slot :: "pipeline \<Rightarrow> nat \<Rightarrow> slot \<Rightarrow> bool" where
  "at_slot p k Waiting \<longleftrightarrow> k \<in> set (waiting_states p)"
| "at_slot p k (RunningAt pos) \<longleftrightarrow> (\<exists>wk \<in> set (pi_threads p). wk_state wk = k \<and> wk_pos wk = pos)"
| "at_slot p k Gone \<longleftrightarrow> k \<notin> set (waiting_states p) \<and> k \<notin> set (thread_states p)"

definition pipeline_wf :: "pipeline \<Rightarrow> bool" where
  "pipeline_wf p \<longleftrightarrow> distinct (waiting_states p @ thread_states p) \<and>
     (\<forall>k \<in> set (waiting_states p @ thread_states p) \<union> snd ` set (pi_active_requests p). k < length (pi_states p))"

text \<open>What happens to one request in a step: the events it receives and where it goes.\<close>

inductive slot_step :: "slot \<Rightarrow> stream_event list \<Rightarrow> slot \<Rightarrow> bool" where
  stay: "slot_step s evs s" if "\<forall>ev \<in> set evs. ev_kind ev = kReplanningEvent"
| start: "slot_step Waiting [ev] (RunningAt 0)" if "ev_kind ev = kStarted"
| drop_waiting: "slot_step Waiting [] Gone"
| refuse: "slot_step Waiting [ev] Gone" if "ev_kind ev = kFailed"
| token: "slot_step (RunningAt pos) [ev] (RunningAt (pos + 1))"
    if "ev_kind ev = kToken" "ev_sequence ev = pos" "pos < 4294967296"
| silent: "slot_step (RunningAt pos) [] (RunningAt (pos + 1))" if "pos < 4294967296"
| finish: "slot_step (RunningAt pos) [ev] Gone" if "terminal_kind (ev_kind ev)"
| last_token: "slot_step (RunningAt pos) [tok, ev] Gone"
    if "ev_kind tok = kToken" "ev_sequence tok = pos" "terminal_kind (ev_kind ev)"

fun fits :: "slot \<Rightarrow> phase \<Rightarrow> bool" where
  "fits Waiting ph \<longleftrightarrow> ph = Fresh"
| "fits (RunningAt pos) ph \<longleftrightarrow> (\<exists>n \<le> pos. ph = Open n)"
| "fits Gone ph \<longleftrightarrow> True"

lemma advance_replanning: "\<forall>ev \<in> set evs. ev_kind ev = kReplanningEvent \<Longrightarrow> advance_all ph evs = Some ph"
  by (induction evs) simp_all

lemma terminal_cases: "terminal_kind k \<Longrightarrow> k = kCompleted \<or> k = kFailed"
  by (cases k) simp_all

lemma pos_step: "(n :: u64) \<le> pos \<Longrightarrow> pos < 4294967296 \<Longrightarrow> n \<le> pos + 1"
  by (simp add: word_le_nat_alt word_less_nat_alt unat_word_ariths)

text \<open>The automaton follows every step of a request.\<close>

lemma slot_step_fits:
  assumes "slot_step s evs s'" "fits s ph"
  shows "\<exists>ph'. advance_all ph evs = Some ph' \<and> fits s' ph'"
  using assms
proof (cases rule: slot_step.cases)
  case stay
  then show ?thesis using assms(2) by (auto simp: advance_replanning)
next
  case (finish ev pos)
  then show ?thesis using assms(2) by (auto dest!: terminal_cases)
next
  case (last_token tok pos ev)
  then show ?thesis using assms(2) by (auto dest!: terminal_cases)
next
  case (silent pos)
  then show ?thesis using assms(2) pos_step by auto
qed auto

section \<open>The invariant\<close>

definition protocol_inv :: "pipeline \<Rightarrow> pipeline_event list \<Rightarrow> bool" where
  "protocol_inv p hist \<longleftrightarrow> pipeline_wf p \<and> (\<forall>k. (length (pi_states p) \<le> k \<longrightarrow> events_of k hist = []) \<and>
     (\<exists>ph. advance_all Fresh (events_of k hist) = Some ph \<and>
        (k < length (pi_states p) \<and> ar_callback (pi_states p ! k) \<longrightarrow> (\<forall>s. at_slot p k s \<longrightarrow> fits s ph))))"

text \<open>
  \<open>follows p evs p'\<close>: every request of \<open>p\<close> that still has its callback made a step, the others
  received nothing, and new requests begin as the protocol says.
\<close>

definition request_follows :: "pipeline \<Rightarrow> pipeline_event list \<Rightarrow> pipeline \<Rightarrow> nat \<Rightarrow> bool" where
  "request_follows p evs p' k \<longleftrightarrow>
     (ar_callback (pi_states p' ! k) \<longrightarrow> ar_callback (pi_states p ! k)) \<and>
     (if ar_callback (pi_states p ! k)
      then \<forall>s'. at_slot p' k s' \<longrightarrow> (\<exists>s. at_slot p k s \<and> slot_step s (events_of k evs) s')
      else events_of k evs = [])"

definition request_begins :: "pipeline \<Rightarrow> pipeline_event list \<Rightarrow> nat \<Rightarrow> bool" where
  "request_begins p' evs k \<longleftrightarrow>
     (\<exists>ph. advance_all Fresh (events_of k evs) = Some ph \<and> (\<forall>s. at_slot p' k s \<and> ar_callback (pi_states p' ! k) \<longrightarrow> fits s ph))"

definition follows :: "pipeline \<Rightarrow> pipeline_event list \<Rightarrow> pipeline \<Rightarrow> bool" where
  "follows p evs p' \<longleftrightarrow> length (pi_states p) \<le> length (pi_states p') \<and>
     (\<forall>k < length (pi_states p). request_follows p evs p' k) \<and>
     (\<forall>k \<ge> length (pi_states p'). events_of k evs = []) \<and>
     (\<forall>k. length (pi_states p) \<le> k \<and> k < length (pi_states p') \<longrightarrow> request_begins p' evs k)"

lemma some_slot: "pipeline_wf p \<Longrightarrow> \<exists>s. at_slot p k s"
proof -
  consider "k \<in> set (waiting_states p)" | "k \<in> set (thread_states p)" | "at_slot p k Gone" by auto
  then show ?thesis
  proof cases
    case 1
    then show ?thesis by (intro exI [of _ Waiting]) simp
  next
    case 2
    then obtain wk where "wk \<in> set (pi_threads p)" "wk_state wk = k" by (auto simp: thread_states_def)
    then show ?thesis by (intro exI [of _ "RunningAt (wk_pos wk)"]) auto
  qed blast
qed

lemma protocol_inv_step:
  assumes inv: "protocol_inv p hist" and wf: "pipeline_wf p'" and step: "follows p evs p'"
  shows "protocol_inv p' (hist @ evs)"
  unfolding protocol_inv_def
proof (intro conjI allI impI wf)
  fix k
  have len: "length (pi_states p) \<le> length (pi_states p')" using step by (simp add: follows_def)
  show "events_of k (hist @ evs) = []" if "length (pi_states p') \<le> k"
    using that len inv step by (auto simp: protocol_inv_def follows_def)
  show "\<exists>ph. advance_all Fresh (events_of k (hist @ evs)) = Some ph \<and>
      (k < length (pi_states p') \<and> ar_callback (pi_states p' ! k) \<longrightarrow> (\<forall>s. at_slot p' k s \<longrightarrow> fits s ph))"
  proof (cases "k < length (pi_states p)")
    case False
    then have "events_of k hist = []" using inv by (simp add: protocol_inv_def)
    moreover have "request_begins p' evs k" if "k < length (pi_states p')" using False step that by (simp add: follows_def)
    moreover have "events_of k evs = []" if "\<not> k < length (pi_states p')" using step that by (simp add: follows_def)
    ultimately show ?thesis by (cases "k < length (pi_states p')") (auto simp: request_begins_def)
  next
    case True
    obtain ph where ph: "advance_all Fresh (events_of k hist) = Some ph"
      "ar_callback (pi_states p ! k) \<longrightarrow> (\<forall>s. at_slot p k s \<longrightarrow> fits s ph)"
      using inv True by (auto simp: protocol_inv_def)
    show ?thesis
    proof (cases "ar_callback (pi_states p ! k)")
      case cb: True
      have sim: "\<exists>s. at_slot p k s \<and> slot_step s (events_of k evs) s'" if "at_slot p' k s'" for s'
        using step True cb that by (simp add: follows_def request_follows_def)
      have "\<exists>ph'. advance_all ph (events_of k evs) = Some ph' \<and> fits s' ph'" if "at_slot p' k s'" for s'
        using sim [OF that] ph(2) cb slot_step_fits by blast
      with some_slot [OF wf, of k] show ?thesis
        by (auto simp: advance_all_append ph(1)) (metis option.inject)
    next
      case False
      then show ?thesis using step True ph(1) by (auto simp: follows_def request_follows_def advance_all_append)
    qed
  qed
qed

section \<open>Every operation follows the protocol\<close>

text \<open>Steps that only drop requests from the queue, or change nothing but the requests themselves.\<close>

lemma follows_drop:
  assumes "set (waiting_states p') \<subseteq> set (waiting_states p)" "pi_threads p' = pi_threads p"
    and "length (pi_states p') = length (pi_states p)"
    and "\<And>k. k < length (pi_states p) \<Longrightarrow> ar_callback (pi_states p' ! k) \<longrightarrow> ar_callback (pi_states p ! k)"
  shows "follows p [] p'"
  unfolding follows_def request_follows_def
proof (intro conjI allI impI)
  fix k
  assume "k < length (pi_states p)"
  show "if ar_callback (pi_states p ! k)
      then \<forall>s'. at_slot p' k s' \<longrightarrow> (\<exists>s. at_slot p k s \<and> slot_step s (events_of k []) s')
      else events_of k [] = []"
  proof (simp, intro impI allI)
    fix s'
    assume at: "at_slot p' k s'"
    show "\<exists>s. at_slot p k s \<and> slot_step s [] s'"
    proof (cases s')
      case Gone
      show ?thesis
      proof (cases "k \<in> set (waiting_states p)")
        case True
        then show ?thesis unfolding Gone by (intro exI [of _ Waiting]) (simp add: slot_step.drop_waiting)
      next
        case False
        then show ?thesis using at assms(2) unfolding Gone
          by (intro exI [of _ Gone]) (simp add: slot_step.stay thread_states_def)
      qed
    qed (use at assms(1,2) in \<open>auto intro!: exI [of _ s'] slot_step.stay\<close>)
  qed
qed (use assms in auto)

lemma follows_stay:
  assumes "waiting_states p' = waiting_states p" "pi_threads p' = pi_threads p"
    and "length (pi_states p') = length (pi_states p)"
    and "\<And>k. k < length (pi_states p) \<Longrightarrow> ar_callback (pi_states p' ! k) = ar_callback (pi_states p ! k)"
    and "\<And>k ev. (k, ev) \<in> set evs \<Longrightarrow> k < length (pi_states p) \<and> ar_callback (pi_states p ! k) \<and> ev_kind ev = kReplanningEvent"
  shows "follows p evs p'"
proof -
  have evs: "ev \<in> set (events_of k evs) \<Longrightarrow> k < length (pi_states p) \<and> ar_callback (pi_states p ! k) \<and> ev_kind ev = kReplanningEvent" for k ev
    using assms(5) by (auto simp: events_of_def)
  have slots: "at_slot p' k s = at_slot p k s" for k s
    using assms(1,2) by (cases s) (simp_all add: thread_states_def)
  have none: "events_of k evs = []" if "\<not> (k < length (pi_states p) \<and> ar_callback (pi_states p ! k))" for k
    using evs [of _ k] that by (cases "events_of k evs") auto
  have "request_follows p evs p' k" if "k < length (pi_states p)" for k
    unfolding request_follows_def
  proof (intro conjI)
    show "ar_callback (pi_states p' ! k) \<longrightarrow> ar_callback (pi_states p ! k)" using assms(4) that by simp
    have "slot_step s (events_of k evs) s" for s by (rule slot_step.stay) (use evs in blast)
    then show "if ar_callback (pi_states p ! k)
        then \<forall>s'. at_slot p' k s' \<longrightarrow> (\<exists>s. at_slot p k s \<and> slot_step s (events_of k evs) s')
        else events_of k evs = []"
      using none [of k] slots by (auto simp del: at_slot.simps)
  qed
  then show ?thesis unfolding follows_def using assms(3) none by auto
qed

lemma wf_same:
  assumes "pipeline_wf p" "waiting_states p' = waiting_states p" "thread_states p' = thread_states p"
    "length (pi_states p') = length (pi_states p)" "pi_active_requests p' = pi_active_requests p"
  shows "pipeline_wf p'"
  using assms by (simp add: pipeline_wf_def)

lemma inv_stay:
  assumes "protocol_inv p hist" "waiting_states p' = waiting_states p" "pi_threads p' = pi_threads p"
    "length (pi_states p') = length (pi_states p)" "pi_active_requests p' = pi_active_requests p"
    "\<And>k. k < length (pi_states p) \<Longrightarrow> ar_callback (pi_states p' ! k) = ar_callback (pi_states p ! k)"
    "\<And>k ev. (k, ev) \<in> set evs \<Longrightarrow> k < length (pi_states p) \<and> ar_callback (pi_states p ! k) \<and> ev_kind ev = kReplanningEvent"
  shows "protocol_inv p' (hist @ evs)"
  using assms
  by (intro protocol_inv_step [OF assms(1)] wf_same [of p p'] follows_stay)
     (auto simp: protocol_inv_def thread_states_def)

lemma inv_drop:
  assumes "protocol_inv p hist" "distinct (waiting_states p')" "set (waiting_states p') \<subseteq> set (waiting_states p)"
    "pi_threads p' = pi_threads p" "length (pi_states p') = length (pi_states p)"
    "pi_active_requests p' = pi_active_requests p"
    "\<And>k. k < length (pi_states p) \<Longrightarrow> ar_callback (pi_states p' ! k) \<longrightarrow> ar_callback (pi_states p ! k)"
  shows "protocol_inv p' (hist @ [])"
proof (rule protocol_inv_step [OF assms(1)])
  have wf: "pipeline_wf p" using assms(1) by (simp add: protocol_inv_def)
  have "thread_states p' = thread_states p" using assms(4) by (simp add: thread_states_def)
  then show "pipeline_wf p'"
    using wf assms(2,3,5,6) unfolding pipeline_wf_def by auto
  show "follows p [] p'" by (rule follows_drop) (use assms in auto)
qed

lemma nth_update_callback:
  "ar_callback ar' = ar_callback (xs ! i) \<Longrightarrow> k < length xs \<Longrightarrow> ar_callback (xs[i := ar'] ! k) = ar_callback (xs ! k)"
  by (cases "k = i") simp_all

lemma inv_cancel:
  assumes "protocol_inv p hist"
  shows "protocol_inv (cancel_handle k p) (hist @ [])"
  by (rule inv_stay [OF assms])
     (simp_all add: cancel_handle_def waiting_states_def nth_update_callback)

text \<open>Steps that concern one request.\<close>

lemma follows_one:
  assumes len: "length (pi_states p') = length (pi_states p)" and k: "k < length (pi_states p)"
    and cb: "\<And>i. i < length (pi_states p) \<Longrightarrow> ar_callback (pi_states p' ! i) = ar_callback (pi_states p ! i)"
    and others: "\<And>i s. i \<noteq> k \<Longrightarrow> at_slot p' i s = at_slot p i s"
    and evs: "\<And>i ev. (i, ev) \<in> set evs \<Longrightarrow> i = k \<and> ar_callback (pi_states p ! k)"
    and own: "\<And>s'. ar_callback (pi_states p ! k) \<Longrightarrow> at_slot p' k s' \<Longrightarrow>
      \<exists>s. at_slot p k s \<and> slot_step s (events_of k evs) s'"
  shows "follows p evs p'"
proof -
  have none: "events_of i evs = []" if "i \<noteq> k \<or> \<not> ar_callback (pi_states p ! k)" for i
    using evs that by (auto simp: events_of_def filter_empty_conv)
  have "request_follows p evs p' i" if "i < length (pi_states p)" for i
  proof (cases "i = k")
    case True
    then show ?thesis using cb [OF k] own none [of k] by (simp add: request_follows_def)
  next
    case False
    have "slot_step s [] s" for s by (rule slot_step.stay) simp
    then show ?thesis using cb [OF that] others [OF False] none [of i] False
      by (auto simp: request_follows_def simp del: at_slot.simps)
  qed
  then show ?thesis unfolding follows_def using len k none by auto
qed

lemma inv_remove_queued:
  assumes inv: "protocol_inv p hist" and op: "remove_queued rid p = (p', evs)"
  shows "protocol_inv p' (hist @ evs)"
proof (cases "List.find (\<lambda>i. ar_id (pi_states p ! qr_state (pi_queue p ! i)) = rid) [0 ..< length (pi_queue p)]")
  case None
  then have "p' = p" "evs = []" using op by (simp_all add: remove_queued_def)
  then show ?thesis using inv by simp
next
  case (Some i)
  then have i: "i < length (pi_queue p)" by (auto simp: find_Some_iff)
  let ?k = "qr_state (pi_queue p ! i)"
  let ?ev = "(event_of kFailed (ar_id (pi_states p ! ?k)) 0)\<lparr>ev_error :=
      Some \<lparr>err_code = kCancelled, err_message = ''cancelled while queued''\<rparr>\<rparr>"
  have p': "p' = p\<lparr>pi_queue := take i (pi_queue p) @ drop (Suc i) (pi_queue p)\<rparr>"
    and evs: "evs = emit ?k (pi_states p ! ?k) ?ev"
    using op Some by (simp_all add: remove_queued_def Let_def)
  have wf: "pipeline_wf p" using inv by (simp add: protocol_inv_def)
  let ?q = "map qr_state (pi_queue p)" and ?h = "map qr_state (held (pi_dispatcher p))"
  have dist: "distinct (?h @ ?q @ thread_states p)" using wf by (simp add: pipeline_wf_def waiting_states_def)
  obtain r where r: "r = map qr_state (take i (pi_queue p) @ drop (Suc i) (pi_queue p))" by simp
  have rem: "set r = set ?q - {?k}" "distinct r"
    using set_remove_nth [of ?q i] i dist by (simp_all add: r take_map drop_map)
  have kq: "?k \<in> set ?q" using i by (metis length_map nth_map nth_mem)
  have wp: "waiting_states p' = ?h @ r" and tp: "thread_states p' = thread_states p"
    by (simp_all add: waiting_states_def thread_states_def p' r)
  have waiting: "set (waiting_states p') = set (waiting_states p) - {?k}"
    using rem(1) kq dist unfolding wp by (auto simp: waiting_states_def)
  have k: "?k < length (pi_states p)" using wf kq by (simp add: pipeline_wf_def waiting_states_def)
  have gone: "?k \<notin> set (thread_states p)" using dist kq by auto
  show ?thesis
  proof (rule protocol_inv_step [OF inv])
    show "pipeline_wf p'"
      unfolding pipeline_wf_def
    proof
      show "distinct (waiting_states p' @ thread_states p')" using dist rem unfolding wp tp by auto
      show "\<forall>k \<in> set (waiting_states p' @ thread_states p') \<union> snd ` set (pi_active_requests p'). k < length (pi_states p')"
        using wf waiting unfolding pipeline_wf_def tp by (auto simp: p')
    qed
    show "follows p evs p'"
    proof (rule follows_one [OF _ k])
      show "at_slot p' j s = at_slot p j s" if "j \<noteq> ?k" for j s
        using waiting that by (cases s) (auto simp: p' thread_states_def)
      show "\<exists>s. at_slot p ?k s \<and> slot_step s (events_of ?k evs) s'"
        if "ar_callback (pi_states p ! ?k)" "at_slot p' ?k s'" for s'
      proof -
        have "wk_state w \<noteq> ?k" if "w \<in> set (pi_threads p)" for w
          using gone that unfolding thread_states_def set_map by (metis imageI)
        then have "s' = Gone" using that(2) waiting by (cases s') (auto simp: p')
        with that(1) kq show ?thesis
          by (intro exI [of _ Waiting]) (auto simp: waiting_states_def evs event_of_def intro!: slot_step.refuse)
      qed
    qed (auto simp: p' evs emit_def split: if_splits)
  qed
qed

definition iteration_ok ::
  "nat \<Rightarrow> active_request \<Rightarrow> u64 \<Rightarrow> active_request \<times> pipeline_event list \<times> u64 option \<Rightarrow> bool" where
  "iteration_ok k ar pos out = (case out of (ar', evs, next_pos) \<Rightarrow>
     ar_callback ar' = ar_callback ar \<and>
     (\<forall>i ev. (i, ev) \<in> set evs \<longrightarrow> i = k \<and> ar_callback ar) \<and>
     (ar_callback ar \<longrightarrow>
        slot_step (RunningAt pos) (events_of k evs) (case next_pos of Some q \<Rightarrow> RunningAt q | None \<Rightarrow> Gone)) \<and>
     (\<forall>q. next_pos = Some q \<longrightarrow> q = pos + 1))"

lemma loop_bound: "loop_continues stop ar pos \<Longrightarrow> pos < 4294967296"
proof -
  let ?m = "go_maximum_new_tokens (iq_generation (ar_request ar))"
  assume "loop_continues stop ar pos"
  then have "pos < ucast ?m" by (simp add: loop_continues_def)
  moreover have "uint (ucast ?m :: u64) = uint ?m" by (rule uint_up_ucast) (simp add: is_up)
  moreover have "uint ?m < 2 ^ 32" using uint_lt2p [of ?m] by simp
  ultimately show ?thesis unfolding word_less_def by simp
qed

lemma emit_in_set [simp]: "(i, ev) \<in> set (emit k ar e) \<longleftrightarrow> i = k \<and> ev = e \<and> ar_callback ar"
  by (auto simp: emit_def)

lemmas emissions = emit_token_def emit_terminal_def emit_started_def emit_queued_def event_of_def

lemma simulated_ok: "iteration_ok k ar pos (run_generation_simulated k stop ar pos)"
  unfolding iteration_ok_def run_generation_simulated_def
  by (auto simp: emissions record_token_def intro!: slot_step.token slot_step.finish dest: loop_bound)

lemma distributed_ok: "iteration_ok k ar pos (run_generation_distributed k stop pass ar pos)"
  unfolding iteration_ok_def run_generation_distributed_def
  by (auto simp: emissions record_token_def Let_def intro!: slot_step.token slot_step.finish dest: loop_bound split: sum.splits)

lemma local_ok: "iteration_ok k ar pos (run_generation_local k stop it ar pos)"
  unfolding iteration_ok_def run_generation_local_def
  by (auto simp: emissions Let_def dest: loop_bound split: local_iteration.splits option.splits
      intro!: slot_step.token slot_step.finish slot_step.silent slot_step.last_token)

lemma worker_step_cases:
  assumes "worker_step j pass it p = (p', evs)" "j < length (pi_threads p)"
  obtains ar' next_pos where
    "iteration_ok (wk_state (pi_threads p ! j)) (pi_states p ! wk_state (pi_threads p ! j)) (wk_pos (pi_threads p ! j))
       (ar', evs, next_pos)"
    "p' = (case next_pos of
        Some pos \<Rightarrow> p\<lparr>pi_states := (pi_states p)[wk_state (pi_threads p ! j) := ar'],
                      pi_threads := (pi_threads p)[j := (pi_threads p ! j)\<lparr>wk_pos := pos\<rparr>]\<rparr>
      | None \<Rightarrow> p\<lparr>pi_states := (pi_states p)[wk_state (pi_threads p ! j) := ar'],
                  pi_threads := take j (pi_threads p) @ drop (Suc j) (pi_threads p),
                  pi_workers := AList.delete (ar_id (pi_states p ! wk_state (pi_threads p ! j))) (pi_workers p)\<rparr>)"
proof -
  let ?wk = "pi_threads p ! j"
  let ?k = "wk_state ?wk"
  let ?ar = "pi_states p ! ?k"
  let ?stop = "ar_cancel ?ar \<in> set (pi_stopped p)"
  let ?out = "case wk_mode ?wk of
        Simulated \<Rightarrow> run_generation_simulated ?k ?stop ?ar (wk_pos ?wk)
      | Distributed \<Rightarrow> run_generation_distributed ?k ?stop pass ?ar (wk_pos ?wk)
      | Local \<Rightarrow> run_generation_local ?k ?stop it ?ar (wk_pos ?wk)"
  have ok: "iteration_ok ?k ?ar (wk_pos ?wk) ?out"
    by (cases "wk_mode ?wk") (simp_all add: simulated_ok distributed_ok local_ok)
  obtain ar' es next_pos where out: "?out = (ar', es, next_pos)" by (cases ?out)
  have "es = evs" using assms out by (auto simp: worker_step_def Let_def split: option.splits)
  moreover have "p' = (case next_pos of
        Some pos \<Rightarrow> p\<lparr>pi_states := (pi_states p)[?k := ar'], pi_threads := (pi_threads p)[j := ?wk\<lparr>wk_pos := pos\<rparr>]\<rparr>
      | None \<Rightarrow> p\<lparr>pi_states := (pi_states p)[?k := ar'], pi_threads := take j (pi_threads p) @ drop (Suc j) (pi_threads p),
                  pi_workers := AList.delete (ar_id ?ar) (pi_workers p)\<rparr>)"
    using assms out by (auto simp: worker_step_def Let_def split: option.splits)
  ultimately show ?thesis using that ok out by metis
qed

lemma inv_worker_step:
  assumes inv: "protocol_inv p hist" and op: "worker_step j pass it p = (p', evs)"
  shows "protocol_inv p' (hist @ evs)"
proof (cases "j < length (pi_threads p)")
  case False
  then have "p' = p" "evs = []" using op by (simp_all add: worker_step_def)
  then show ?thesis using inv by simp
next
  case True
  let ?wk = "pi_threads p ! j"
  let ?k = "wk_state ?wk" and ?pos = "wk_pos ?wk"
  let ?ar = "pi_states p ! ?k"
  obtain ar' next_pos where ok: "iteration_ok ?k ?ar ?pos (ar', evs, next_pos)"
    and p': "p' = (case next_pos of
        Some pos \<Rightarrow> p\<lparr>pi_states := (pi_states p)[?k := ar'], pi_threads := (pi_threads p)[j := ?wk\<lparr>wk_pos := pos\<rparr>]\<rparr>
      | None \<Rightarrow> p\<lparr>pi_states := (pi_states p)[?k := ar'], pi_threads := take j (pi_threads p) @ drop (Suc j) (pi_threads p),
                  pi_workers := AList.delete (ar_id ?ar) (pi_workers p)\<rparr>)"
    by (rule worker_step_cases [OF op True])
  have wf: "pipeline_wf p" using inv by (simp add: protocol_inv_def)
  have dist: "distinct (waiting_states p @ thread_states p)" using wf by (simp add: pipeline_wf_def)
  then have dt: "distinct (pi_threads p)" by (simp add: thread_states_def distinct_map)
  have wk: "?wk \<in> set (pi_threads p)" using True by simp
  then have kt: "?k \<in> set (thread_states p)" by (simp add: thread_states_def)
  then have k: "?k < length (pi_states p)" using wf by (simp add: pipeline_wf_def)
  have only: "w = ?wk" if "w \<in> set (pi_threads p)" "wk_state w = ?k" for w
    using dist that wk by (auto simp: thread_states_def distinct_map dest: inj_onD)
  from ok have iter: "ar_callback ar' = ar_callback ?ar" "\<And>i ev. (i, ev) \<in> set evs \<Longrightarrow> i = ?k \<and> ar_callback ?ar"
    "ar_callback ?ar \<Longrightarrow> slot_step (RunningAt ?pos) (events_of ?k evs) (case next_pos of Some q \<Rightarrow> RunningAt q | None \<Rightarrow> Gone)"
    by (auto simp: iteration_ok_def)
  obtain ts where ts: "pi_threads p' = ts"
    "set ts = set (pi_threads p) - {?wk} \<union> (case next_pos of Some q \<Rightarrow> {?wk\<lparr>wk_pos := q\<rparr>} | None \<Rightarrow> {})"
    "distinct (map wk_state ts)"
  proof (cases next_pos)
    case None
    have "distinct (map wk_state (take j (pi_threads p) @ drop (Suc j) (pi_threads p)))"
      using set_remove_nth(2) [of "thread_states p" j] dist True by (simp add: thread_states_def take_map drop_map)
    with None set_remove_nth(1) [OF dt True] that [of "pi_threads p'"] show ?thesis by (simp add: p')
  next
    case (Some q)
    have "distinct (map wk_state ((pi_threads p)[j := ?wk\<lparr>wk_pos := q\<rparr>]))"
      using dist True list_update_id [of "thread_states p" j] by (simp add: thread_states_def map_update)
    moreover have "set ((pi_threads p)[j := ?wk\<lparr>wk_pos := q\<rparr>]) = set (pi_threads p) - {?wk} \<union> {?wk\<lparr>wk_pos := q\<rparr>}"
      using set_update_distinct [OF dt True] by auto
    ultimately show ?thesis using Some that [of "pi_threads p'"] by (simp add: p')
  qed
  have same: "waiting_states p' = waiting_states p" "length (pi_states p') = length (pi_states p)"
    "pi_active_requests p' = pi_active_requests p"
    by (simp_all add: p' waiting_states_def split: option.splits)
  have ids: "set (thread_states p') = set (thread_states p) - (if next_pos = None then {?k} else {})"
    using ts only wk by (auto simp: thread_states_def image_iff split: option.splits)
  show ?thesis
  proof (rule protocol_inv_step [OF inv])
    show "pipeline_wf p'"
      unfolding pipeline_wf_def same
    proof
      show "distinct (waiting_states p @ thread_states p')"
        using dist ts(1,3) ids by (auto simp: thread_states_def)
      show "\<forall>k \<in> set (waiting_states p @ thread_states p') \<union> snd ` set (pi_active_requests p). k < length (pi_states p)"
        using wf ids unfolding pipeline_wf_def by auto
    qed
    show "follows p evs p'"
    proof (rule follows_one [OF same(2) k])
      show "ar_callback (pi_states p' ! i) = ar_callback (pi_states p ! i)" if "i < length (pi_states p)" for i
        using iter(1) that by (simp add: p' nth_update_callback split: option.splits)
      show "at_slot p' i s = at_slot p i s" if "i \<noteq> ?k" for i s
        using ts that ids by (cases s) (auto simp: same split: option.splits)
      show "i = ?k \<and> ar_callback ?ar" if "(i, ev) \<in> set evs" for i ev by (rule iter(2) [OF that])
      show "\<exists>s. at_slot p ?k s \<and> slot_step s (events_of ?k evs) s'" if "ar_callback ?ar" "at_slot p' ?k s'" for s'
      proof -
        have "s' = (case next_pos of Some q \<Rightarrow> RunningAt q | None \<Rightarrow> Gone)"
          using that(2) ts only dist kt ids
          by (cases s') (auto simp: same split: option.splits if_splits)
        with iter(3) [OF that(1)] wk show ?thesis by (intro exI [of _ "RunningAt ?pos"]) auto
      qed
    qed
  qed
qed

lemma collect_batch_spec:
  assumes "collect_batch cfg states queue batch = (batch', queue')"
  shows "\<exists>n \<le> length queue. queue' = drop n queue \<and>
    batch' = batch @ filter (\<lambda>qr. ar_active (states ! qr_state qr)) (take n queue) \<and>
    (\<forall>qr \<in> set (take n queue). \<not> is_long_context cfg qr) \<and>
    (length batch \<le> unat (bc_max_batch_size cfg) \<longrightarrow> length batch' \<le> unat (bc_max_batch_size cfg)) \<and>
    (queue' \<noteq> [] \<longrightarrow> length batch' \<ge> unat (bc_max_batch_size cfg) \<or> is_long_context cfg (hd queue'))"
  using assms
proof (induction cfg states queue batch rule: collect_batch.induct)
  case (2 cfg states qr queue batch)
  consider "length batch \<ge> unat (bc_max_batch_size cfg) \<or> is_long_context cfg qr"
    | "length batch < unat (bc_max_batch_size cfg)" "\<not> is_long_context cfg qr" "\<not> ar_active (states ! qr_state qr)"
    | "length batch < unat (bc_max_batch_size cfg)" "\<not> is_long_context cfg qr" "ar_active (states ! qr_state qr)"
    by linarith
  then show ?case
  proof cases
    case 1
    then show ?thesis using 2(3) by (intro exI [of _ 0]) auto
  next
    case 2
    then obtain n where "n \<le> length queue" "queue' = drop n queue"
      "batch' = batch @ filter (\<lambda>qr. ar_active (states ! qr_state qr)) (take n queue)"
      "\<forall>qr \<in> set (take n queue). \<not> is_long_context cfg qr"
      "length batch' \<le> unat (bc_max_batch_size cfg)"
      "queue' \<noteq> [] \<longrightarrow> length batch' \<ge> unat (bc_max_batch_size cfg) \<or> is_long_context cfg (hd queue')"
      using "2.IH"(1) "2.prems" by auto
    with 2 show ?thesis by (intro exI [of _ "Suc n"]) auto
  next
    case 3
    then obtain n where "n \<le> length queue" "queue' = drop n queue"
      "batch' = (batch @ [qr]) @ filter (\<lambda>qr. ar_active (states ! qr_state qr)) (take n queue)"
      "\<forall>qr \<in> set (take n queue). \<not> is_long_context cfg qr"
      "length batch' \<le> unat (bc_max_batch_size cfg)"
      "queue' \<noteq> [] \<longrightarrow> length batch' \<ge> unat (bc_max_batch_size cfg) \<or> is_long_context cfg (hd queue')"
      using "2.IH"(2) "2.prems" by auto
    with 3 show ?thesis by (intro exI [of _ "Suc n"]) auto
  qed
qed auto

lemma distinct_keep_filter:
  "distinct (map f (xs @ ys @ zs)) \<Longrightarrow> distinct (map f (xs @ filter P ys @ zs))"
  by (auto simp: distinct_map_filter)

lemma collect_batch_subset:
  assumes "collect_batch cfg states queue batch = (batch', queue')" "distinct (map qr_state (batch @ queue))"
  shows "set (map qr_state (batch' @ queue')) \<subseteq> set (map qr_state (batch @ queue))"
    and "distinct (map qr_state (batch' @ queue'))"
proof -
  obtain n where n: "queue' = drop n queue"
    "batch' = batch @ filter (\<lambda>qr. ar_active (states ! qr_state qr)) (take n queue)"
    using collect_batch_spec [OF assms(1)] by auto
  have d: "distinct (map qr_state (batch @ take n queue @ drop n queue))" using assms(2) by simp
  show "set (map qr_state (batch' @ queue')) \<subseteq> set (map qr_state (batch @ queue))"
    by (auto simp: n dest: in_set_takeD in_set_dropD)
  show "distinct (map qr_state (batch' @ queue'))"
    using distinct_keep_filter [OF d] unfolding n by simp
qed

lemma take_waiting_cases:
  obtains "waiting_states (dispatcher_take p) = waiting_states p"
  | batch queue where "pi_dispatcher p = Idle"
    "collect_batch (pi_batching p) (pi_states p) (pi_queue p) [] = (batch, queue)"
    "waiting_states (dispatcher_take p) = map qr_state (batch @ queue)"
proof (cases "pi_dispatcher p = Idle \<and> pi_dispatcher_running p \<and> bc_mode (pi_batching p) = kAdaptive \<and>
    pi_queue p \<noteq> [] \<and> \<not> is_long_context (pi_batching p) (hd (pi_queue p))")
  case True
  obtain batch queue where c: "collect_batch (pi_batching p) (pi_states p) (pi_queue p) [] = (batch, queue)" by fastforce
  have "waiting_states (dispatcher_take p) = map qr_state (batch @ queue)"
    using True c by (cases "pi_queue p") (auto simp: dispatcher_take_def waiting_states_def)
  with True c that(2) show ?thesis by blast
next
  case False
  then have "waiting_states (dispatcher_take p) = waiting_states p"
    by (auto simp: dispatcher_take_def waiting_states_def split: list.splits batching_mode.splits)
  then show ?thesis by (rule that(1))
qed

lemma take_waiting:
  assumes d: "distinct (waiting_states p)"
  shows "distinct (waiting_states (dispatcher_take p))" "set (waiting_states (dispatcher_take p)) \<subseteq> set (waiting_states p)"
proof -
  have "distinct (waiting_states (dispatcher_take p)) \<and> set (waiting_states (dispatcher_take p)) \<subseteq> set (waiting_states p)"
  proof (cases rule: take_waiting_cases [of p])
    case 1
    then show ?thesis using d by simp
  next
    case (2 batch queue)
    from collect_batch_subset [OF 2(2)] d show ?thesis unfolding 2(3) by (simp add: waiting_states_def 2(1))
  qed
  then show "distinct (waiting_states (dispatcher_take p))" "set (waiting_states (dispatcher_take p)) \<subseteq> set (waiting_states p)"
    by blast+
qed

lemma inv_take:
  assumes inv: "protocol_inv p hist"
  shows "protocol_inv (dispatcher_take p) (hist @ [])"
proof -
  have d: "distinct (waiting_states p)" using inv by (simp add: protocol_inv_def pipeline_wf_def)
  have "pi_threads (dispatcher_take p) = pi_threads p" "pi_states (dispatcher_take p) = pi_states p"
    "pi_active_requests (dispatcher_take p) = pi_active_requests p"
    by (auto simp: dispatcher_take_def split: list.splits batching_mode.splits prod.splits)
  moreover note take_waiting [OF d]
  ultimately show ?thesis by (intro inv_drop [OF inv]) auto
qed

abbreviation dispatched :: "pipeline \<Rightarrow> queued_request list \<Rightarrow> queued_request list" where
  "dispatched p batch \<equiv> filter (\<lambda>qr. ar_active (pi_states p ! qr_state qr)) batch"

lemma dispatch_batch_eq:
  assumes "dispatch_batch batch p = Some (p', evs)"
  shows "\<exists>ws. p' = p\<lparr>pi_threads := pi_threads p @ map (\<lambda>qr. \<lparr>wk_state = qr_state qr,
        wk_mode = generation_mode p (pi_states p ! qr_state qr), wk_pos = 0\<rparr>) (dispatched p batch), pi_workers := ws\<rparr>"
    and "evs = concat (map (\<lambda>qr. emit_started (qr_state qr) (pi_states p ! qr_state qr)) (dispatched p batch))"
  using assms
proof (induction batch arbitrary: p p' evs)
  case (Cons qr batch)
  {
    case 1
    show ?case
    proof (cases "ar_active (pi_states p ! qr_state qr)")
      case True
      then obtain p1 evs1 where l: "launch_worker (qr_state qr) p = Some p1" "dispatch_batch batch p1 = Some (p', evs1)"
        using 1 by (auto simp: Let_def split: option.splits)
      have p1: "\<exists>ws. p1 = p\<lparr>pi_threads := pi_threads p @ [\<lparr>wk_state = qr_state qr,
          wk_mode = generation_mode p (pi_states p ! qr_state qr), wk_pos = 0\<rparr>], pi_workers := ws\<rparr>"
        using l(1) by (auto simp: launch_worker_def Let_def split: if_splits)
      then have "generation_mode p1 = generation_mode p" "pi_states p1 = pi_states p"
        by (auto simp: generation_mode_def fun_eq_iff)
      with Cons.IH(1) [OF l(2)] p1 True show ?thesis by auto
    next
      case False
      then show ?thesis using Cons.IH(1) 1 by simp
    qed
  next
    case 2
    show ?case
    proof (cases "ar_active (pi_states p ! qr_state qr)")
      case True
      then obtain p1 evs1 where l: "launch_worker (qr_state qr) p = Some p1" "dispatch_batch batch p1 = Some (p', evs1)"
        "evs = emit_started (qr_state qr) (pi_states p ! qr_state qr) @ evs1"
        using 2 by (auto simp: Let_def split: option.splits)
      moreover have "pi_states p1 = pi_states p"
        using l(1) by (auto simp: launch_worker_def Let_def split: if_splits)
      ultimately show ?thesis using Cons.IH(2) [OF l(2)] True by simp
    next
      case False
      then show ?thesis using Cons.IH(2) 2 by simp
    qed
  }
next
  case Nil
  {
    case 1
    then show ?case by (cases p) auto
  next
    case 2
    then show ?case by simp
  }
qed

lemma events_of_started:
  assumes "distinct (map qr_state qs)"
  shows "events_of k (concat (map (\<lambda>qr. emit_started (qr_state qr) (states ! qr_state qr)) qs)) =
    (if k \<in> set (map qr_state qs) \<and> ar_callback (states ! k) then [event_of kStarted (ar_id (states ! k)) 0] else [])"
  using assms by (induction qs) (auto simp: emit_started_def)

lemma inv_dispatch:
  assumes inv: "protocol_inv p hist"
    and op: "dispatch_batch (held (pi_dispatcher p)) (p\<lparr>pi_dispatcher := Idle\<rparr>) = Some (p', evs)"
  shows "protocol_inv p' (hist @ evs)"
proof -
  let ?b = "held (pi_dispatcher p)" and ?q = "map qr_state (pi_queue p)"
  define act where "act = dispatched p ?b"
  have wf: "pipeline_wf p" using inv by (simp add: protocol_inv_def)
  then have dist: "distinct (map qr_state ?b @ ?q @ thread_states p)" by (simp add: pipeline_wf_def waiting_states_def)
  have act: "set (map qr_state act) \<subseteq> set (map qr_state ?b)" "distinct (map qr_state act)"
    using dist by (auto simp: act_def distinct_map_filter)
  have disj: "k \<notin> set (map qr_state act)" if "k \<in> set ?q \<union> set (thread_states p)" for k
    using dist act(1) that unfolding distinct_append set_append by blast
  obtain ws where p': "p' = p\<lparr>pi_dispatcher := Idle, pi_threads := pi_threads p @ map (\<lambda>qr. \<lparr>wk_state = qr_state qr,
        wk_mode = generation_mode (p\<lparr>pi_dispatcher := Idle\<rparr>) (pi_states p ! qr_state qr), wk_pos = 0\<rparr>) act, pi_workers := ws\<rparr>"
    using dispatch_batch_eq(1) [OF op] by (auto simp: act_def)
  have ev: "events_of k evs = (if k \<in> set (map qr_state act) \<and> ar_callback (pi_states p ! k)
      then [event_of kStarted (ar_id (pi_states p ! k)) 0] else [])" for k
    using events_of_started [OF act(2)] dispatch_batch_eq(2) [OF op] by (simp add: act_def)
  have wp: "waiting_states p' = ?q" and wpp: "waiting_states p = map qr_state ?b @ ?q"
    and tp: "thread_states p' = thread_states p @ map qr_state act"
    by (simp_all add: p' waiting_states_def thread_states_def)
  show ?thesis
  proof (rule protocol_inv_step [OF inv])
    show "pipeline_wf p'"
      unfolding pipeline_wf_def wp tp
    proof
      show "distinct (?q @ thread_states p @ map qr_state act)"
        using dist act unfolding distinct_append set_append by blast
      show "\<forall>k \<in> set (?q @ thread_states p @ map qr_state act) \<union> snd ` set (pi_active_requests p'). k < length (pi_states p')"
        using wf act(1) unfolding pipeline_wf_def wpp by (auto simp: p')
    qed
    show "follows p evs p'"
      unfolding follows_def
    proof (intro conjI allI impI)
      show "length (pi_states p) \<le> length (pi_states p')" by (simp add: p')
      show "events_of k evs = []" if "length (pi_states p') \<le> k" for k
      proof -
        have len: "length (pi_states p) \<le> k" using that by (simp add: p')
        have "\<forall>i \<in> set (map qr_state ?b). i < length (pi_states p)" using wf unfolding pipeline_wf_def wpp by simp
        then have "k \<notin> set (map qr_state act)" using len act(1) by (meson linorder_not_le subsetD)
        then show ?thesis by (simp add: ev)
      qed
      show "request_begins p' evs k" if "length (pi_states p) \<le> k \<and> k < length (pi_states p')" for k
      proof -
        have "pi_states p' = pi_states p" by (simp add: p')
        then show ?thesis using that by auto
      qed
      fix k
      assume "k < length (pi_states p)"
      have sim: "\<exists>s. at_slot p k s \<and> slot_step s (events_of k evs) s'"
        if cb: "ar_callback (pi_states p ! k)" and at: "at_slot p' k s'" for s'
      proof (cases s')
        case Waiting
        then have "k \<in> set ?q" using at by (simp add: wp)
        moreover from this have "events_of k evs = []" using disj [of k] by (simp add: ev)
        ultimately show ?thesis using Waiting by (intro exI [of _ Waiting]) (simp add: wpp slot_step.stay)
      next
        case (RunningAt pos)
        then consider wk where "wk \<in> set (pi_threads p)" "wk_state wk = k" "wk_pos wk = pos" | "pos = 0" "k \<in> set (map qr_state act)"
          using at by (auto simp: p')
        then show ?thesis
        proof cases
          case 1
          then have "k \<in> set (thread_states p)" by (auto simp: thread_states_def)
          then have "events_of k evs = []" using disj [of k] by (simp add: ev)
          with 1 RunningAt show ?thesis by (intro exI [of _ s']) (auto simp: slot_step.stay)
        next
          case 2
          then have "events_of k evs = [event_of kStarted (ar_id (pi_states p ! k)) 0]" "k \<in> set (waiting_states p)"
            using cb act(1) by (auto simp: ev wpp)
          with 2 RunningAt show ?thesis by (intro exI [of _ Waiting]) (simp add: slot_step.start event_of_def)
        qed
      next
        case Gone
        then have not: "k \<notin> set ?q" "k \<notin> set (thread_states p)" "k \<notin> set (map qr_state act)"
          using at by (simp_all add: wp tp)
        then have none: "events_of k evs = []" by (simp add: ev)
        show ?thesis
        proof (cases "k \<in> set (map qr_state ?b)")
          case True
          then show ?thesis using Gone none by (intro exI [of _ Waiting]) (simp add: wpp slot_step.drop_waiting)
        next
          case False
          then show ?thesis using Gone none not by (intro exI [of _ Gone]) (simp add: wpp slot_step.stay)
        qed
      qed
      show "request_follows p evs p' k"
        unfolding request_follows_def using sim by (auto simp: ev p' simp del: at_slot.simps)
    qed
  qed
qed

lemma inv_flush:
  assumes inv: "protocol_inv p hist" and op: "dispatcher_flush p = Some (p', evs)"
  shows "protocol_inv p' (hist @ evs)"
proof (cases "pi_dispatcher p")
  case Idle
  then show ?thesis using op inv by (simp add: dispatcher_flush_def)
next
  case (Solo qr)
  then show ?thesis using op inv_dispatch [OF inv] by (simp add: dispatcher_flush_def)
next
  case (Collecting cfg batch)
  obtain batch' queue where c: "collect_batch cfg (pi_states p) (pi_queue p) batch = (batch', queue)" by fastforce
  let ?p1 = "p\<lparr>pi_queue := queue, pi_dispatcher := Collecting cfg batch'\<rparr>"
  have "distinct (waiting_states p)" using inv by (simp add: protocol_inv_def pipeline_wf_def)
  with collect_batch_subset [OF c] Collecting
  have "distinct (waiting_states ?p1)" "set (waiting_states ?p1) \<subseteq> set (waiting_states p)"
    by (simp_all add: waiting_states_def)
  then have "protocol_inv ?p1 (hist @ [])" by (intro inv_drop [OF inv]) simp_all
  then have "protocol_inv ?p1 hist" by simp
  from inv_dispatch [OF this] op Collecting c show ?thesis by (simp add: dispatcher_flush_def)
qed

lemma snd_update_subset: "snd ` set (AList.update k v xs) \<subseteq> insert v (snd ` set xs)"
  by (induction xs) (auto split: if_splits)

lemma inv_generate:
  assumes inv: "protocol_inv p hist" and op: "generate rq plan cb tok p = Some (r, p', evs)"
  shows "protocol_inv p' (hist @ evs)"
proof (cases "is_ok r")
  case False
  then have "p' = p" "evs = []"
    using op by (auto simp: generate_def Let_def split: if_splits)
  then show ?thesis using inv by simp
next
  case True
  let ?k = "length (pi_states p)"
  let ?ar = "\<lparr>ar_request = rq, ar_plan = plan, ar_callback = cb, ar_active = True,
      ar_tokens_emitted = 0, ar_next_expected_position = 0, ar_token_history = [], ar_cancel = tok\<rparr>"
  have wf: "pipeline_wf p" using inv by (simp add: protocol_inv_def)
  have "pi_active_requests p' = AList.update (iq_request_id rq) ?k (pi_active_requests p)"
    using op True by (auto simp: generate_def launch_worker_def Let_def split: if_splits)
  then have ids: "snd ` set (pi_active_requests p') \<subseteq> insert ?k (snd ` set (pi_active_requests p))"
    by (simp only: snd_update_subset)
  have facts: "pi_states p' = pi_states p @ [?ar] \<and>
      ((\<exists>m. pi_threads p' = pi_threads p @ [\<lparr>wk_state = ?k, wk_mode = m, wk_pos = 0\<rparr>]) \<and>
         waiting_states p' = waiting_states p \<and> evs = emit_started ?k ?ar \<or>
       pi_threads p' = pi_threads p \<and> waiting_states p' = waiting_states p @ [?k] \<and> evs = emit_queued ?k ?ar)"
    using op True
    by (auto simp: generate_def launch_worker_def waiting_states_def Let_def split: if_splits)
  have old: "?k \<notin> set (waiting_states p)" "?k \<notin> set (thread_states p)"
    using wf by (auto simp: pipeline_wf_def)
  then have thr: "\<And>w. w \<in> set (pi_threads p) \<Longrightarrow> wk_state w \<noteq> ?k"
    unfolding thread_states_def set_map by (metis imageI)
  have shape: "thread_states p' = thread_states p @ [?k] \<and> waiting_states p' = waiting_states p \<or>
      thread_states p' = thread_states p \<and> waiting_states p' = waiting_states p @ [?k]"
    using facts by (auto simp: thread_states_def)
  show ?thesis
  proof (rule protocol_inv_step [OF inv])
    show "pipeline_wf p'"
      unfolding pipeline_wf_def
    proof
      show "distinct (waiting_states p' @ thread_states p')"
        using wf shape old unfolding pipeline_wf_def by auto
      show "\<forall>k \<in> set (waiting_states p' @ thread_states p') \<union> snd ` set (pi_active_requests p'). k < length (pi_states p')"
      proof
        fix k
        assume "k \<in> set (waiting_states p' @ thread_states p') \<union> snd ` set (pi_active_requests p')"
        then have "k = ?k \<or> k \<in> set (waiting_states p @ thread_states p) \<union> snd ` set (pi_active_requests p)"
          using shape ids by auto
        then show "k < length (pi_states p')" using wf facts by (auto simp: pipeline_wf_def less_Suc_eq)
      qed
    qed
    have evk: "events_of k evs = []" if "k \<noteq> ?k" for k
      using facts that by (auto simp: emit_started_def emit_queued_def)
    have slots: "at_slot p' k s = at_slot p k s" if "k \<noteq> ?k" for k s
      using facts that by (cases s) (auto simp: thread_states_def)
    have "slot_step s [] s" for s by (rule slot_step.stay) simp
    then have old_ok: "request_follows p evs p' k" if "k < ?k" for k
      using facts that evk [of k] slots [of k] by (auto simp: request_follows_def nth_append simp del: at_slot.simps)
    have new: "request_begins p' evs ?k"
    proof -
      have "fits s (if ?k \<in> set (waiting_states p') then Fresh else Open 0)" if "at_slot p' ?k s" for s
        using that facts old thr by (cases s) (auto simp: thread_states_def)
      then show ?thesis
        using facts old by (auto simp: request_begins_def emissions nth_append split: if_splits)
    qed
    show "follows p evs p'"
      unfolding follows_def using facts old_ok new evk by (auto simp: less_Suc_eq)
  qed
qed

lemma node_loss_steps:
  assumes "\<And>rid k. (rid, k) \<in> set reqs \<Longrightarrow> k < length (pi_states p)"
    and "fold (\<lambda>(rid, k) (p, evs).
        let ar = pi_states p ! k in
        if affected lost ar then
          (p\<lparr>pi_states := (pi_states p)[k := ar\<lparr>ar_active := False\<rparr>]\<rparr>,
           evs @ emit k ar ((event_of kReplanningEvent (ar_id ar) 0)\<lparr>ev_metadata := [(''lost_node'', lost)]\<rparr>))
        else (p, evs)) reqs (p, evs0) = (p', evs)"
  shows "protocol_inv p (hist @ evs0) \<longrightarrow> protocol_inv p' (hist @ evs)"
  using assms
proof (induction reqs arbitrary: p evs0)
  case (Cons x reqs)
  obtain rid k where x: "x = (rid, k)" by fastforce
  let ?ar = "pi_states p ! k"
  let ?p1 = "if affected lost ?ar then p\<lparr>pi_states := (pi_states p)[k := ?ar\<lparr>ar_active := False\<rparr>]\<rparr> else p"
  let ?e = "if affected lost ?ar then emit k ?ar ((event_of kReplanningEvent (ar_id ?ar) 0)\<lparr>ev_metadata := [(''lost_node'', lost)]\<rparr>) else []"
  have k: "k < length (pi_states p)" using Cons.prems(1) x by auto
  have "protocol_inv ?p1 ((hist @ evs0) @ ?e)" if "protocol_inv p (hist @ evs0)"
    by (rule inv_stay [OF that]) (use k in \<open>auto simp: waiting_states_def nth_update_callback event_of_def split: if_splits\<close>)
  moreover have "protocol_inv ?p1 (hist @ evs0 @ ?e) \<longrightarrow> protocol_inv p' (hist @ evs)"
    by (rule Cons.IH) (use Cons.prems x in \<open>auto simp: Let_def split: if_splits\<close>)
  ultimately show ?case by simp
qed simp

lemma inv_node_loss:
  assumes "protocol_inv p hist" "detect_node_loss lost p = (p', evs)"
  shows "protocol_inv p' (hist @ evs)"
proof -
  have "k < length (pi_states p)" if "(rid, k) \<in> set (pi_active_requests p)" for rid k
  proof -
    have "k \<in> snd ` set (pi_active_requests p)" using image_eqI [of k snd "(rid, k)"] that by simp
    then show ?thesis using assms(1) unfolding protocol_inv_def pipeline_wf_def by blast
  qed
  then have "protocol_inv p (hist @ []) \<longrightarrow> protocol_inv p' (hist @ evs)"
    by (rule node_loss_steps [OF _ assms(2) [unfolded detect_node_loss_def]])
  then show ?thesis using assms(1) by simp
qed

lemma inv_shutdown:
  assumes inv: "protocol_inv p hist"
  shows "protocol_inv (shutdown p) (hist @ [])"
  by (rule inv_drop [OF inv])
     (auto simp: shutdown_def waiting_states_def shutdown_request_def Let_def nth_enumerate_eq split: if_splits)

lemma inv_same:
  assumes "protocol_inv p hist" "pi_threads p' = pi_threads p" "pi_queue p' = pi_queue p"
    "pi_dispatcher p' = pi_dispatcher p" "pi_states p' = pi_states p" "pi_active_requests p' = pi_active_requests p"
  shows "protocol_inv p' hist"
  using inv_stay [of p hist p' "[]"] assms by (simp add: waiting_states_def)

lemma inv_perform:
  assumes inv: "protocol_inv p hist" and op: "pi_perform c p = Some (p', evs)" and "\<not> is_replan c"
  shows "protocol_inv p' (hist @ evs)"
proof (cases c)
  case (Generate rq plan cb tok)
  then show ?thesis using op inv_generate [OF inv] by auto
next
  case (Cancel k)
  then show ?thesis using op inv inv_cancel [OF inv, of k] by (auto split: if_splits)
next
  case (CancelQueued k)
  then show ?thesis
    using op inv inv_remove_queued [OF inv_cancel [OF inv, of k]] by (auto simp: cancel_queued_handle_def split: if_splits)
next
  case (SetBatching cfg)
  then show ?thesis using op by (auto simp: set_batching_config_def intro: inv_same [OF inv])
next
  case (SetProduction b)
  then show ?thesis using op by (auto simp: set_production_mode_def intro: inv_same [OF inv])
next
  case (SetLocalNode n)
  then show ?thesis using op by (auto simp: set_local_node_id_def intro: inv_same [OF inv])
qed (use op assms(3) inv_node_loss [OF inv] inv_take [OF inv] inv_flush [OF inv] inv_worker_step [OF inv]
      inv_shutdown [OF inv] in auto)

lemma inv_run:
  assumes "protocol_inv p hist" "pi_run cs p = Some (p', evs)" "\<forall>c \<in> set cs. \<not> is_replan c"
  shows "protocol_inv p' (hist @ evs)"
  using assms
proof (induction cs p arbitrary: hist evs rule: pi_run.induct)
  case (2 c cs p)
  then obtain p1 e1 e2 where s: "pi_perform c p = Some (p1, e1)" "pi_run cs p1 = Some (p', e2)" "evs = e1 @ e2"
    by (auto split: option.splits)
  have "protocol_inv p1 (hist @ e1)" using 2 s by (intro inv_perform) auto
  from 2(1) [OF s(1) refl this s(2)] 2(4) s(3) show ?case by simp
qed simp

lemma inv_new: "protocol_inv (new_pipeline d l) []"
  by (auto simp: protocol_inv_def new_pipeline_def pipeline_wf_def waiting_states_def thread_states_def)

section \<open>Completed requests\<close>

text \<open>
  A request that has delivered tokens and was neither cancelled nor lost stays counted: nothing ever
  takes it out of the table of active requests.
\<close>

definition counted :: "pipeline \<Rightarrow> request_id \<Rightarrow> nat \<Rightarrow> bool" where
  "counted p rid k \<longleftrightarrow> map_of (pi_active_requests p) rid = Some k \<and> k < length (pi_states p) \<and>
     ar_active (pi_states p ! k) \<and> ar_tokens_emitted (pi_states p ! k) > 0"

lemma counted_positive: "counted p rid k \<Longrightarrow> active_generation_count p > 0"
proof -
  assume c: "counted p rid k"
  then have "(rid, k) \<in> set (filter (\<lambda>(rid, k). ar_active (pi_states p ! k) \<and> ar_tokens_emitted (pi_states p ! k) > 0)
      (pi_active_requests p))"
    by (auto simp: counted_def dest: map_of_SomeD)
  from length_pos_if_in_set [OF this] show ?thesis by (simp add: active_generation_count_def)
qed

fun leaves_alone :: "request_id \<Rightarrow> nat \<Rightarrow> pipeline_call \<Rightarrow> bool" where
  "leaves_alone rid k (Generate rq plan cb tok) \<longleftrightarrow> iq_request_id rq \<noteq> rid"
| "leaves_alone rid k (Cancel j) \<longleftrightarrow> j \<noteq> k"
| "leaves_alone rid k (CancelQueued j) \<longleftrightarrow> j \<noteq> k"
| "leaves_alone rid k (Replan rid' plan) \<longleftrightarrow> False"
| "leaves_alone rid k (NodeLoss n) \<longleftrightarrow> False"
| "leaves_alone rid k Shutdown \<longleftrightarrow> False"
| "leaves_alone rid k c \<longleftrightarrow> True"

definition finished :: "pipeline \<Rightarrow> request_id \<Rightarrow> nat \<Rightarrow> bool" where
  "finished p rid k \<longleftrightarrow> counted p rid k \<and> at_slot p k Gone"

lemma finished_generate:
  assumes "finished p rid k" "generate rq plan cb tok p = Some (r, p', evs)" "iq_request_id rq \<noteq> rid"
  shows "finished p' rid k"
  using assms
  by (auto simp: finished_def counted_def generate_def launch_worker_def waiting_states_def thread_states_def
      Let_def nth_append update_conv' split: if_splits)

lemma finished_worker_step:
  assumes "finished p rid k" "worker_step j pass it p = (p', evs)"
  shows "finished p' rid k"
proof (cases "j < length (pi_threads p)")
  case True
  have "wk_state (pi_threads p ! j) \<in> set (thread_states p)" using True by (simp add: thread_states_def)
  then have ne: "wk_state (pi_threads p ! j) \<noteq> k" using assms(1) by (auto simp: finished_def)
  obtain ar' next_pos where p': "p' = (case next_pos of
        Some pos \<Rightarrow> p\<lparr>pi_states := (pi_states p)[wk_state (pi_threads p ! j) := ar'],
                      pi_threads := (pi_threads p)[j := (pi_threads p ! j)\<lparr>wk_pos := pos\<rparr>]\<rparr>
      | None \<Rightarrow> p\<lparr>pi_states := (pi_states p)[wk_state (pi_threads p ! j) := ar'],
                  pi_threads := take j (pi_threads p) @ drop (Suc j) (pi_threads p),
                  pi_workers := AList.delete (ar_id (pi_states p ! wk_state (pi_threads p ! j))) (pi_workers p)\<rparr>)"
    by (rule worker_step_cases [OF assms(2) True])
  have "pi_active_requests p' = pi_active_requests p" "waiting_states p' = waiting_states p"
    "length (pi_states p') = length (pi_states p)" "pi_states p' ! k = pi_states p ! k"
    using ne by (simp_all add: p' waiting_states_def split: option.splits)
  moreover have "set (thread_states p') \<subseteq> set (thread_states p)"
  proof (cases next_pos)
    case None
    then show ?thesis by (auto simp: p' thread_states_def dest: in_set_takeD in_set_dropD)
  next
    case (Some q)
    then have "thread_states p' = thread_states p"
      using True list_update_id [of "thread_states p" j] by (simp add: p' thread_states_def map_update)
    then show ?thesis by simp
  qed
  ultimately show ?thesis using assms(1) by (auto simp: finished_def counted_def)
qed (use assms in \<open>simp add: worker_step_def\<close>)

lemma finished_flush:
  assumes "finished p rid k" "dispatcher_flush p = Some (p', evs)"
  shows "finished p' rid k"
proof -
  have step: "finished p2 rid k" if d: "dispatch_batch batch p1 = Some (p2, es)" and f: "finished p1 rid k"
    and b: "k \<notin> set (map qr_state batch)" for batch p1 p2 es
    using dispatch_batch_eq(1) [OF d] f b
    by (auto simp: finished_def counted_def waiting_states_def thread_states_def)
  show ?thesis
  proof (cases "pi_dispatcher p")
    case Idle
    then show ?thesis using assms by (simp add: dispatcher_flush_def)
  next
    case (Solo qr)
    have "finished (p\<lparr>pi_dispatcher := Idle\<rparr>) rid k" "k \<notin> set (map qr_state [qr])"
      using assms(1) Solo by (auto simp: finished_def counted_def waiting_states_def thread_states_def)
    with step show ?thesis using assms(2) Solo by (auto simp: dispatcher_flush_def simp del: dispatch_batch.simps)
  next
    case (Collecting cfg batch)
    obtain batch' queue where c: "collect_batch cfg (pi_states p) (pi_queue p) batch = (batch', queue)" by fastforce
    obtain n where n: "queue = drop n (pi_queue p)"
      "batch' = batch @ filter (\<lambda>qr. ar_active (pi_states p ! qr_state qr)) (take n (pi_queue p))"
      using collect_batch_spec [OF c] by auto
    have w: "k \<notin> set (map qr_state batch)" "k \<notin> set (map qr_state (pi_queue p))"
      using assms(1) Collecting by (auto simp: finished_def waiting_states_def)
    then have "k \<notin> set (map qr_state batch')" "k \<notin> set (map qr_state queue)"
      unfolding n by (auto dest: in_set_takeD in_set_dropD)
    moreover from this have "finished (p\<lparr>pi_queue := queue, pi_dispatcher := Idle\<rparr>) rid k"
      using assms(1) by (auto simp: finished_def counted_def waiting_states_def thread_states_def)
    ultimately show ?thesis using step assms(2) Collecting c by (simp add: dispatcher_flush_def)
  qed
qed

lemma finished_take: "finished p rid k \<Longrightarrow> finished (dispatcher_take p) rid k"
proof -
  assume f: "finished p rid k"
  have gone: "k \<notin> set (waiting_states (dispatcher_take p))"
  proof (cases rule: take_waiting_cases [of p])
    case 1
    then show ?thesis using f by (simp add: finished_def)
  next
    case (2 batch queue)
    have "set (batch @ queue) \<subseteq> set (pi_queue p)"
      using collect_batch_spec [OF 2(2)] by (auto dest: in_set_takeD in_set_dropD)
    then show ?thesis using f unfolding 2(3) by (auto simp: finished_def waiting_states_def)
  qed
  have same: "pi_threads (dispatcher_take p) = pi_threads p" "pi_states (dispatcher_take p) = pi_states p"
    "pi_active_requests (dispatcher_take p) = pi_active_requests p"
    by (auto simp: dispatcher_take_def split: list.splits batching_mode.splits prod.splits)
  show ?thesis using f same gone by (simp add: finished_def counted_def thread_states_def)
qed

lemma finished_remove_queued:
  "finished p rid k \<Longrightarrow> remove_queued rid' p = (p', evs) \<Longrightarrow> finished p' rid k"
  by (auto simp: finished_def counted_def remove_queued_def waiting_states_def thread_states_def Let_def image_iff
      dest!: in_set_takeD in_set_dropD split: option.splits)

lemma finished_cancel: "finished p rid k \<Longrightarrow> j \<noteq> k \<Longrightarrow> finished (cancel_handle j p) rid k"
  by (auto simp: finished_def counted_def cancel_handle_def waiting_states_def thread_states_def)

lemma finished_perform:
  assumes "finished p rid k" "pi_perform c p = Some (p', evs)" "leaves_alone rid k c"
  shows "finished p' rid k"
proof (cases c)
  case (Generate rq plan cb tok)
  then show ?thesis using assms finished_generate by auto
next
  case (CancelQueued j)
  then show ?thesis
    using assms finished_remove_queued [OF finished_cancel] by (auto simp: cancel_queued_handle_def split: if_splits)
next
  case (WorkerStep j pass it)
  then show ?thesis using assms finished_worker_step by auto
next
  case DispatcherFlush
  then show ?thesis using assms finished_flush by auto
next
  case (Cancel j)
  then show ?thesis using assms finished_cancel by (auto split: if_splits)
next
  case DispatcherTake
  then show ?thesis using assms finished_take by auto
qed (use assms in \<open>auto simp: finished_def counted_def set_batching_config_def set_production_mode_def
      set_local_node_id_def waiting_states_def thread_states_def\<close>)

lemma finished_run:
  assumes "finished p rid k" "pi_run cs p = Some (p', evs)" "\<forall>c \<in> set cs. leaves_alone rid k c"
  shows "finished p' rid k"
  using assms
proof (induction cs p arbitrary: evs rule: pi_run.induct)
  case (2 c cs p)
  then obtain p1 e1 e2 where s: "pi_perform c p = Some (p1, e1)" "pi_run cs p1 = Some (p', e2)"
    by (auto split: option.splits)
  have "finished p1 rid k" by (rule finished_perform [OF 2(2) s(1)]) (use 2(4) in simp)
  from 2(1) [OF s(1) refl this s(2)] 2(4) show ?case by simp
qed simp

section \<open>A generation from its first to its last token\<close>

text \<open>The loop of \<open>run_generation_simulated\<close> run to its end, with fuel.\<close>

fun simulate :: "nat \<Rightarrow> nat \<Rightarrow> bool \<Rightarrow> active_request \<Rightarrow> u64 \<Rightarrow> (active_request \<times> pipeline_event list) option" where
  "simulate 0 k stop ar pos = None"
| "simulate (Suc n) k stop ar pos =
     (case run_generation_simulated k stop ar pos of
        (ar', evs, None) \<Rightarrow> Some (ar', evs)
      | (ar', evs, Some q) \<Rightarrow> map_option (\<lambda>(a, es). (a, evs @ es)) (simulate n k stop ar' q))"

abbreviation max_tokens :: "active_request \<Rightarrow> nat" where
  "max_tokens ar \<equiv> unat (go_maximum_new_tokens (iq_generation (ar_request ar)))"

lemma unat_ucast_u32: "unat (ucast (m :: u32) :: u64) = unat m"
proof -
  have "uint (ucast m :: u64) = uint m" by (rule uint_up_ucast) (simp add: is_up)
  then show ?thesis unfolding unat_eq_nat_uint by (rule arg_cong)
qed

lemma loop_continues_iff:
  "loop_continues stop ar (of_nat i) \<longleftrightarrow> i < max_tokens ar \<and> ar_active ar \<and> \<not> stop" if "i < 2 ^ 32"
proof -
  have "unat (of_nat i :: u64) = i" using that by (simp add: unat_of_nat)
  then show ?thesis by (auto simp: loop_continues_def word_less_nat_alt unat_ucast_u32)
qed

lemma max_tokens_bound: "max_tokens ar < 2 ^ 32"
proof -
  have "unat m < 2 ^ 32" for m :: u32
  proof -
    have "unat m < 2 ^ LENGTH(32)" by (rule unsigned_less)
    then show ?thesis by simp
  qed
  then show ?thesis .
qed

lemma simulate_step:
  assumes "loop_continues stop ar pos"
  shows "simulate (Suc n) k stop ar pos =
    map_option (\<lambda>(a, es). (a, emit_token k ar pos (token_of_pos pos) (''tok:'' @ to_string pos) @ es))
      (simulate n k stop (record_token pos (token_of_pos pos) ar) (pos + 1))"
  using assms by (simp add: run_generation_simulated_def)

lemma simulate_completes:
  assumes "ar_active ar" "ar_callback ar" "i + n = max_tokens ar" "ar_tokens_emitted ar = of_nat i"
  shows "\<exists>ar' evs. simulate (Suc n) k False ar (of_nat i) = Some (ar', evs) \<and>
    map ev_sequence (events_of k evs) = map of_nat [i ..< Suc (i + n)] \<and>
    map ev_kind (events_of k evs) = replicate n kToken @ [kCompleted] \<and>
    map tk_position (ar_token_history ar') = map tk_position (ar_token_history ar) @ map of_nat [i ..< i + n]"
  using assms
proof (induction n arbitrary: i ar)
  case 0
  have "i < 2 ^ 32" using 0(3) max_tokens_bound [of ar] by linarith
  from loop_continues_iff [OF this, of False ar] have "\<not> loop_continues False ar (of_nat i)" using 0(3) by simp
  with 0 show ?case by (simp add: run_generation_simulated_def emissions)
next
  case (Suc n)
  have i: "i < 2 ^ 32" using max_tokens_bound [of ar] Suc.prems(3) by simp
  have go: "loop_continues False ar (of_nat i)" using Suc.prems i by (simp add: loop_continues_iff)
  let ?ar = "record_token (of_nat i) (token_of_pos (of_nat i)) ar"
  have "ar_active ?ar" "ar_callback ?ar" "Suc i + n = max_tokens ?ar" "ar_tokens_emitted ?ar = of_nat (Suc i)"
    using Suc.prems by (simp_all add: record_token_def)
  from Suc.IH [OF this] obtain ar' evs where *: "simulate (Suc n) k False ?ar (of_nat (Suc i)) = Some (ar', evs)"
    "map ev_sequence (events_of k evs) = map of_nat [Suc i ..< Suc (Suc i + n)]"
    "map ev_kind (events_of k evs) = replicate n kToken @ [kCompleted]"
    "map tk_position (ar_token_history ar') = map tk_position (ar_token_history ?ar) @ map of_nat [Suc i ..< Suc i + n]"
    by blast
  let ?e = "emit_token k ar (of_nat i) (token_of_pos (of_nat i)) (''tok:'' @ to_string (of_nat i :: u64))"
  have "simulate (Suc (Suc n)) k False ar (of_nat i) = Some (ar', ?e @ evs)"
    unfolding simulate_step [OF go] using *(1) by (simp add: add.commute del: simulate.simps(2))
  moreover have "[i ..< Suc (i + Suc n)] = i # [Suc i ..< Suc (Suc i + n)]" "[i ..< i + Suc n] = i # [Suc i ..< Suc i + n]"
    by (simp_all add: upt_conv_Cons)
  ultimately show ?case using *(2-4) Suc.prems(2)
    by (intro exI [of _ ar'] exI [of _ "?e @ evs"]) (simp add: emissions record_token_def)
qed

section \<open>Properties\<close>

definition example_request :: "request_id \<Rightarrow> u32 \<Rightarrow> inference_request" where
  "example_request rid n = \<lparr>iq_request_id = rid, iq_session_id = ''s'', iq_model_id = ''m'', iq_prompt = ''hello'',
     iq_generation = \<lparr>go_maximum_new_tokens = n, go_context_window = 128, go_temperature = 1, go_top_p = 1, go_seed = None\<rparr>,
     iq_deadline = 0\<rparr>"

definition example_active :: "u32 \<Rightarrow> active_request" where
  "example_active n = \<lparr>ar_request = example_request ''r'' n, ar_plan = example_saved_plan, ar_callback = True,
     ar_active = True, ar_tokens_emitted = 0, ar_next_expected_position = 0, ar_token_history = [], ar_cancel = 0\<rparr>"

text \<open>One request that is started at once and served to its end, and one that is queued.\<close>

definition example_pipeline_calls :: "pipeline_call list" where
  "example_pipeline_calls =
     [Generate (example_request ''r'' 1) example_saved_plan True 0, WorkerStep 0 (Err kInternal []) LocalStop,
      WorkerStep 0 (Err kInternal []) LocalStop, SetBatching (default_batching\<lparr>bc_mode := kAdaptive\<rparr>),
      Generate (example_request ''q'' 1) example_saved_plan True 1]"

definition example_pipeline :: pipeline where
  "example_pipeline = (case pi_run example_pipeline_calls (new_pipeline False False) of
     Some (p, evs) \<Rightarrow> p | None \<Rightarrow> new_pipeline False False)"

lemma example_run:
  "case pi_run example_pipeline_calls (new_pipeline False False) of
     Some (p, evs) \<Rightarrow> map ev_kind (events_of 0 evs) = [kStarted, kToken, kCompleted] \<and> finished p ''r'' 0
       \<and> pi_dispatcher p = Idle \<and> length (pi_queue p) = 1
   | None \<Rightarrow> False"
  by code_simp

text \<open>
  C3. Every event stream obeys the protocol. In any interleaving of admissions, cancellations, node
  losses, dispatcher rounds, worker iterations, configuration changes and the destructor, with
  either batching mode and any of the three generation loops, the events of each request are: queued
  or started, then tokens with strictly increasing sequence numbers, then at most one terminal event
  and no token after it (replanning notices apart). Only \<open>replan\<close> is excluded.
\<close>

theorem event_streams_obey_protocol:
  assumes "pi_run calls (new_pipeline distributed llama) = Some (p, evs)" "\<forall>c \<in> set calls. \<not> is_replan c"
  shows "stream_ok (events_of k evs)"
  using inv_run [OF inv_new assms] by (auto simp: protocol_inv_def stream_ok_def)

theorem event_streams_obey_protocol_witness:
  "\<exists>p evs. pi_run example_pipeline_calls (new_pipeline False False) = Some (p, evs) \<and> stream_ok (events_of 0 evs) \<and>
     map ev_kind (events_of 0 evs) = [kStarted, kToken, kCompleted]"
proof -
  obtain p evs where r: "pi_run example_pipeline_calls (new_pipeline False False) = Some (p, evs)"
    "map ev_kind (events_of 0 evs) = [kStarted, kToken, kCompleted]"
    using example_run by (auto split: option.splits)
  moreover have "\<forall>c \<in> set example_pipeline_calls. \<not> is_replan c" by (simp add: example_pipeline_calls_def)
  ultimately show ?thesis using event_streams_obey_protocol [OF r(1), of 0] by auto
qed

text \<open>
  C25. A simulated generation terminates and delivers everything that was asked for: a request that
  is neither cancelled nor deactivated yields exactly \<open>maximum_new_tokens\<close> tokens, at the positions
  0, 1, 2, ..., and then one completion event carrying that count, after \<open>maximum_new_tokens\<close> + 1
  iterations of the loop.
\<close>

theorem simulated_generation_completes:
  assumes "ar_active ar" "ar_callback ar" "ar_tokens_emitted ar = 0" "ar_token_history ar = []"
  shows "\<exists>ar' evs. simulate (Suc (max_tokens ar)) k False ar 0 = Some (ar', evs) \<and>
    map ev_sequence (events_of k evs) = map of_nat [0 ..< Suc (max_tokens ar)] \<and>
    map ev_kind (events_of k evs) = replicate (max_tokens ar) kToken @ [kCompleted] \<and>
    map tk_position (ar_token_history ar') = map of_nat [0 ..< max_tokens ar]"
  using simulate_completes [of ar 0 "max_tokens ar" k] assms by simp

theorem simulated_generation_completes_witness:
  "\<exists>ar' evs. simulate 4 7 False (example_active 3) 0 = Some (ar', evs) \<and>
     map ev_sequence (events_of 7 evs) = [0, 1, 2, 3]"
proof -
  have "max_tokens (example_active 3) = 3" by (simp add: example_active_def example_request_def)
  then show ?thesis using simulated_generation_completes [of "example_active 3" 7]
    by (auto simp: example_active_def upt_rec eval_nat_numeral simp del: simulate.simps)
qed

text \<open>
  The table of active requests is never cleaned up: once a worker has ended after emitting a
  token, \<open>active_generation_count\<close> stays positive through every further operation that does not
  deactivate that very request (another request under the same identifier, its own handle,
  \<open>replan\<close>, a node loss or the destructor), whatever the other requests do.
\<close>

theorem finished_generation_counts_forever:
  assumes "finished p rid k" "pi_run calls p = Some (p', evs)" "\<forall>c \<in> set calls. leaves_alone rid k c"
  shows "active_generation_count p' > 0"
  using finished_run [OF assms] unfolding finished_def by (intro counted_positive) blast

theorem finished_generation_counts_forever_witness:
  "\<exists>p' evs. pi_run [DispatcherTake, SetProduction True] example_pipeline = Some (p', evs) \<and> active_generation_count p' > 0"
proof -
  have f: "finished example_pipeline ''r'' 0" by code_simp
  obtain p' evs where r: "pi_run [DispatcherTake, SetProduction True] example_pipeline = Some (p', evs)" by simp
  then show ?thesis using finished_generation_counts_forever [OF f r] by simp
qed

text \<open>
  C27. Adaptive batching takes a prefix of the queue in arrival order: the batch consists of the
  still active requests among the first \<open>n\<close>, none of them with a long context and no more than
  \<open>max_batch_size\<close> of them, the rest stays queued in order, and \<open>n\<close> is as large as it can be: the
  next request has a long context or the batch is full.
\<close>

theorem adaptive_batch_is_fifo_prefix:
  assumes "pi_dispatcher p = Idle" "pi_dispatcher_running p" "bc_mode (pi_batching p) = kAdaptive"
    "pi_queue p = first # rest" "\<not> is_long_context (pi_batching p) first"
  shows "\<exists>n \<le> length (pi_queue p). \<exists>batch.
    batch = filter (\<lambda>qr. ar_active (pi_states p ! qr_state qr)) (take n (pi_queue p)) \<and>
    pi_queue (dispatcher_take p) = drop n (pi_queue p) \<and>
    pi_dispatcher (dispatcher_take p) = (if batch = [] then Idle else Collecting (pi_batching p) batch) \<and>
    (\<forall>qr \<in> set batch. \<not> is_long_context (pi_batching p) qr) \<and>
    length batch \<le> unat (bc_max_batch_size (pi_batching p)) \<and>
    (n < length (pi_queue p) \<longrightarrow>
       length batch = unat (bc_max_batch_size (pi_batching p)) \<or> is_long_context (pi_batching p) (pi_queue p ! n))"
proof -
  obtain batch queue where c: "collect_batch (pi_batching p) (pi_states p) (pi_queue p) [] = (batch, queue)" by fastforce
  have t: "pi_queue (dispatcher_take p) = queue"
    "pi_dispatcher (dispatcher_take p) = (if batch = [] then Idle else Collecting (pi_batching p) batch)"
    using assms c by (simp_all add: dispatcher_take_def)
  from collect_batch_spec [OF c] obtain n where n: "n \<le> length (pi_queue p)" "queue = drop n (pi_queue p)"
    "batch = filter (\<lambda>qr. ar_active (pi_states p ! qr_state qr)) (take n (pi_queue p))"
    "\<forall>qr \<in> set (take n (pi_queue p)). \<not> is_long_context (pi_batching p) qr"
    "length batch \<le> unat (bc_max_batch_size (pi_batching p))"
    "queue \<noteq> [] \<longrightarrow> length batch \<ge> unat (bc_max_batch_size (pi_batching p)) \<or> is_long_context (pi_batching p) (hd queue)"
    by auto
  have "n < length (pi_queue p) \<longrightarrow>
       length batch = unat (bc_max_batch_size (pi_batching p)) \<or> is_long_context (pi_batching p) (pi_queue p ! n)"
    using n(2,5,6) by (auto simp: hd_drop_conv_nth)
  then show ?thesis using t n by (intro exI [of _ n] exI [of _ batch] conjI) simp_all
qed

theorem adaptive_batch_is_fifo_prefix_witness:
  "pi_queue example_pipeline \<noteq> [] \<and>
     (\<exists>n. pi_queue (dispatcher_take example_pipeline) = drop n (pi_queue example_pipeline))"
proof -
  have c: "pi_dispatcher example_pipeline = Idle" "pi_dispatcher_running example_pipeline"
    "bc_mode (pi_batching example_pipeline) = kAdaptive" by code_simp+
  have "pi_queue example_pipeline \<noteq> [] \<and> \<not> is_long_context (pi_batching example_pipeline) (hd (pi_queue example_pipeline))"
    by code_simp
  then obtain first rest where q: "pi_queue example_pipeline = first # rest"
    "\<not> is_long_context (pi_batching example_pipeline) first" by (metis list.collapse)
  from adaptive_batch_is_fifo_prefix [OF c this]
  obtain n where "pi_queue (dispatcher_take example_pipeline) = drop n (pi_queue example_pipeline)" by (elim exE conjE) (rule that)
  moreover have "pi_queue example_pipeline \<noteq> []" using q(1) by simp
  ultimately show ?thesis by (intro conjI exI [of _ n])
qed

text \<open>
  A batch size of zero starves the queue: in adaptive mode a dispatcher round with a short
  request in front takes nothing and changes nothing, so no sequence of rounds ever starts it. The
  same holds in immediate mode for whatever was queued before the mode was changed.
\<close>

theorem zero_batch_size_starves:
  assumes "pi_dispatcher p = Idle" "pi_queue p = first # rest"
    "bc_mode (pi_batching p) = kAdaptive \<and> bc_max_batch_size (pi_batching p) = 0 \<and>
       \<not> is_long_context (pi_batching p) first \<or> bc_mode (pi_batching p) = kImmediate"
  shows "pi_run (concat (replicate rounds [DispatcherTake, DispatcherFlush])) p = Some (p, [])"
proof -
  have t: "dispatcher_take p = p" using assms by (auto simp: dispatcher_take_def)
  have f: "dispatcher_flush p = Some (p, [])" using assms by (simp add: dispatcher_flush_def)
  show ?thesis by (induction rounds) (simp_all add: t f)
qed

theorem zero_batch_size_starves_witness:
  "pi_run (concat (replicate 5 [DispatcherTake, DispatcherFlush])) (set_batching_config default_batching example_pipeline) =
     Some (set_batching_config default_batching example_pipeline, [])"
proof -
  let ?p = "set_batching_config default_batching example_pipeline"
  have c: "pi_dispatcher ?p = Idle" "bc_mode (pi_batching ?p) = kImmediate" "pi_queue ?p \<noteq> []" by code_simp+
  then obtain first rest where "pi_queue ?p = first # rest" by (meson list.exhaust)
  from zero_batch_size_starves [OF c(1) this, of 5] c(2) show ?thesis by blast
qed

lemma completed_then_more:
  assumes "terminal_kind (ev_kind later) \<or> ev_kind later = kToken" "ev_kind ev = kCompleted"
  shows "\<not> stream_ok (evs @ [ev, later])"
  using assms
  by (auto simp: stream_ok_def advance_all_append dest!: terminal_cases split: option.splits)

lemma replayed_kinds:
  "ar_callback ar \<Longrightarrow> map ev_kind (events_of k (replay_events k ar rid i recs)) = replicate (length recs) kToken"
  by (induction recs arbitrary: i) (simp_all add: event_of_def)

text \<open>
  \<open>replan\<close> announces completion of a request that goes on: when the replacement is accepted the
  callback receives a replanning notice, the recorded tokens again from sequence number 0 and a
  completion event, while the request is active and its worker, if any, keeps its position. A
  stream that had started and then gets a token, or another terminal event, violates the protocol.
\<close>

theorem replan_completes_and_continues:
  assumes "map_of (pi_active_requests p) rid = Some k" "k < length (pi_states p)" "ar_callback (pi_states p ! k)"
    "lf_term (pp_fence (ar_plan (pi_states p ! k))) < lf_term (pp_fence replacement)"
    "terminal_kind (ev_kind later) \<or> ev_kind later = kToken"
  shows "\<exists>p' evs. replan rid replacement p = (Ok True, p', evs) \<and> ar_active (pi_states p' ! k) \<and>
    pi_threads p' = pi_threads p \<and> pi_workers p' = pi_workers p \<and>
    map ev_kind (events_of k evs) =
      kReplanningEvent # replicate (length (ar_token_history (pi_states p ! k))) kToken @ [kCompleted] \<and>
    \<not> stream_ok (before @ events_of k evs @ [later])"
proof -
  let ?ar = "pi_states p ! k"
  let ?p' = "p\<lparr>pi_states := (pi_states p)[k := ?ar\<lparr>ar_plan := replacement, ar_active := True\<rparr>]\<rparr>"
  let ?note = "(event_of kReplanningEvent rid (ar_tokens_emitted ?ar))\<lparr>ev_metadata :=
    [(''replacement_plan_id'', pp_plan_id replacement)]\<rparr>"
  let ?replay = "replay_events k ?ar rid 0 (ar_token_history ?ar)"
  let ?done = "event_of kCompleted rid (ar_tokens_emitted ?ar)"
  let ?evs = "[(k, ?note)] @ ?replay @ [(k, ?done)]"
  have r: "replan rid replacement p = (Ok True, ?p', ?evs)"
    using assms(1,3,4) by (simp add: replan_def Let_def not_le emit_def)
  have "\<not> stream_ok (before @ events_of k ?evs @ [later])"
    using completed_then_more [OF assms(5), of ?done "before @ ?note # events_of k ?replay"] by (simp add: event_of_def)
  moreover have "map ev_kind (events_of k ?evs) =
      kReplanningEvent # replicate (length (ar_token_history ?ar)) kToken @ [kCompleted]"
    using assms(3) by (simp add: replayed_kinds) (simp add: event_of_def)
  ultimately show ?thesis using r assms(2) by (intro exI [of _ ?p'] exI [of _ ?evs]) simp
qed

theorem replan_completes_and_continues_witness:
  "\<exists>p' evs. replan ''r'' (example_saved_plan\<lparr>pp_fence := (pp_fence example_saved_plan)\<lparr>lf_term := 9\<rparr>\<rparr>) example_pipeline =
     (Ok True, p', evs) \<and> \<not> stream_ok ([] @ events_of 0 evs @ [event_of kToken ''r'' 1])"
proof -
  let ?new = "example_saved_plan\<lparr>pp_fence := (pp_fence example_saved_plan)\<lparr>lf_term := 9\<rparr>\<rparr>"
  have c: "map_of (pi_active_requests example_pipeline) ''r'' = Some 0" "0 < length (pi_states example_pipeline)"
    "ar_callback (pi_states example_pipeline ! 0)"
    "lf_term (pp_fence (ar_plan (pi_states example_pipeline ! 0))) < lf_term (pp_fence ?new)"
    "terminal_kind (ev_kind (event_of kToken ''r'' 1)) \<or> ev_kind (event_of kToken ''r'' 1) = kToken" by code_simp+
  from replan_completes_and_continues [OF c, of "[]"] show ?thesis by (elim exE conjE) (intro exI conjI)
qed

text \<open>
  The handle of a queued request is made from the back of the queue after the lock was released.
  It is the request's own as long as nothing intervenes; when the dispatcher takes the request
  first, the queue is empty and there is no entry to make it from; when another request is admitted
  first, the caller gets the handle of that request and cancels the wrong generation.
\<close>

theorem queued_handle_race:
  assumes "generate rq plan cb tok p = Some (Ok k, p1, evs)" "bc_mode (pi_batching p) = kSerial"
    "pi_queue p = []" "pi_dispatcher p = Idle" "pi_dispatcher_running p"
  shows "queued_handle p1 = Some k \<and> queued_handle (dispatcher_take p1) = None \<and>
    (\<forall>rq' plan' cb' tok' j p2 evs'. generate rq' plan' cb' tok' p1 = Some (Ok j, p2, evs') \<longrightarrow>
       queued_handle p2 = Some j \<and> j \<noteq> k)"
proof -
  have p1: "k = length (pi_states p)" "length (pi_states p1) = Suc k" "pi_batching p1 = pi_batching p"
    "\<exists>w. pi_queue p1 = [\<lparr>qr_state = k, qr_context_window = w\<rparr>]" "pi_dispatcher p1 = Idle" "pi_dispatcher_running p1"
    using assms by (auto simp: generate_def Let_def Err_def split: if_splits)
  have "queued_handle p2 = Some j \<and> j \<noteq> k" if "generate rq' plan' cb' tok' p1 = Some (Ok j, p2, evs')"
    for rq' plan' cb' tok' j p2 evs'
    using that p1(2,3) assms(2) by (auto simp: generate_def Let_def Err_def queued_handle_def split: if_splits)
  moreover have "queued_handle (dispatcher_take p1) = None" "queued_handle p1 = Some k"
    using p1 assms(2) by (auto simp: dispatcher_take_def queued_handle_def)
  ultimately show ?thesis by blast
qed

theorem queued_handle_race_witness:
  "\<exists>k p1. queued_handle p1 = Some k \<and> queued_handle (dispatcher_take p1) = None"
proof -
  let ?p = "set_batching_config (default_batching\<lparr>bc_mode := kSerial\<rparr>) (new_pipeline False False)"
  have c: "bc_mode (pi_batching ?p) = kSerial" "pi_queue ?p = []" "pi_dispatcher ?p = Idle" "pi_dispatcher_running ?p"
    by code_simp+
  have "case generate (example_request ''r'' 1) example_saved_plan True 0 ?p of Some (r, p1, evs) \<Rightarrow> r = Ok 0 | _ \<Rightarrow> False"
    by code_simp
  then obtain p1 evs where "generate (example_request ''r'' 1) example_saved_plan True 0 ?p = Some (Ok 0, p1, evs)"
    by (auto split: option.splits)
  from queued_handle_race [OF this c] show ?thesis by blast
qed

end
