(* ===== verification/Local_Model.thy ===== *)
theory Local_Model
  imports Protocol
begin

text \<open>
  The local generation of \<^verbatim>\<open>src/pipeline/inference_pipeline.cpp\<close> with llama.cpp: choosing a model
  file, tokenizing and evaluating the prompt, greedy sampling. The library is a record of the functions
  that the code calls, the file system a function; logits are finite numbers. \<open>sample_iteration\<close>
  computes what \<open>run_generation_local\<close> of the pipeline consumes.
\<close>

section \<open>Choosing the model file\<close>

text \<open>An entry of a directory: its path and its size (\<open>None\<close> when it could not be read).\<close>

record dir_entry =
  en_path :: string
  en_size :: "u64 option"

text \<open>\<open>path::filename\<close> and \<open>path::extension\<close>: the part behind the last slash, and its part from the last dot on.\<close>

definition path_filename :: "string \<Rightarrow> string" where
  "path_filename p = rev (takeWhile (\<lambda>c. c \<noteq> CHR ''/'') (rev p))"

definition path_extension :: "string \<Rightarrow> string" where
  "path_extension p =
     (let f = path_filename p; stem_rev = dropWhile (\<lambda>c. c \<noteq> CHR ''.'') (rev f)
      in if f = ''.'' \<or> f = ''..'' \<or> length stem_rev \<le> 1 then []
         else CHR ''.'' # rev (takeWhile (\<lambda>c. c \<noteq> CHR ''.'') (rev f)))"

definition to_lower :: "char \<Rightarrow> char" where
  "to_lower c = (if 65 \<le> (of_char c :: nat) \<and> (of_char c :: nat) \<le> 90 then char_of ((of_char c :: nat) + 32) else c)"

text \<open>The seven comparisons, in the order of the code.\<close>

definition name_table :: "(string \<times> string) list" where
  "name_table = [(''llama3-8b'', ''llama-3-8b''), (''qwen3-1.8b'', ''1.5b''), (''qwen3-4b'', ''3b''), (''qwen3-6b'', ''7b''),
     (''gemma12b'', ''9b''), (''gemma26b'', ''27b''), (''gemma4-26b'', ''gemma-4'')]"

definition name_matches :: "string \<Rightarrow> string \<Rightarrow> bool" where
  "name_matches mid fname \<longleftrightarrow>
     (\<exists>(key, part) \<in> set name_table. map to_lower mid = key \<and> contains_str (map to_lower fname) part)"

fun scan_entries :: "model_id \<Rightarrow> dir_entry list \<Rightarrow> string \<times> u64 \<Rightarrow> string \<times> u64" where
  "scan_entries mid [] (model_path, best_size) = (model_path, best_size)"
| "scan_entries mid (en # ens) (model_path, best_size) =
     (if path_extension (en_path en) \<noteq> ''.gguf'' then scan_entries mid ens (model_path, best_size)
      else case en_size en of
        None \<Rightarrow> scan_entries mid ens (model_path, best_size)
      | Some sz \<Rightarrow>
          if sz < 1000000 then scan_entries mid ens (model_path, best_size)
          else if mid \<noteq> [] \<and> name_matches mid (path_filename (en_path en)) then (en_path en, best_size)
          else if sz < best_size then
            (if model_path = [] \<or> mid \<noteq> [] then scan_entries mid ens (model_path, sz)
             else scan_entries mid ens (en_path en, sz))
          else scan_entries mid ens (model_path, best_size))"

text \<open>\<open>list_dir\<close> stands for the file system; \<open>None\<close> is a directory that does not exist.\<close>

fun scan_dirs :: "(string \<Rightarrow> dir_entry list option) \<Rightarrow> model_id \<Rightarrow> string list \<Rightarrow> u64 \<Rightarrow> string" where
  "scan_dirs list_dir mid [] best_size = []"
| "scan_dirs list_dir mid (dir # dirs) best_size =
     (case list_dir dir of
        None \<Rightarrow> scan_dirs list_dir mid dirs best_size
      | Some ens \<Rightarrow>
          (case scan_entries mid ens ([], best_size) of
             (model_path, best_size') \<Rightarrow>
               if model_path \<noteq> [] then model_path else scan_dirs list_dir mid dirs best_size'))"

definition model_dirs :: "string list" where
  "model_dirs = [''/tmp/socrates-master/models'', ''/tmp/socrates-worker/models'']"

definition find_gguf :: "(string \<Rightarrow> dir_entry list option) \<Rightarrow> model_id \<Rightarrow> string" where
  "find_gguf list_dir mid = scan_dirs list_dir mid model_dirs (- 1)"

section \<open>Setting up llama.cpp\<close>

record llama_batch =
  lb_token :: "i32 list"
  lb_pos :: "nat list"
  lb_logits :: "bool list"

text \<open>
  The functions of llama.cpp that the loop calls. \<open>ll_tokenize\<close> gets the buffer and returns the
  number of tokens (negative when the buffer is too small) and the buffer.
\<close>

record ('m, 'x) llama_engine =
  ll_load :: "string \<Rightarrow> 'm option"
  ll_context :: "'m \<Rightarrow> u32 \<Rightarrow> 'x option"
  ll_n_vocab :: "'m \<Rightarrow> nat"
  ll_tokenize :: "'m \<Rightarrow> string \<Rightarrow> i32 list \<Rightarrow> int \<times> i32 list"
  ll_decode :: "'x \<Rightarrow> llama_batch \<Rightarrow> bool \<times> 'x"
  ll_logits :: "'x \<Rightarrow> double list option"
  ll_is_eog :: "'m \<Rightarrow> i32 \<Rightarrow> bool"
  ll_piece :: "'m \<Rightarrow> i32 \<Rightarrow> string"

text \<open>\<open>vector::resize\<close>: new elements are zero.\<close>

definition resize :: "nat \<Rightarrow> i32 list \<Rightarrow> i32 list" where
  "resize n xs = take n xs @ replicate (n - length xs) 0"

definition tokenize_prompt :: "('m, 'x) llama_engine \<Rightarrow> 'm \<Rightarrow> string \<Rightarrow> i32 list option" where
  "tokenize_prompt eng m prompt =
     (let (n, buf) = ll_tokenize eng m prompt (replicate (length prompt + 4) 0);
          (n', buf') = (if n < 0 then
               (case ll_tokenize eng m prompt (resize (nat (- n)) buf) of (k, b) \<Rightarrow> (if k < 0 then - k else k, b))
             else (n, buf))
      in if n' \<le> 0 then None else Some (resize (nat n') buf'))"

text \<open>The batches of at most 512 tokens that evaluate the prompt; the last token of a batch asks for logits.\<close>

function prompt_batches :: "nat \<Rightarrow> i32 list \<Rightarrow> llama_batch list" where
  "prompt_batches pos toks =
     (if toks = [] then []
      else let n = min 512 (length toks) in
        \<lparr>lb_token = take n toks, lb_pos = [pos ..< pos + n], lb_logits = replicate (n - 1) False @ [True]\<rparr>
          # prompt_batches (pos + n) (drop n toks))"
  by pat_completeness auto
termination
  by (relation "measure (\<lambda>(pos, toks). length toks)") auto

fun eval_batches :: "('m, 'x) llama_engine \<Rightarrow> 'x \<Rightarrow> llama_batch list \<Rightarrow> 'x option" where
  "eval_batches eng ctx [] = Some ctx"
| "eval_batches eng ctx (b # bs) = (case ll_decode eng ctx b of (False, ctx') \<Rightarrow> None | (True, ctx') \<Rightarrow> eval_batches eng ctx' bs)"

text \<open>Everything before the generation loop: \<open>None\<close> is one of the five failures, each of which emits \<open>kFailed\<close>.\<close>

definition setup_local ::
  "('m, 'x) llama_engine \<Rightarrow> (string \<Rightarrow> dir_entry list option) \<Rightarrow> inference_request \<Rightarrow> ('m \<times> 'x \<times> nat) option" where
  "setup_local eng list_dir rq =
     (let path = find_gguf list_dir (iq_model_id rq) in
      if path = [] then None
      else case ll_load eng path of
        None \<Rightarrow> None
      | Some m \<Rightarrow>
          (case ll_context eng m (go_context_window (iq_generation rq)) of
             None \<Rightarrow> None
           | Some ctx \<Rightarrow>
               (case tokenize_prompt eng m (iq_prompt rq) of
                  None \<Rightarrow> None
                | Some toks \<Rightarrow> map_option (\<lambda>ctx'. (m, ctx', length toks)) (eval_batches eng ctx (prompt_batches 0 toks)))))"

section \<open>The generation loop\<close>

text \<open>\<open>None\<close> is the initial maximum, minus infinity.\<close>

fun greedy_loop :: "nat \<Rightarrow> i32 \<Rightarrow> double option \<Rightarrow> double list \<Rightarrow> i32" where
  "greedy_loop v next_token max_logit [] = next_token"
| "greedy_loop v next_token max_logit (l # ls) =
     (if (case max_logit of None \<Rightarrow> True | Some b \<Rightarrow> l > b) then greedy_loop (Suc v) (int v) (Some l) ls
      else greedy_loop (Suc v) next_token max_logit ls)"

definition greedy_sample :: "nat \<Rightarrow> double list \<Rightarrow> i32" where
  "greedy_sample n_vocab logits = greedy_loop 0 0 None (take n_vocab logits)"

text \<open>What the loop body does with the engine: what is sampled, and the context afterwards.\<close>

definition sample_iteration ::
  "('m, 'x) llama_engine \<Rightarrow> 'm \<Rightarrow> 'x \<Rightarrow> nat \<Rightarrow> local_iteration \<times> 'x \<times> nat" where
  "sample_iteration eng m ctx pos =
     (case ll_logits eng ctx of
        None \<Rightarrow> (LocalStop, ctx, pos)
      | Some logits \<Rightarrow>
          (let tok = greedy_sample (ll_n_vocab eng m) logits in
           if ll_is_eog eng m tok then (LocalStop, ctx, pos)
           else
             (let piece = ll_piece eng m tok;
                  (ok, ctx') = ll_decode eng ctx \<lparr>lb_token = [tok], lb_pos = [pos], lb_logits = [True]\<rparr>
              in (LocalToken tok (if piece = [] then None else Some piece) ok, ctx', pos + 1))))"

text \<open>The loop with fuel, as far as the request stays active and is not cancelled.\<close>

fun local_loop ::
  "nat \<Rightarrow> ('m, 'x) llama_engine \<Rightarrow> 'm \<Rightarrow> nat \<Rightarrow> active_request \<Rightarrow> u64 \<Rightarrow> 'x \<Rightarrow> nat \<Rightarrow> (active_request \<times> pipeline_event list) option" where
  "local_loop 0 eng m k ar i ctx pos = None"
| "local_loop (Suc fuel) eng m k ar i ctx pos =
     (case sample_iteration eng m ctx pos of
        (it, ctx', pos') \<Rightarrow>
          (case run_generation_local k False it ar i of
             (ar', evs, None) \<Rightarrow> Some (ar', evs)
           | (ar', evs, Some i') \<Rightarrow> map_option (\<lambda>(a, es). (a, evs @ es)) (local_loop fuel eng m k ar' i' ctx' pos')))"

definition serve_local ::
  "nat \<Rightarrow> ('m, 'x) llama_engine \<Rightarrow> (string \<Rightarrow> dir_entry list option) \<Rightarrow> nat \<Rightarrow> active_request \<Rightarrow> (active_request \<times> pipeline_event list) option" where
  "serve_local fuel eng list_dir k ar =
     (case setup_local eng list_dir (ar_request ar) of
        None \<Rightarrow> (case run_generation_local k False LocalFail ar 0 of (ar', evs, _) \<Rightarrow> Some (ar', evs))
      | Some (m, ctx, pos) \<Rightarrow> local_loop fuel eng m k ar 0 ctx pos)"

declare prompt_batches.simps [simp del]

section \<open>Lemmas\<close>

text \<open>The file that the code takes: large enough, with the extension and a matching name.\<close>

definition qualifies :: "model_id \<Rightarrow> dir_entry \<Rightarrow> bool" where
  "qualifies mid en \<longleftrightarrow> path_extension (en_path en) = ''.gguf'' \<and> (case en_size en of None \<Rightarrow> False | Some sz \<Rightarrow> sz \<ge> 1000000) \<and>
     mid \<noteq> [] \<and> name_matches mid (path_filename (en_path en))"

lemma scan_entries_find:
  "fst (scan_entries mid ens ([], best)) = (case List.find (qualifies mid) ens of None \<Rightarrow> [] | Some en \<Rightarrow> en_path en)"
proof (induction ens arbitrary: best)
  case (Cons en ens)
  show ?case
  proof (cases "qualifies mid en")
    case True
    then have "scan_entries mid (en # ens) ([], best) = (en_path en, best)"
      by (auto simp: qualifies_def not_less [symmetric] split: option.splits)
    with True show ?thesis by simp
  next
    case False
    then have "\<exists>b. scan_entries mid (en # ens) ([], best) = scan_entries mid ens ([], b)"
      by (cases "en_size en") (auto simp: qualifies_def not_less)
    with False Cons.IH show ?thesis by auto
  qed
qed simp

definition dir_entries :: "(string \<Rightarrow> dir_entry list option) \<Rightarrow> string \<Rightarrow> dir_entry list" where
  "dir_entries list_dir dir = (case list_dir dir of None \<Rightarrow> [] | Some ens \<Rightarrow> ens)"

lemma scan_dirs_find:
  assumes "\<forall>dir \<in> set dirs. \<forall>en \<in> set (dir_entries list_dir dir). en_path en \<noteq> []"
  shows "scan_dirs list_dir mid dirs best =
    (case List.find (qualifies mid) (concat (map (dir_entries list_dir) dirs)) of None \<Rightarrow> [] | Some en \<Rightarrow> en_path en)"
  using assms
proof (induction list_dir mid dirs best rule: scan_dirs.induct)
  case (2 list_dir mid dir dirs best)
  show ?case
  proof (cases "list_dir dir")
    case None
    then show ?thesis using 2 by (simp add: dir_entries_def)
  next
    case (Some ens)
    obtain path best' where sc: "scan_entries mid ens ([], best) = (path, best')" by fastforce
    then have path: "path = (case List.find (qualifies mid) ens of None \<Rightarrow> [] | Some en \<Rightarrow> en_path en)"
      using scan_entries_find [of mid ens best] by simp
    show ?thesis
    proof (cases "List.find (qualifies mid) ens")
      case None
      then show ?thesis using Some sc path 2 by (simp add: dir_entries_def find_append)
    next
      case (Some en)
      then have "en \<in> set ens" by (auto simp: find_Some_iff)
      then have "en_path en \<noteq> []" using 2(3) \<open>list_dir dir = Some ens\<close> by (auto simp: dir_entries_def)
      then show ?thesis using Some \<open>list_dir dir = Some ens\<close> sc path by (simp add: dir_entries_def find_append)
    qed
  qed
qed simp

lemma greedy_loop_spec:
  assumes "max_logit = None \<longrightarrow> v = 0" "\<forall>b. max_logit = Some b \<longrightarrow> t < v \<and> seen ! t = b \<and>
      (\<forall>j < v. seen ! j \<le> b) \<and> (\<forall>j < t. seen ! j < b)" "length seen = v" "seen @ ls \<noteq> []"
  shows "\<exists>r < length (seen @ ls). greedy_loop v (int t) max_logit ls = int r \<and>
    (\<forall>j < length (seen @ ls). (seen @ ls) ! j \<le> (seen @ ls) ! r) \<and> (\<forall>j < r. (seen @ ls) ! j < (seen @ ls) ! r)"
  using assms
proof (induction ls arbitrary: v t max_logit seen)
  case Nil
  then show ?case by (cases max_logit) auto
next
  case (Cons l ls)
  have shift: "seen @ l # ls = (seen @ [l]) @ ls" by simp
  show ?case
  proof (cases "case max_logit of None \<Rightarrow> True | Some b \<Rightarrow> l > b")
    case True
    have "\<exists>r < length ((seen @ [l]) @ ls). greedy_loop (Suc v) (int v) (Some l) ls = int r \<and>
      (\<forall>j < length ((seen @ [l]) @ ls). ((seen @ [l]) @ ls) ! j \<le> ((seen @ [l]) @ ls) ! r) \<and>
      (\<forall>j < r. ((seen @ [l]) @ ls) ! j < ((seen @ [l]) @ ls) ! r)"
      by (rule Cons.IH) (use Cons.prems True in \<open>auto simp: nth_append less_Suc_eq split: option.splits intro: le_less_trans less_imp_le\<close>)
    then show ?thesis using True unfolding shift by simp
  next
    case False
    then obtain b where b: "max_logit = Some b" "l \<le> b" by (auto split: option.splits)
    have "\<exists>r < length ((seen @ [l]) @ ls). greedy_loop (Suc v) (int t) max_logit ls = int r \<and>
      (\<forall>j < length ((seen @ [l]) @ ls). ((seen @ [l]) @ ls) ! j \<le> ((seen @ [l]) @ ls) ! r) \<and>
      (\<forall>j < r. ((seen @ [l]) @ ls) ! j < ((seen @ [l]) @ ls) ! r)"
      by (rule Cons.IH) (use Cons.prems b in \<open>auto simp: nth_append less_Suc_eq\<close>)
    then show ?thesis using False unfolding shift by simp
  qed
qed

lemma local_loop_ends:
  assumes "ar_active ar" "ar_callback ar" "i + n = max_tokens ar"
  shows "\<exists>evs j. local_loop (Suc n) eng m k ar (of_nat i) ctx pos = Some (ar, evs) \<and> j \<le> n \<and>
    map ev_kind (events_of k evs) = replicate j kToken @ [kCompleted]"
  using assms(3)
proof (induction n arbitrary: i ctx pos)
  case 0
  obtain it ctx' pos' where s: "sample_iteration eng m ctx pos = (it, ctx', pos')" by (rule prod_cases3)
  have "it \<noteq> LocalFail" using s by (auto simp: sample_iteration_def Let_def split: option.splits if_splits prod.splits)
  moreover have i: "i < 2 ^ 32" using 0 max_tokens_bound [of ar] by linarith
  from loop_continues_iff [OF i, of False ar] have "\<not> loop_continues False ar (of_nat i)" using 0 by simp
  ultimately show ?case using assms(1,2) s by (simp add: run_generation_local_def emissions)
next
  case (Suc n)
  obtain it ctx' pos' where s: "sample_iteration eng m ctx pos = (it, ctx', pos')" by (rule prod_cases3)
  have nf: "it \<noteq> LocalFail" using s by (auto simp: sample_iteration_def Let_def split: option.splits if_splits prod.splits)
  have "i < 2 ^ 32" using Suc.prems max_tokens_bound [of ar] by linarith
  then have go: "loop_continues False ar (of_nat i)" using Suc.prems assms(1) by (simp add: loop_continues_iff)
  obtain evs j where rec: "local_loop (Suc n) eng m k ar (of_nat (Suc i)) ctx' pos' = Some (ar, evs)" "j \<le> n"
    "map ev_kind (events_of k evs) = replicate j kToken @ [kCompleted]"
    using Suc.IH [of "Suc i" ctx' pos'] Suc.prems by auto
  show ?case
  proof (cases it)
    case (LocalToken tok piece decoded)
    let ?e = "case piece of None \<Rightarrow> [] | Some t \<Rightarrow> emit_token k ar (of_nat i) tok t"
    have kinds: "map ev_kind (events_of k ?e) = replicate (if piece = None then 0 else 1) kToken"
      using assms(2) by (auto simp: emissions split: option.splits)
    show ?thesis
    proof (cases decoded)
      case True
      have "run_generation_local k False it ar (of_nat i) = (ar, ?e, Some (of_nat (Suc i)))"
        using LocalToken True go by (simp add: run_generation_local_def Let_def add.commute)
      then have "local_loop (Suc (Suc n)) eng m k ar (of_nat i) ctx pos = Some (ar, ?e @ evs)"
        using s rec(1) by (simp del: local_loop.simps(2) add: local_loop.simps(2) [of "Suc n"])
      moreover have "map ev_kind (events_of k (?e @ evs)) = replicate ((if piece = None then 0 else 1) + j) kToken @ [kCompleted]"
        using kinds rec(3) by (simp add: replicate_add)
      ultimately show ?thesis using rec(2)
        by (intro exI [of _ "?e @ evs"] exI [of _ "(if piece = None then 0 else 1) + j"]) simp
    next
      case False
      have "local_loop (Suc (Suc n)) eng m k ar (of_nat i) ctx pos = Some (ar, ?e @ emit_terminal k ar True)"
        using LocalToken False go assms(1) s by (simp add: run_generation_local_def Let_def)
      moreover have "map ev_kind (events_of k (?e @ emit_terminal k ar True)) =
          replicate (if piece = None then 0 else 1) kToken @ [kCompleted]"
        using kinds assms(2) by (simp add: emit_terminal_def event_of_def)
      ultimately show ?thesis
        by (intro exI [of _ "?e @ emit_terminal k ar True"] exI [of _ "if piece = None then 0 else 1"]) simp
    qed
  qed (use nf s go assms(1,2) in \<open>auto simp: run_generation_local_def emissions intro!: exI [of _ "0 :: nat"]\<close>)
qed

lemma prompt_batches_tokens: "concat (map lb_token (prompt_batches pos toks)) = toks"
proof (induction pos toks rule: prompt_batches.induct)
  case (1 pos toks)
  show ?case
  proof (cases "toks = []")
    case False
    with 1 have "concat (map lb_token (prompt_batches (pos + min 512 (length toks)) (drop (min 512 (length toks)) toks))) =
        drop (min 512 (length toks)) toks" by simp
    with False show ?thesis by (subst prompt_batches.simps) (simp add: Let_def)
  qed (simp add: prompt_batches.simps)
qed

lemma prompt_batches_positions: "concat (map lb_pos (prompt_batches pos toks)) = [pos ..< pos + length toks]"
proof (induction pos toks rule: prompt_batches.induct)
  case (1 pos toks)
  let ?n = "min 512 (length toks)"
  have split: "[pos ..< pos + ?n] @ [pos + ?n ..< pos + length toks] = [pos ..< pos + length toks]"
    using upt_add_eq_append [of pos "pos + ?n" "length toks - ?n"] by simp
  show ?case
  proof (cases "toks = []")
    case False
    then have "concat (map lb_pos (prompt_batches (pos + ?n) (drop ?n toks))) = [pos + ?n ..< pos + length toks]"
      using 1 by simp
    with False show ?thesis
      by (subst prompt_batches.simps) (simp add: Let_def split)
  qed (simp add: prompt_batches.simps)
qed

section \<open>Properties\<close>

text \<open>
  The model file that is served is the first file, in the master's directory and then in the worker's,
  that has the extension, at least a million bytes and a name matching the requested model; a request
  without a model id, or with an unknown one, finds nothing, since the fallback to the smallest file is never taken.
\<close>

theorem model_file_choice:
  assumes "\<forall>dir \<in> set model_dirs. \<forall>en \<in> set (dir_entries list_dir dir). en_path en \<noteq> []"
  shows "find_gguf list_dir mid =
      (case List.find (qualifies mid) (concat (map (dir_entries list_dir) model_dirs)) of None \<Rightarrow> [] | Some en \<Rightarrow> en_path en) \<and>
    (map to_lower mid \<notin> fst ` set name_table \<longrightarrow> find_gguf list_dir mid = [])"
proof -
  note f = scan_dirs_find [OF assms, of mid "- 1"]
  have "List.find (qualifies mid) ens = None" if "map to_lower mid \<notin> fst ` set name_table" for ens
    using that by (auto simp: find_None_iff qualifies_def name_matches_def intro: rev_image_eqI)
  then show ?thesis using f by (simp add: find_gguf_def)
qed

definition example_dir :: "string \<Rightarrow> dir_entry list option" where
  "example_dir dir = (if dir = ''/tmp/socrates-worker/models'' then Some
     [\<lparr>en_path = ''/tmp/socrates-worker/models/gemma-2-27b.gguf'', en_size = Some 2000000\<rparr>] else None)"

theorem model_file_choice_witness:
  "find_gguf example_dir ''Qwen3-6B'' = ''/tmp/socrates-worker/models/gemma-2-27b.gguf'' \<and> find_gguf example_dir ''mistral'' = []"
proof -
  have p: "\<forall>dir \<in> set model_dirs. \<forall>en \<in> set (dir_entries example_dir dir). en_path en \<noteq> []"
    by (simp add: dir_entries_def example_dir_def)
  have "(case List.find (qualifies ''Qwen3-6B'') (concat (map (dir_entries example_dir) model_dirs)) of None \<Rightarrow> [] | Some en \<Rightarrow> en_path en) =
      ''/tmp/socrates-worker/models/gemma-2-27b.gguf''" by code_simp
  moreover have "map to_lower ''mistral'' \<notin> fst ` set name_table" by code_simp
  ultimately show ?thesis
    using conjunct1 [OF model_file_choice [OF p, of "''Qwen3-6B''"]] conjunct2 [OF model_file_choice [OF p, of "''mistral''"]]
    by (intro conjI) (simp only:, blast)
qed

text \<open>
  Evaluation of the prompt. The batches hold the tokens of the prompt in order, at consecutive
  positions from the first, each with at least one and at most 512 tokens, and ask for logits exactly at the last one.
\<close>

theorem prompt_is_evaluated:
  "concat (map lb_token (prompt_batches pos toks)) = toks \<and>
   concat (map lb_pos (prompt_batches pos toks)) = [pos ..< pos + length toks] \<and>
   (\<forall>b \<in> set (prompt_batches pos toks). lb_token b \<noteq> [] \<and> length (lb_token b) \<le> 512 \<and>
      lb_logits b = replicate (length (lb_token b) - 1) False @ [True])"
proof -
  have "\<forall>b \<in> set (prompt_batches pos toks). lb_token b \<noteq> [] \<and> length (lb_token b) \<le> 512 \<and>
      lb_logits b = replicate (length (lb_token b) - 1) False @ [True]"
  proof (induction pos toks rule: prompt_batches.induct)
    case (1 pos toks)
    then show ?case by (subst prompt_batches.simps) (auto simp: Let_def)
  qed
  then show ?thesis using prompt_batches_tokens prompt_batches_positions by blast
qed

text \<open>
  Greedy sampling picks the first of the greatest logits: no other token of the vocabulary has a greater one,
  and every token before it has a smaller one.
\<close>

theorem greedy_first_maximum:
  assumes "take n_vocab logits \<noteq> []"
  shows "\<exists>t < length (take n_vocab logits). greedy_sample n_vocab logits = int t \<and>
    (\<forall>j < length (take n_vocab logits). logits ! j \<le> logits ! t) \<and> (\<forall>j < t. logits ! j < logits ! t)"
  using greedy_loop_spec [of None 0 0 "[]" "take n_vocab logits"] assms by (auto simp: greedy_sample_def)

theorem greedy_first_maximum_witness:
  "\<exists>t < 3. greedy_sample 3 [1, 5, 5, 9] = int t \<and> (\<forall>j < t. [1, 5, 5, 9] ! j < ([1, 5, 5, 9] :: rat list) ! t)"
  using greedy_first_maximum [of 3 "[1, 5, 5, 9]"] by auto

text \<open>
  C26. A local generation terminates: whatever the engine answers, after at most \<open>maximum_new_tokens\<close> + 1
  iterations of a request that stays active the callback has received one failure (when the model could not be set up), or
  at most that many tokens followed by one completion.
\<close>

theorem local_generation_terminates:
  assumes "ar_active ar" "ar_callback ar"
  shows "\<exists>evs. serve_local (Suc (max_tokens ar)) eng list_dir k ar = Some (ar, evs) \<and>
    (map ev_kind (events_of k evs) = [kFailed] \<or>
     (\<exists>j \<le> max_tokens ar. map ev_kind (events_of k evs) = replicate j kToken @ [kCompleted]))"
proof (cases "setup_local eng list_dir (ar_request ar)")
  case None
  then show ?thesis using assms by (simp add: serve_local_def run_generation_local_def emissions)
next
  case (Some s)
  obtain m ctx pos where "s = (m, ctx, pos)" by (rule prod_cases3)
  moreover obtain evs j where "local_loop (Suc (max_tokens ar)) eng m k ar (of_nat 0) ctx pos = Some (ar, evs)" "j \<le> max_tokens ar"
    "map ev_kind (events_of k evs) = replicate j kToken @ [kCompleted]"
    using local_loop_ends [OF assms, of 0 "max_tokens ar" eng m k ctx pos] by auto
  ultimately show ?thesis using Some by (auto simp: serve_local_def)
qed

text \<open>An engine with the vocabulary of two tokens that always prefers the second.\<close>

definition example_engine :: "(unit, unit) llama_engine" where
  "example_engine = \<lparr>ll_load = (\<lambda>_. Some ()), ll_context = (\<lambda>_ _. Some ()), ll_n_vocab = (\<lambda>_. 2),
     ll_tokenize = (\<lambda>_ _ buf. (1, buf)), ll_decode = (\<lambda>_ _. (True, ())), ll_logits = (\<lambda>_. Some [0, 1]),
     ll_is_eog = (\<lambda>_ _. False), ll_piece = (\<lambda>_ _. ''x'')\<rparr>"

theorem local_generation_terminates_witness:
  "\<exists>evs. serve_local (Suc (max_tokens (example_active 2))) example_engine example_dir 0 (example_active 2) = Some (example_active 2, evs)"
  using local_generation_terminates [of "example_active 2" example_engine example_dir 0] by (auto simp: example_active_def)

end
