(* ===== verification/Catalog.thy ===== *)
theory Catalog
  imports Pipeline Manifest
begin

text \<open>
  The model catalogue of \<^verbatim>\<open>src/runtime/model_catalog.cpp\<close>: loading it from a JSON file, filtering it
  for a cluster, and estimating the context window. As in the manifest parser, a file arrives as the
  value parsed from it, and an exception or undefined behaviour is \<open>None\<close>. Divisions of \<open>double\<close>s are exact.
\<close>

section \<open>Catalogue entries\<close>

datatype model_tier = kComfortable | kFair | kMedium | kTight | kDebug

record pipeline_option =
  po_name :: string
  po_description :: string
  po_min_devices :: u32
  po_min_total_ram_gb :: u32
  po_stage_layers :: "u32 list"

record model_catalog_entry =
  ce_model_id :: model_id
  ce_family :: string
  ce_display_name :: string
  ce_total_params :: string
  ce_total_layers :: u32
  ce_size_gb_int4 :: double
  ce_size_gb_fp16 :: double
  ce_context_window_max :: u32
  ce_default_context :: u32
  ce_tier :: "model_tier option"
  ce_is_profiler :: bool
  ce_compatible_backends :: "string list"
  ce_pipelines :: "pipeline_option list"
  ce_supported_cluster_configs :: "string list"

section \<open>Loading\<close>

text \<open>\<open>get<std::uint32_t>()\<close> and \<open>get<double>()\<close>; the former also accepts a boolean.\<close>

fun get_u32 :: "json \<Rightarrow> u32 option" where
  "get_u32 (JUnsigned w) = Some (ucast w)"
| "get_u32 (JInteger i) = Some (word_of_int i)"
| "get_u32 (JFloat d) =
     (let i = truncate_double d in if 0 \<le> i \<and> i < 2 ^ 32 then Some (word_of_int i) else None)"
| "get_u32 (JBool b) = Some (if b then 1 else 0)"
| "get_u32 j = None"

fun get_double :: "json \<Rightarrow> double option" where
  "get_double (JUnsigned w) = Some (of_int (uint w))"
| "get_double (JInteger i) = Some (of_int i)"
| "get_double (JFloat d) = Some d"
| "get_double j = None"

fun get_bool :: "json \<Rightarrow> bool option" where
  "get_bool (JBool b) = Some b"
| "get_bool j = None"

text \<open>\<open>value(k, dflt)\<close> throws on a value that is no object, and on a member of another type.\<close>

fun json_value :: "(json \<Rightarrow> 'a option) \<Rightarrow> 'a \<Rightarrow> string \<Rightarrow> json \<Rightarrow> 'a option" where
  "json_value get dflt k (JObject kvs) = get_or get dflt k (JObject kvs)"
| "json_value get dflt k j = None"

text \<open>The ranges of a range-based \<open>for\<close> and of \<open>items()\<close>: a primitive value is one element.\<close>

fun elements :: "json \<Rightarrow> json list" where
  "elements JNull = []"
| "elements (JArray xs) = xs"
| "elements (JObject kvs) = map snd kvs"
| "elements j = [j]"

fun items :: "json \<Rightarrow> (string \<times> json) list" where
  "items JNull = []"
| "items (JArray xs) = map (\<lambda>(i, x). (dec i, x)) (enumerate 0 xs)"
| "items (JObject kvs) = kvs"
| "items j = [([], j)]"

definition tier_of :: "string \<Rightarrow> model_tier option" where
  "tier_of tier =
     (if tier = ''comfortable'' then Some kComfortable else if tier = ''fair'' then Some kFair
      else if tier = ''medium'' then Some kMedium else if tier = ''tight'' then Some kTight
      else if tier = ''debug'' then Some kDebug else None)"

definition profiler_flag :: "json \<Rightarrow> bool option" where
  "profiler_flag mj = (case field ''profiling'' mj of None \<Rightarrow> Some False | Some p \<Rightarrow> json_value get_bool False ''enabled'' p)"

text \<open>The backends of the first shard. A missing member of a constant object is undefined behaviour, here \<open>None\<close>.\<close>

definition first_shard_backends :: "json \<Rightarrow> string list option" where
  "first_shard_backends mj =
     do { shards \<leftarrow> field ''shards'' mj;
          if shards = JNull \<or> shards = JArray [] \<or> shards = JObject [] then Some []
          else case shards of
            JArray (s # _) \<Rightarrow> do { bs \<leftarrow> field ''compatible_backends'' s; get_list get_string (elements bs) }
          | _ \<Rightarrow> None }"

definition stage_layer_count :: "json \<Rightarrow> u32 option" where
  "stage_layer_count sj =
     (case field ''layers'' sj of
        Some (JArray (a # b # _)) \<Rightarrow> do { hi \<leftarrow> get_u32 b; lo \<leftarrow> get_u32 a; Some (hi - lo) }
      | _ \<Rightarrow> None)"

definition parse_pipeline :: "string \<times> json \<Rightarrow> pipeline_option option" where
  "parse_pipeline np =
     do { description \<leftarrow> json_value get_string [] ''description'' (snd np);
          devices \<leftarrow> json_value get_u32 1 ''min_devices'' (snd np);
          ram \<leftarrow> json_value get_u32 4 ''min_total_ram_gb'' (snd np);
          stages \<leftarrow> field ''stages'' (snd np);
          layers \<leftarrow> get_list stage_layer_count (elements stages);
          Some \<lparr>po_name = fst np, po_description = description, po_min_devices = devices,
                po_min_total_ram_gb = ram, po_stage_layers = layers\<rparr> }"

definition u32_double :: "u32 \<Rightarrow> double" where
  "u32_double w = of_int (uint w)"

text \<open>The test that decides whether a cluster of \<open>devices\<close> devices with \<open>ram\<close> gigabytes can run a pipeline.\<close>

definition can_run :: "double \<Rightarrow> u32 \<Rightarrow> pipeline_option \<Rightarrow> bool" where
  "can_run ram devices po \<longleftrightarrow> ram \<ge> u32_double (po_min_total_ram_gb po) \<and> devices \<ge> po_min_devices po"

fun supported_configs :: "pipeline_option list \<Rightarrow> json list \<Rightarrow> string list option" where
  "supported_configs pos [] = Some []"
| "supported_configs pos (cc # ccs) =
     do { ram \<leftarrow> json_value get_double 0 ''total_ram_gb'' cc;
          devices \<leftarrow> field ''devices'' cc;
          if list_ex (can_run ram (of_nat (length (elements devices)))) pos
          then do { j \<leftarrow> field ''name'' cc; name \<leftarrow> get_string j;
                    names \<leftarrow> supported_configs pos ccs; Some (name # names) }
          else supported_configs pos ccs }"

definition parse_entry :: "json \<Rightarrow> json \<Rightarrow> model_catalog_entry option" where
  "parse_entry j mj =
     do { mid \<leftarrow> field ''model_id'' mj;
          model_id \<leftarrow> get_string mid;
          family \<leftarrow> json_value get_string [] ''family'' mj;
          display_name \<leftarrow> json_value get_string [] ''display_name'' mj;
          total_params \<leftarrow> json_value get_string [] ''total_params'' mj;
          total_layers \<leftarrow> json_value get_u32 0 ''total_layers'' mj;
          int4 \<leftarrow> json_value get_double 0 ''size_gb_int4'' mj;
          fp16 \<leftarrow> json_value get_double 0 ''size_gb_fp16'' mj;
          window_max \<leftarrow> json_value get_u32 2048 ''context_window_max'' mj;
          default_ctx \<leftarrow> json_value get_u32 2048 ''default_context'' mj;
          tier \<leftarrow> json_value get_string [] ''tier'' mj;
          profiler \<leftarrow> profiler_flag mj;
          backends \<leftarrow> first_shard_backends mj;
          pj \<leftarrow> field ''pipelines'' mj;
          pipelines \<leftarrow> those (map parse_pipeline (items pj));
          configs \<leftarrow> (case field ''cluster_configs'' j of None \<Rightarrow> Some []
                     | Some cj \<Rightarrow> supported_configs pipelines (elements cj));
          Some \<lparr>ce_model_id = model_id, ce_family = family, ce_display_name = display_name,
                ce_total_params = total_params, ce_total_layers = total_layers, ce_size_gb_int4 = int4,
                ce_size_gb_fp16 = fp16, ce_context_window_max = window_max, ce_default_context = default_ctx,
                ce_tier = tier_of tier, ce_is_profiler = profiler, ce_compatible_backends = backends,
                ce_pipelines = pipelines, ce_supported_cluster_configs = configs\<rparr> }"

text \<open>\<open>None\<close> is an exception or undefined behaviour; \<open>j[k]\<close> on a variable adds a missing member as null.\<close>

definition load_model_catalog :: "manifest_file \<Rightarrow> model_catalog_entry list option" where
  "load_model_catalog file =
     (case file of
        Parsed j \<Rightarrow>
          (case j of
             JObject kvs \<Rightarrow> (case field ''models'' j of None \<Rightarrow> Some [] | Some ms \<Rightarrow> those (map (parse_entry j) (elements ms)))
           | JNull \<Rightarrow> Some []
           | _ \<Rightarrow> None)
      | _ \<Rightarrow> Some [])"

definition model_catalog_all :: "(string \<Rightarrow> manifest_file) \<Rightarrow> model_catalog_entry list option" where
  "model_catalog_all files =
     do { a \<leftarrow> load_model_catalog (files ''model-repo/manifest.json'');
          if a \<noteq> [] then Some a
          else do { b \<leftarrow> load_model_catalog (files ''/tmp/socrates-gui/models/manifest.json'');
                    if b \<noteq> [] then Some b
                    else load_model_catalog (files ''/tmp/socrates-demo/models/manifest.json'') } }"

section \<open>What a cluster can run\<close>

definition participates :: "member \<Rightarrow> bool" where
  "participates m \<longleftrightarrow> mb_state m = kAlive \<and> mb_role m = kParticipant"

definition total_ram_gb :: "membership_snapshot \<Rightarrow> double" where
  "total_ram_gb snap =
     foldl (\<lambda>ram m. if mb_state m \<noteq> kAlive then ram
        else if mb_role m \<noteq> kParticipant then ram
        else case mb_capability m of
          None \<Rightarrow> ram
        | Some cap \<Rightarrow> ram + of_int (uint (cp_total_memory_bytes cap)) / (1024 * 1024 * 1024))
      0 (snap_members snap)"

definition participant_count :: "membership_snapshot \<Rightarrow> u32" where
  "participant_count snap =
     foldl (\<lambda>count m. if mb_state m = kAlive \<and> mb_role m = kParticipant then count + 1 else count)
      0 (snap_members snap)"

fun available_loop :: "double \<Rightarrow> u32 \<Rightarrow> model_catalog_entry list \<Rightarrow> model_catalog_entry list" where
  "available_loop ram devices [] = []"
| "available_loop ram devices (e # es) =
     (if list_ex (can_run ram devices) (ce_pipelines e) then [e] else []) @ available_loop ram devices es"

definition available_models :: "(string \<Rightarrow> manifest_file) \<Rightarrow> membership_snapshot \<Rightarrow> model_catalog_entry list option" where
  "available_models files snap =
     map_option (available_loop (total_ram_gb snap) (participant_count snap)) (model_catalog_all files)"

section \<open>The context window\<close>

record context_window_estimate =
  cw_max_tokens :: u32
  cw_recommended_tokens :: u32
  cw_limiting_factor :: string
  cw_detail :: string

text \<open>A number printed with \<open>std::fixed << std::setprecision(1)\<close>: a tie is rounded to the even digit.\<close>

definition tenths :: "double \<Rightarrow> nat" where
  "tenths x =
     (let y = x * 10; n = nat \<lfloor>y\<rfloor>; rest = y - of_nat n
      in if rest > 1 / 2 \<or> rest = 1 / 2 \<and> odd n then Suc n else n)"

definition fixed1 :: "double \<Rightarrow> string" where
  "fixed1 x = (if x < 0 then ''-'' else []) @ dec (tenths \<bar>x\<bar> div 10) @ ''.'' @ dec (tenths \<bar>x\<bar> mod 10)"

text \<open>The pipeline with the greatest demand among those the cluster can run, the first of several.\<close>

fun best_pipeline :: "double \<Rightarrow> u32 \<Rightarrow> pipeline_option option \<Rightarrow> pipeline_option list \<Rightarrow> pipeline_option option" where
  "best_pipeline ram devices best [] = best"
| "best_pipeline ram devices best (po # pos) =
     best_pipeline ram devices
       (if can_run ram devices po then
          (case best of
             None \<Rightarrow> Some po
           | Some b \<Rightarrow> if po_min_total_ram_gb po > po_min_total_ram_gb b then Some po else best)
        else best) pos"

definition batch_multiplier :: "batching_config \<Rightarrow> u32" where
  "batch_multiplier batching = (if bc_mode batching = kAdaptive then bc_max_batch_size batching else 1)"

definition kv_ram_per_device :: "double \<Rightarrow> u32 \<Rightarrow> model_catalog_entry \<Rightarrow> double" where
  "kv_ram_per_device total_ram devices model =
     (let weight_per_device = ce_size_gb_int4 model / u32_double devices;
          ram_per_device = total_ram / u32_double devices;
          kv = ram_per_device * (7 / 10) - weight_per_device
      in if kv < 0 then 0 else kv)"

definition kv_bytes_per_token :: "u32 \<Rightarrow> model_catalog_entry \<Rightarrow> double" where
  "kv_bytes_per_token devices model = 4096 * (u32_double (ce_total_layers model) / u32_double devices)"

definition estimate_detail ::
  "u32 \<Rightarrow> double \<Rightarrow> model_catalog_entry \<Rightarrow> pipeline_option \<Rightarrow> double \<Rightarrow> u32 \<Rightarrow> string" where
  "estimate_detail devices total_ram model po kv_ram multiplier =
     ''Cluster: '' @ to_string devices @ '' participants, '' @ fixed1 total_ram @ ''GB RAM. Model: '' @
     ce_display_name model @ '' ('' @ fixed1 (ce_size_gb_int4 model) @ ''GB INT4). Pipeline: '' @ po_name po @
     '' ('' @ dec (length (po_stage_layers po)) @ '' stages). KV cache per device: '' @ fixed1 kv_ram @
     ''GB. Batch multiplier: '' @ to_string multiplier @ ''x. ''"

text \<open>
  \<open>None\<close> is a conversion to \<open>std::uint32_t\<close> of a value outside its range (infinite or not a
  number when a divisor is zero), which is undefined.
\<close>

definition estimate_context_window ::
  "membership_snapshot \<Rightarrow> model_catalog_entry \<Rightarrow> batching_config \<Rightarrow> context_window_estimate option" where
  "estimate_context_window snap model batching =
     (let total_ram = total_ram_gb snap; devices = participant_count snap in
      case best_pipeline total_ram devices None (ce_pipelines model) of
        None \<Rightarrow> Some \<lparr>cw_max_tokens = 0, cw_recommended_tokens = 0, cw_limiting_factor = ''insufficient_resources'',
               cw_detail = ''Not enough devices or RAM to run this model.''\<rparr>
      | Some po \<Rightarrow>
          (let per_token = kv_bytes_per_token devices model;
               kv_ram_bytes = kv_ram_per_device total_ram devices model * 1024 * 1024 * 1024;
               tokens = truncate_double (kv_ram_bytes / per_token)
           in if devices = 0 \<or> ce_total_layers model = 0 \<or> tokens \<ge> 2 ^ 32 then None
              else
                (let fit = (word_of_int tokens :: u32) div max 1 (batch_multiplier batching);
                     max_ctx = (if fit > ce_context_window_max model then ce_context_window_max model else fit)
                 in Some \<lparr>cw_max_tokens = max_ctx, cw_recommended_tokens = min max_ctx (ce_default_context model),
                      cw_limiting_factor = (if max_ctx \<ge> ce_context_window_max model then ''model_max'' else ''vram''),
                      cw_detail = estimate_detail devices total_ram model po (kv_ram_per_device total_ram devices model)
                        (batch_multiplier batching)\<rparr>)))"

section \<open>Lemmas\<close>

lemma available_loop_filter:
  "available_loop ram devices es = filter (\<lambda>e. \<exists>po \<in> set (ce_pipelines e). can_run ram devices po) es"
  by (induction es) (simp_all add: list_ex_iff)

lemma best_pipeline_None:
  "best_pipeline ram devices best pos = None \<longleftrightarrow> best = None \<and> (\<forall>po \<in> set pos. \<not> can_run ram devices po)"
  by (induction ram devices best pos rule: best_pipeline.induct) (auto split: option.splits)

lemma best_pipeline_Some:
  assumes "best_pipeline ram devices best pos = Some po"
  shows "(po \<in> set pos \<and> can_run ram devices po \<or> best = Some po) \<and>
    (\<forall>q \<in> set pos. can_run ram devices q \<longrightarrow> po_min_total_ram_gb q \<le> po_min_total_ram_gb po) \<and>
    (\<forall>b. best = Some b \<longrightarrow> po_min_total_ram_gb b \<le> po_min_total_ram_gb po)"
  using assms
  by (induction ram devices best pos rule: best_pipeline.induct) (auto split: if_splits option.splits)

text \<open>The sums over the members, as the loops compute them.\<close>

definition member_ram :: "member \<Rightarrow> double" where
  "member_ram m = (case mb_capability m of None \<Rightarrow> 0
     | Some cap \<Rightarrow> of_int (uint (cp_total_memory_bytes cap)) / (1024 * 1024 * 1024))"

lemma total_ram_gb_sum: "total_ram_gb snap = sum_list (map member_ram (filter participates (snap_members snap)))"
proof -
  have "foldl (\<lambda>ram m. if mb_state m \<noteq> kAlive then ram
        else if mb_role m \<noteq> kParticipant then ram
        else case mb_capability m of
          None \<Rightarrow> ram
        | Some cap \<Rightarrow> ram + of_int (uint (cp_total_memory_bytes cap)) / (1024 * 1024 * 1024)) acc ms
      = acc + sum_list (map member_ram (filter participates ms))" for acc ms
    by (induction ms arbitrary: acc) (auto simp: member_ram_def participates_def split: option.splits)
  then show ?thesis unfolding total_ram_gb_def by (metis add_0)
qed

lemma participant_count_length:
  "participant_count snap = of_nat (length (filter participates (snap_members snap)))"
proof -
  have "foldl (\<lambda>count m. if mb_state m = kAlive \<and> mb_role m = kParticipant then count + 1 else count) acc ms
      = acc + (of_nat (length (filter participates ms)) :: u32)" for acc ms
    by (induction ms arbitrary: acc) (simp_all add: participates_def)
  then show ?thesis unfolding participant_count_def by (metis add_0)
qed

lemma member_ram_nonneg: "0 \<le> member_ram m"
proof (cases "mb_capability m")
  case (Some cap)
  have "(0 :: rat) \<le> of_int (uint (cp_total_memory_bytes cap))" by (simp only: of_int_0_le_iff uint_ge_0)
  then have "(0 :: rat) \<le> of_int (uint (cp_total_memory_bytes cap)) / (1024 * 1024 * 1024)" by (rule divide_nonneg_pos) simp
  then show ?thesis by (simp only: member_ram_def Some option.case)
qed (simp add: member_ram_def)

lemma u32_double_mono: "a \<le> b \<Longrightarrow> u32_double a \<le> u32_double b"
  unfolding u32_double_def by (simp only: of_int_le_iff word_le_def)

lemma can_run_mono: "can_run ram devices po \<Longrightarrow> ram \<le> ram' \<Longrightarrow> devices \<le> devices' \<Longrightarrow> can_run ram' devices' po"
  by (auto simp: can_run_def)

lemma unat_u32_bound: "unat (w :: u32) < 2 ^ 32"
proof -
  have "unat w < 2 ^ LENGTH(32)" by (rule unsigned_less)
  then show ?thesis by simp
qed

lemma of_nat_mono_u32: "m \<le> n \<Longrightarrow> n < 2 ^ 32 \<Longrightarrow> (of_nat m :: u32) \<le> of_nat n"
  by (simp add: word_le_nat_alt unat_of_nat)

lemma estimate_limit:
  assumes "best_pipeline (total_ram_gb snap) (participant_count snap) None (ce_pipelines model) = Some po"
    "estimate_context_window snap model batching = Some est"
  shows "cw_limiting_factor est = ''model_max'' \<or> cw_limiting_factor est = ''vram''"
  using assms(2) unfolding estimate_context_window_def Let_def assms(1) option.case
  by (simp split: if_splits) fastforce+

lemma u32_double_pos: "w \<noteq> 0 \<Longrightarrow> 0 < u32_double w"
  unfolding u32_double_def of_int_0_less_iff by (metis uint_0_iff uint_ge_0 order_le_less)

lemma kv_ram_nonneg: "0 \<le> kv_ram_per_device ram devices model"
  unfolding kv_ram_per_device_def Let_def by (auto simp only: not_less split: if_split)

lemma window_times_batch:
  assumes "0 \<le> t" "w \<le> (word_of_int t :: u32) div M" "t < 2 ^ 32"
  shows "u32_double w * u32_double M \<le> of_int t"
proof -
  have "uint w \<le> uint (word_of_int t :: u32) div uint M" using assms(2) by (simp only: word_le_def uint_div)
  then have "uint w * uint M \<le> uint (word_of_int t :: u32) div uint M * uint M" by (rule mult_right_mono) (rule uint_ge_0)
  also have "\<dots> \<le> uint (word_of_int t :: u32)" by (simp add: minus_mod_eq_div_mult [symmetric]) (metis uint_ge_0 uint_mod)
  also have "\<dots> = t" using assms(1,3) by (simp add: uint_word_of_int)
  finally have "rat_of_int (uint w * uint M) \<le> of_int t" by (simp only: of_int_le_iff)
  then show ?thesis unfolding u32_double_def of_int_mult .
qed

section \<open>Properties\<close>

text \<open>A catalogue with one model, and a cluster of one participant with 16 GB.\<close>

definition example_catalog_file :: "string \<Rightarrow> manifest_file" where
  "example_catalog_file path = (if path \<noteq> ''model-repo/manifest.json'' then Unreadable else Parsed (JObject
     [(''models'', JArray [JObject
        [(''model_id'', JString ''qwen3-4b''), (''total_layers'', JUnsigned 32), (''size_gb_int4'', JFloat 2),
         (''context_window_max'', JUnsigned 8192), (''default_context'', JUnsigned 4096), (''tier'', JString ''fair''),
         (''shards'', JArray []),
         (''pipelines'', JObject [(''solo'', JObject [(''min_devices'', JUnsigned 1), (''min_total_ram_gb'', JUnsigned 8),
            (''stages'', JArray [JObject [(''layers'', JArray [JUnsigned 0, JUnsigned 32])]])])])]])]))"

definition example_participant :: member where
  "example_participant = \<lparr>mb_peer = default_peer, mb_state = kAlive, mb_role = kParticipant,
     mb_capability = Some ((default_profile 0)\<lparr>cp_total_memory_bytes := 17179869184\<rparr>), mb_models = [], mb_last_seen = 0\<rparr>"

definition example_cluster :: "nat \<Rightarrow> membership_snapshot" where
  "example_cluster n = \<lparr>snap_revision = 1, snap_members = replicate n example_participant\<rparr>"

definition example_offers :: "nat \<Rightarrow> model_catalog_entry list" where
  "example_offers n = (case available_models example_catalog_file (example_cluster n) of None \<Rightarrow> [] | Some es \<Rightarrow> es)"

definition example_entry :: model_catalog_entry where
  "example_entry = hd (example_offers 1)"



text \<open>
  A member that joins never takes a model away: when a cluster gains a member (below \<open>2\<^sup>3\<^sup>2\<close> of them),
  every model that was offered before is still offered.
\<close>

theorem joining_keeps_models:
  assumes "available_models files snap = Some offered" "snap_members snap = xs @ ys" "snap_members snap' = xs @ m # ys"
    "length (snap_members snap') < 2 ^ 32"
  shows "\<exists>offered'. available_models files snap' = Some offered' \<and> set offered \<subseteq> set offered'"
proof -
  obtain catalog where cat: "model_catalog_all files = Some catalog"
    "offered = available_loop (total_ram_gb snap) (participant_count snap) catalog"
    using assms(1) by (auto simp: available_models_def)
  have "total_ram_gb snap \<le> total_ram_gb snap'"
    by (simp add: total_ram_gb_sum assms(2,3) member_ram_nonneg)
  moreover have "participant_count snap \<le> participant_count snap'"
    unfolding participant_count_length
  proof (rule of_nat_mono_u32)
    show "length (filter participates (snap_members snap)) \<le> length (filter participates (snap_members snap'))"
      by (simp add: assms(2,3))
    show "length (filter participates (snap_members snap')) < 2 ^ 32"
      using assms(4) length_filter_le [of participates "snap_members snap'"] by linarith
  qed
  ultimately have "set offered \<subseteq> set (available_loop (total_ram_gb snap') (participant_count snap') catalog)"
    unfolding cat(2) available_loop_filter using can_run_mono by fastforce
  then show ?thesis using cat(1) by (simp add: available_models_def)
qed

theorem joining_keeps_models_witness:
  "\<exists>offered'. available_models example_catalog_file (example_cluster 2) = Some offered' \<and>
     set (example_offers 1) \<subseteq> set offered' \<and> example_offers 1 \<noteq> []"
proof -
  have c: "available_models example_catalog_file (example_cluster 1) = Some (example_offers 1)"
    "snap_members (example_cluster 1) = [] @ [example_participant]"
    "snap_members (example_cluster 2) = [] @ example_participant # [example_participant]" "example_offers 1 \<noteq> []"
    by code_simp+
  have "length (snap_members (example_cluster 2)) < 2 ^ 32" by (simp add: c(3))
  from joining_keeps_models [OF c(1-3) this] c(4) show ?thesis by blast
qed



end
