(* ===== verification/Runtime.thy ===== *)
theory Runtime
  imports Scheduler Identity Membership Election Protocol Catalog
begin

text \<open>
  \<^verbatim>\<open>src/runtime/edge_runtime.cpp\<close>: the class that owns the other components, composed from their
  models. Each public method is one step, as are the callbacks of the discovery and membership
  services and a pass of the heartbeat; the wait of a graceful leave lies between two steps. What comes from outside
  (random bytes, the clock, the file system, discovery, the profiler, the transport) is an argument.
  The long dash in one message is written as a hyphen. Log output is left out.
\<close>

section \<open>State\<close>

text \<open>The fields of \<open>RuntimeConfig\<close> that the class reads.\<close>

record runtime_config =
  rc_cluster_id :: string
  rc_state_directory :: string
  rc_model_root :: string
  rc_production_mode :: bool
  rc_skip_discovery :: bool
  rc_batching :: batching_config
  rc_start_as_leech :: bool

record runtime_snapshot =
  rs_state :: runtime_state
  rs_membership :: membership_snapshot
  rs_leadership :: leadership_state
  rs_active_plan :: "pipeline_plan option"
  rs_local_models :: "model_presence list"
  rs_local_role :: node_role

text \<open>
  The unique pointers of the class: a component that is not there is \<open>None\<close>. The backend registry
  and the transport matter here only by being there, the assignment store is its data base
  (\<open>None\<close> when it could not be opened).
\<close>

record 'db runtime =
  rt_config :: runtime_config
  rt_state :: runtime_state
  rt_callback :: bool
  rt_local_identity :: local_identity
  rt_local_profile :: capability_profile
  rt_local_models :: "model_presence list"
  rt_local_role :: node_role
  rt_identity_provider :: "identity_provider option"
  rt_discovery :: bool
  rt_membership :: "membership option"
  rt_election :: "election option"
  rt_manifest_repo :: manifest_index
  rt_model_manager :: "model_manager option"
  rt_assignment_store :: "'db option"
  rt_backend_registry :: bool
  rt_transport :: bool
  rt_pipeline :: "pipeline option"
  rt_current_plan :: "pipeline_plan option"
  rt_heartbeat_active :: bool

text \<open>
  What is outside the class. The token and the clock reading of an election update are given per
  revision of the snapshot, which differs from one update to the next.
\<close>

record ('c, 'db) runtime_env =
  re_ssl :: "'c openssl"
  re_sqlite :: "'db sqlite_engine"
  re_sort_slots :: "node_slot list \<Rightarrow> node_slot list"
  re_sort_stages :: "(stage_assignment \<Rightarrow> stage_assignment \<Rightarrow> bool) \<Rightarrow> stage_assignment list \<Rightarrow> stage_assignment list"
  re_token :: "u64 \<Rightarrow> u64"
  re_clock :: "u64 \<Rightarrow> time_point"
  re_llama :: bool
  re_catalog_files :: "string \<Rightarrow> manifest_file"

text \<open>The end of a call: it returned, or an exception left it (\<open>None\<close>: not a \<open>RuntimeError\<close>).\<close>

datatype 'a completion = Returned 'a | Thrown "runtime_error option"

type_synonym ('db, 'a) runtime_outcome = "'a completion \<times> 'db runtime \<times> runtime_snapshot list"

definition and_then ::
  "('db, 'a) runtime_outcome \<Rightarrow> ('a \<Rightarrow> 'db runtime \<Rightarrow> ('db, 'b) runtime_outcome) \<Rightarrow> ('db, 'b) runtime_outcome" where
  "and_then m f =
     (case m of
        (Thrown e, rt, evs) \<Rightarrow> (Thrown e, rt, evs)
      | (Returned v, rt, evs) \<Rightarrow> (case f v rt of (r, rt', evs') \<Rightarrow> (r, rt', evs @ evs')))"

text \<open>\<open>try { ... } catch (...) { }\<close>.\<close>

definition attempt :: "('db, 'a) runtime_outcome \<Rightarrow> ('db, unit) runtime_outcome" where
  "attempt m = (case m of (r, rt, evs) \<Rightarrow> (Returned (), rt, evs))"

definition no_leadership :: leadership_state where
  "no_leadership = \<lparr>ls_leader_id = None, ls_fence = default_fence, ls_locally_valid_until = 0\<rparr>"

definition new_runtime :: "runtime_config \<Rightarrow> 'db runtime" where
  "new_runtime cfg = \<lparr>rt_config = cfg, rt_state = kStopped, rt_callback = False,
     rt_local_identity = \<lparr>li_node_id = [], li_certificate_pem = [], li_public_key_fingerprint = []\<rparr>,
     rt_local_profile = default_profile 0, rt_local_models = [], rt_local_role = kLeech,
     rt_identity_provider = None, rt_discovery = False, rt_membership = None, rt_election = None,
     rt_manifest_repo = Map.empty, rt_model_manager = None, rt_assignment_store = None,
     rt_backend_registry = False, rt_transport = False, rt_pipeline = None, rt_current_plan = None,
     rt_heartbeat_active = False\<rparr>"

section \<open>Snapshots and callbacks\<close>

definition make_snapshot :: "'db runtime \<Rightarrow> membership_snapshot \<Rightarrow> leadership_state \<Rightarrow> runtime_snapshot" where
  "make_snapshot rt snap ls = \<lparr>rs_state = rt_state rt, rs_membership = snap, rs_leadership = ls,
     rs_active_plan = rt_current_plan rt, rs_local_models = rt_local_models rt, rs_local_role = rt_local_role rt\<rparr>"

text \<open>\<open>if (membership_) ...; if (election_) ...\<close>, each of which may throw.\<close>

definition collect_snapshot :: "'db runtime \<Rightarrow> runtime_snapshot result" where
  "collect_snapshot rt =
     (case (case rt_membership rt of None \<Rightarrow> Ok \<lparr>snap_revision = 0, snap_members = []\<rparr> | Some s \<Rightarrow> snapshot s) of
        Inl e \<Rightarrow> Inl e
      | Inr snap \<Rightarrow>
          (case (case rt_election rt of None \<Rightarrow> Ok no_leadership | Some e \<Rightarrow> el_current e) of
             Inl e \<Rightarrow> Inl e
           | Inr ls \<Rightarrow> Ok (make_snapshot rt snap ls)))"

definition rt_emit_snapshot :: "'db runtime \<Rightarrow> ('db, unit) runtime_outcome" where
  "rt_emit_snapshot rt =
     (if \<not> rt_callback rt then (Returned (), rt, [])
      else case collect_snapshot rt of
        Inl e \<Rightarrow> (Thrown (Some e), rt, [])
      | Inr s \<Rightarrow> (Returned (), rt, [s]))"

definition rt_snapshot :: "'db runtime \<Rightarrow> runtime_snapshot result completion" where
  "rt_snapshot rt =
     (if rt_state rt = kStopped then Returned (Err kFailedPrecondition ''runtime stopped'')
      else case collect_snapshot rt of Inl e \<Rightarrow> Thrown (Some e) | Inr s \<Rightarrow> Returned (Ok s))"

text \<open>The callback that \<open>start\<close> gives to the membership service.\<close>

definition on_membership ::
  "('c, 'db) runtime_env \<Rightarrow> membership_snapshot \<Rightarrow> 'db runtime \<Rightarrow> ('db, unit) runtime_outcome" where
  "on_membership env snap rt =
     (let rt1 = rt\<lparr>rt_election := map_option (\<lambda>e. outcome_state (update_membership
                  (re_token env (snap_revision snap)) (re_clock env (snap_revision snap)) snap e)) (rt_election rt)\<rparr>
      in if \<not> rt_callback rt1 then (Returned (), rt1, [])
         else case rt_election rt1 of
           None \<Rightarrow> (Returned (), rt1, [make_snapshot rt1 snap no_leadership])
         | Some e \<Rightarrow>
             (case el_current e of
                Inl err \<Rightarrow> (Thrown (Some err), rt1, [])
              | Inr ls \<Rightarrow> (Returned (), rt1, [make_snapshot rt1 snap ls])))"

fun deliver ::
  "('c, 'db) runtime_env \<Rightarrow> membership_snapshot list \<Rightarrow> 'db runtime \<Rightarrow> ('db, unit) runtime_outcome" where
  "deliver env [] rt = (Returned (), rt, [])"
| "deliver env (snap # snaps) rt = and_then (on_membership env snap rt) (\<lambda>_. deliver env snaps)"

text \<open>A call of the membership service: the callback runs inside it, then it returns or throws.\<close>

definition with_membership ::
  "('c, 'db) runtime_env \<Rightarrow> (membership \<Rightarrow> unit membership_outcome) \<Rightarrow> 'db runtime \<Rightarrow> ('db, unit) runtime_outcome" where
  "with_membership env op rt =
     (case rt_membership rt of
        None \<Rightarrow> (Returned (), rt, [])
      | Some s \<Rightarrow>
          (case op s of (r, s', snaps) \<Rightarrow>
             and_then (deliver env snaps (rt\<lparr>rt_membership := Some s'\<rparr>))
               (\<lambda>_ rt'. (case r of Inl e \<Rightarrow> Thrown (Some e) | Inr _ \<Rightarrow> Returned (), rt', []))))"

definition rt_authenticate :: "('c, 'db) runtime_env \<Rightarrow> 'db runtime \<Rightarrow> peer_advertisement \<Rightarrow> string \<Rightarrow> peer_identity result" where
  "rt_authenticate env rt =
     authenticate (re_ssl env) (case rt_identity_provider rt of None \<Rightarrow> make_ephemeral_identity_provider | Some ip \<Rightarrow> ip)"

text \<open>The callback that \<open>start\<close> gives to the discovery service.\<close>

definition on_discovery ::
  "('c, 'db) runtime_env \<Rightarrow> time_point \<Rightarrow> discovery_event \<Rightarrow> 'db runtime \<Rightarrow> ('db, unit) runtime_outcome" where
  "on_discovery env now ev rt = attempt (with_membership env (observe (rt_authenticate env rt) now ev) rt)"

section \<open>Start\<close>

text \<open>
  The answers of the outside during \<open>start\<close>: the random bytes of the node id, whether discovery
  threw, the measured profile, the opened data base and whether the transport could be started
  (never without protobuf).
\<close>

record 'db start_inputs =
  si_rand :: "bytes + u64"
  si_discovery :: "runtime_error option"
  si_profile :: "capability_profile result"
  si_database :: "'db option"
  si_transport :: bool
  si_now :: time_point

text \<open>Steps 1 and 2: identity and membership.\<close>

definition start_membership ::
  "('c, 'db) runtime_env \<Rightarrow> runtime_config \<Rightarrow> bool \<Rightarrow> 'db start_inputs \<Rightarrow> 'db runtime \<Rightarrow> 'db runtime result" where
  "start_membership env config callback inp rt =
     (let rt1 = rt\<lparr>rt_state := kStarting, rt_config := config, rt_callback := callback,
                   rt_local_role := (if rc_start_as_leech config then kLeech else kParticipant)\<rparr>
      in case local_identity (re_ssl env) (si_rand inp) make_ephemeral_identity_provider of
           (Inl e, ip) \<Rightarrow> Inl e
         | (Inr li, ip) \<Rightarrow>
             Ok (rt1\<lparr>rt_identity_provider := Some ip, rt_local_identity := li,
                    rt_membership := Some (outcome_state (ms_start (fst (local_identity (re_ssl env) (si_rand inp) ip))
                                       True new_membership)),
                    rt_discovery := True\<rparr>))"

definition self_peer :: "'db runtime \<Rightarrow> peer_advertisement" where
  "self_peer rt = default_peer\<lparr>pa_node_id := li_node_id (rt_local_identity rt), pa_incarnation := 1,
     pa_public_key_fingerprint := li_public_key_fingerprint (rt_local_identity rt)\<rparr>"

text \<open>Step 3b: the profile, and the local node in its own member table.\<close>

definition register_self ::
  "('c, 'db) runtime_env \<Rightarrow> 'db start_inputs \<Rightarrow> 'db runtime \<Rightarrow> ('db, unit) runtime_outcome" where
  "register_self env inp rt =
     (let profile = (case si_profile inp of Inl _ \<Rightarrow> rt_local_profile rt | Inr p \<Rightarrow> p);
          profile' = (if cp_node_id profile = [] then profile\<lparr>cp_node_id := li_node_id (rt_local_identity rt)\<rparr> else profile);
          rt1 = rt\<lparr>rt_local_profile := profile'\<rparr>;
          self_ev = \<lparr>de_kind = kFound, de_peer = self_peer rt\<rparr>
      in and_then (attempt (with_membership env (observe (rt_authenticate env rt1) (si_now inp) self_ev) rt1))
           (\<lambda>_ rt2. and_then (attempt (with_membership env (promote_joining_members (si_now inp)) rt2))
           (\<lambda>_ rt3. attempt (with_membership env (update_capability profile') rt3))))"

text \<open>Steps 4 to 8: the election with a term store that always answers 0, stores, transport, pipeline, heartbeat.\<close>

definition start_services ::
  "('c, 'db) runtime_env \<Rightarrow> 'db start_inputs \<Rightarrow> 'db runtime \<Rightarrow> 'db runtime" where
  "start_services env inp rt =
     (let pipe0 = new_pipeline (si_transport inp) (re_llama env);
          pipe = set_batching_config (rc_batching (rt_config rt))
            (set_production_mode (rc_production_mode (rt_config rt))
            (set_local_node_id (li_node_id (rt_local_identity rt)) pipe0))
      in rt\<lparr>rt_election := Some (outcome_state (el_start (li_node_id (rt_local_identity rt))
                (rc_cluster_id (rt_config rt)) (Ok 0) True new_election)),
            rt_manifest_repo := Map.empty,
            rt_model_manager := Some (new_model_manager (rc_model_root (rt_config rt))),
            rt_assignment_store := si_database inp,
            rt_backend_registry := True, rt_transport := si_transport inp, rt_pipeline := Some pipe,
            rt_heartbeat_active := True, rt_state := kReady\<rparr>)"

definition rt_start ::
  "('c, 'db) runtime_env \<Rightarrow> runtime_config \<Rightarrow> bool \<Rightarrow> 'db start_inputs \<Rightarrow> 'db runtime \<Rightarrow> ('db, bool result) runtime_outcome" where
  "rt_start env config callback inp rt =
     (if rt_state rt \<noteq> kStopped then (Returned (Err kFailedPrecondition ''already started''), rt, [])
      else case start_membership env config callback inp rt of
        Inl e \<Rightarrow> (Returned (Inl e), rt\<lparr>rt_state := kStarting, rt_config := config, rt_callback := callback,
                   rt_local_role := (if rc_start_as_leech config then kLeech else kParticipant)\<rparr>, [])
      | Inr rt1 \<Rightarrow>
          (case si_discovery inp of
             Some e \<Rightarrow> (Returned (Err (err_code e) (err_message e @ '' [discovery.start]'')), rt1, [])
           | None \<Rightarrow>
               and_then (register_self env inp rt1) (\<lambda>_ rt2.
               and_then (rt_emit_snapshot (start_services env inp rt2)) (\<lambda>_ rt3.
                 (Returned (Ok True), rt3, [])))))"

section \<open>Planning\<close>

definition is_local_leader :: "'db runtime \<Rightarrow> bool result" where
  "is_local_leader rt =
     (case rt_election rt of
        None \<Rightarrow> Ok False
      | Some e \<Rightarrow>
          (case el_current e of
             Inl err \<Rightarrow> Inl err
           | Inr ls \<Rightarrow> Ok (ls_leader_id ls = Some (li_node_id (rt_local_identity rt)))))"

text \<open>The shards of the generated plan: one for each live member with a profile, then the layers in order.\<close>

definition auto_shard :: "member \<Rightarrow> capability_profile \<Rightarrow> shard_option" where
  "auto_shard m cap = default_shard_option\<lparr>so_shard_id := ''shard-'' @ pa_node_id (mb_peer m),
     so_stage_ids := [''layer-'' @ pa_node_id (mb_peer m)], so_stage_kind := kTransformerLayers,
     so_quantization := kFp16, so_peak_runtime_memory_bytes := cp_available_memory_bytes cap div 2,
     so_compatible_backends := [kLlamaCpp], so_required_compute_units := [kCpu],
     so_estimated_decode_microseconds := 40000\<rparr>"

fun auto_shards :: "member list \<Rightarrow> shard_option list" where
  "auto_shards [] = []"
| "auto_shards (m # ms) =
     (if mb_state m \<noteq> kAlive then auto_shards ms
      else case mb_capability m of
        None \<Rightarrow> auto_shards ms
      | Some cap \<Rightarrow> auto_shard m cap # auto_shards ms)"

fun assign_layers :: "u32 \<Rightarrow> u32 \<Rightarrow> shard_option list \<Rightarrow> shard_option list \<times> u32" where
  "assign_layers layers_per offset [] = ([], offset)"
| "assign_layers layers_per offset (opt # opts) =
     (case assign_layers layers_per (offset + layers_per) opts of
        (opts', offset') \<Rightarrow>
          (opt\<lparr>so_layers := Some \<lparr>lr_start = offset, lr_end_exclusive = offset + layers_per\<rparr>\<rparr> # opts', offset'))"

definition auto_options :: "member list \<Rightarrow> shard_option list" where
  "auto_options ms =
     (let opts = auto_shards ms;
          layers_per = 32 div max (of_nat (length opts)) 1;
          (opts', offset) = assign_layers layers_per 0 opts
      in if opts' \<noteq> [] \<and> offset < 32
         then opts'[length opts' - 1 := (last opts')\<lparr>so_layers :=
                Some \<lparr>lr_start = lr_start (the (so_layers (last opts'))), lr_end_exclusive = 32\<rparr>\<rparr>]
         else opts')"

definition auto_input :: "scheduling_input \<Rightarrow> scheduling_input" where
  "auto_input input = input\<lparr>in_model_id := ''auto-generated'', in_manifest_revision := ''v1'', in_total_layers := 32,
     in_shard_options := auto_options (snap_members (in_membership input))\<rparr>"

text \<open>
  \<open>file\<close> is \<open>manifest.json\<close> under the model root, \<open>None\<close> when there is none. A manifest
  that is refused, or has no shards, leaves the input to the generated plan.
\<close>

definition manifest_input ::
  "string \<Rightarrow> manifest_file option \<Rightarrow> manifest_index \<Rightarrow> scheduling_input \<Rightarrow> scheduling_input option \<times> manifest_index" where
  "manifest_input path file repo input =
     (case file of
        None \<Rightarrow> (Some input, repo)
      | Some f \<Rightarrow>
          (case publish path f repo of
             (None, repo') \<Rightarrow> (None, repo')
           | (Some (Inl e), repo') \<Rightarrow> (Some input, repo')
           | (Some (Inr summary), repo') \<Rightarrow>
               (Some (input\<lparr>in_model_id := sm_model_id summary, in_manifest_revision := sm_revision summary,
                  in_total_layers := sm_total_layers summary, in_shard_options := sm_shard_options summary,
                  in_boundaries := sm_boundaries summary\<rparr>), repo')))"

text \<open>The plan that was made, when one was made: it becomes the current one, and a plan from a manifest is saved.\<close>

definition adopt_plan :: "('c, 'db) runtime_env \<Rightarrow> pipeline_plan result \<Rightarrow> 'db runtime \<Rightarrow> 'db runtime" where
  "adopt_plan env planned rt =
     (case planned of
        Inl e \<Rightarrow> rt
      | Inr plan \<Rightarrow>
          (let rt1 = rt\<lparr>rt_current_plan := Some plan\<rparr> in
           if pp_model_id plan \<noteq> ''auto-generated''
           then rt1\<lparr>rt_assignment_store := snd (save_plan (re_sqlite env) plan (rt_assignment_store rt))\<rparr>
           else rt1))"

definition schedule_plan ::
  "('c, 'db) runtime_env \<Rightarrow> manifest_file option \<Rightarrow> u64 \<Rightarrow> time_point \<Rightarrow> 'db runtime \<Rightarrow> ('db, unit) runtime_outcome" where
  "schedule_plan env file rng now rt =
     (case (rt_membership rt, rt_election rt) of
        (Some s, Some e) \<Rightarrow>
          (case (snapshot s, el_current e) of
             (Inr snap, Inr ls) \<Rightarrow>
               (case manifest_input (path_append (rc_model_root (rt_config rt)) ''manifest.json'') file (rt_manifest_repo rt)
                      (default_scheduling_input\<lparr>in_membership := snap, in_fence := ls_fence ls\<rparr>) of
                  (None, repo) \<Rightarrow> (Thrown None, rt\<lparr>rt_manifest_repo := repo\<rparr>, [])
                | (Some input, repo) \<Rightarrow>
                    (let input' = (if in_shard_options input = [] then auto_input input else input)
                     in (Returned (), adopt_plan env (memory_create_plan (re_sort_slots env) (re_sort_stages env) rng now input')
                           (rt\<lparr>rt_manifest_repo := repo\<rparr>), [])))
           | (Inl err, _) \<Rightarrow> (Thrown (Some err), rt, [])
           | (_, Inl err) \<Rightarrow> (Thrown (Some err), rt, []))
      | _ \<Rightarrow> (Returned (), rt, []))"

section \<open>Operations\<close>

definition demo_models :: "model_presence list" where
  "demo_models =
     [\<lparr>mp_model_id = ''qwen3-1.8b'', mp_manifest_revision = ''1.0'', mp_quantization = ''int4'',
       mp_downloaded_bytes = 1500000000, mp_total_bytes = 1500000000, mp_ready = True\<rparr>,
      \<lparr>mp_model_id = ''qwen3-4b'', mp_manifest_revision = ''1.0'', mp_quantization = ''int4'',
       mp_downloaded_bytes = 2800000000, mp_total_bytes = 2800000000, mp_ready = True\<rparr>]"

text \<open>The rest of \<open>join_cluster\<close> after the membership service was told.\<close>

definition finish_join ::
  "('c, 'db) runtime_env \<Rightarrow> manifest_file option \<Rightarrow> u64 \<Rightarrow> time_point \<Rightarrow> 'db runtime \<Rightarrow> ('db, bool result) runtime_outcome" where
  "finish_join env file rng now rt =
     (let rt1 = rt\<lparr>rt_local_models := demo_models, rt_local_role := kParticipant\<rparr>
      in case is_local_leader rt1 of
           Inl e \<Rightarrow> (Thrown (Some e), rt1, [])
         | Inr leader \<Rightarrow>
             and_then (if leader then schedule_plan env file rng now rt1 else (Returned (), rt1, [])) (\<lambda>_ rt2.
             and_then (rt_emit_snapshot rt2) (\<lambda>_ rt3. (Returned (Ok True), rt3, []))))"

definition join_cluster ::
  "('c, 'db) runtime_env \<Rightarrow> manifest_file option \<Rightarrow> u64 \<Rightarrow> time_point \<Rightarrow> bool \<Rightarrow> 'db runtime
     \<Rightarrow> ('db, bool result) runtime_outcome" where
  "join_cluster env file rng now cancelled rt =
     (if cancelled then (Returned (Err kCancelled ''join cancelled''), rt, [])
      else if rc_production_mode (rt_config rt) \<and> \<not> rt_transport rt
      then (Returned (Err kUnavailable (''cannot join cluster: transport not available - '' @
              ''install protobuf/grpc or disable production_mode'')), rt, [])
      else if rc_production_mode (rt_config rt) \<and> \<not> rt_backend_registry rt
      then (Returned (Err kUnavailable ''cannot join cluster: backend registry not available''), rt, [])
      else
        and_then (with_membership env (update_model_presence demo_models) rt) (\<lambda>_ rt1.
        and_then (with_membership env (update_local_role kParticipant) rt1) (\<lambda>_. finish_join env file rng now)))"

text \<open>The outer \<open>None\<close> is \<open>std::terminate\<close>, as in the pipeline.\<close>

definition rt_generate ::
  "inference_request \<Rightarrow> bool \<Rightarrow> nat \<Rightarrow> 'db runtime \<Rightarrow> (nat result \<times> 'db runtime \<times> pipeline_event list) option" where
  "rt_generate request callback token rt =
     (if rt_state rt \<noteq> kReady \<and> rt_state rt \<noteq> kDegraded
      then Some (Err kFailedPrecondition ''runtime not ready'', rt, [])
      else case rt_current_plan rt of
        None \<Rightarrow> Some (Err kFailedPrecondition ''no active plan'', rt, [])
      | Some plan \<Rightarrow>
          (case rt_pipeline rt of
             None \<Rightarrow> None
           | Some p \<Rightarrow>
               map_option (\<lambda>(r, p', evs). (r, rt\<lparr>rt_pipeline := Some p'\<rparr>, evs)) (generate request plan callback token p)))"

definition model_download_progress :: "'db runtime \<Rightarrow> model_presence list" where
  "model_download_progress rt = rt_local_models rt"

definition rt_available_models :: "('c, 'db) runtime_env \<Rightarrow> 'db runtime \<Rightarrow> model_catalog_entry list completion" where
  "rt_available_models env rt =
     (case rt_membership rt of
        None \<Rightarrow> Returned []
      | Some s \<Rightarrow>
          (case snapshot s of
             Inl e \<Rightarrow> Thrown (Some e)
           | Inr snap \<Rightarrow>
               (case available_models (re_catalog_files env) snap of None \<Rightarrow> Thrown None | Some es \<Rightarrow> Returned es)))"

record stage_profile =
  sf_stage_id :: string
  sf_node_id :: node_id
  sf_backend :: backend_kind
  sf_gpu_miss_rate :: double
  sf_npu_miss_rate :: double
  sf_cpu_fallback_rate :: double
  sf_avg_latency_us :: int
  sf_p99_latency_us :: int
  sf_kv_cache_hit_count :: u64
  sf_kv_cache_miss_count :: u64
  sf_network_transfer_bytes :: u64
  sf_peak_memory_bytes :: u64

text \<open>\<open>total_tokens_per_second\<close> is \<open>None\<close> for the infinity that a division by zero gives.\<close>

record cluster_profile =
  cl_config_name :: string
  cl_profiler_model_id :: model_id
  cl_stages :: "stage_profile list"
  cl_total_tokens_per_second :: "double option"
  cl_end_to_end_latency_us :: int
  cl_all_stages_healthy :: bool

definition profile_stage :: "member \<Rightarrow> stage_profile" where
  "profile_stage m = \<lparr>sf_stage_id = ''stage-'' @ pa_node_id (mb_peer m), sf_node_id = pa_node_id (mb_peer m),
     sf_backend = kLlamaCpp, sf_gpu_miss_rate = 5 / 100, sf_npu_miss_rate = 0, sf_cpu_fallback_rate = 2 / 100,
     sf_avg_latency_us = 12000, sf_p99_latency_us = 35000, sf_kv_cache_hit_count = 150, sf_kv_cache_miss_count = 10,
     sf_network_transfer_bytes = 16384, sf_peak_memory_bytes = 512 * 1024 * 1024\<rparr>"

definition run_profiler :: "bool \<Rightarrow> 'db runtime \<Rightarrow> cluster_profile result completion" where
  "run_profiler cancelled rt =
     (let profile = \<lparr>cl_config_name = ''current'', cl_profiler_model_id = ''socrates-debug-profiler'', cl_stages = [],
            cl_total_tokens_per_second = Some 0, cl_end_to_end_latency_us = 0, cl_all_stages_healthy = True\<rparr>
      in if cancelled then Returned (Err kCancelled ''profiler cancelled'')
         else case rt_membership rt of
           None \<Rightarrow> Returned (Ok profile)
         | Some s \<Rightarrow>
             (case snapshot s of
                Inl e \<Rightarrow> Thrown (Some e)
              | Inr snap \<Rightarrow>
                  (let stages = map profile_stage (filter (\<lambda>m. mb_state m = kAlive) (snap_members snap))
                   in Returned (Ok (profile\<lparr>cl_stages := stages,
                        cl_total_tokens_per_second :=
                          (if stages = [] then None else Some (100 / (of_nat (length stages) * (12 / 1000)))),
                        cl_end_to_end_latency_us := 12000 * int (length stages)\<rparr>)))))"

section \<open>Stop, leave and the heartbeat\<close>

text \<open>
  \<open>do_stop\<close> in two parts, since the heartbeat thread runs on while a graceful leave waits for
  the active generations. \<open>None\<close> is the early return.
\<close>

definition stop_begin :: "bool \<Rightarrow> 'db runtime \<Rightarrow> 'db runtime option" where
  "stop_begin graceful rt =
     (if rt_state rt = kStopped \<or> rt_state rt = kStopping then None
      else
        let rt1 = rt\<lparr>rt_state := kStopping\<rparr>
        in Some (if graceful
             then rt1\<lparr>rt_membership := map_option ms_stop (rt_membership rt1), rt_election := map_option el_stop (rt_election rt1)\<rparr>
             else rt1))"

text \<open>The loop that waits leaves it when nothing is generated any more, or 30 seconds after it began.\<close>

definition drained :: "duration \<Rightarrow> 'db runtime \<Rightarrow> bool" where
  "drained elapsed rt \<longleftrightarrow>
     (case rt_pipeline rt of None \<Rightarrow> True | Some p \<Rightarrow> active_generation_count p = 0 \<or> elapsed > 30000000000)"

definition stop_end :: "'db runtime \<Rightarrow> ('db, unit) runtime_outcome" where
  "stop_end rt = rt_emit_snapshot (rt\<lparr>rt_heartbeat_active := False, rt_pipeline := None, rt_transport := False,
     rt_election := None, rt_membership := None, rt_discovery := False, rt_state := kStopped\<rparr>)"

definition rt_stop :: "'db runtime \<Rightarrow> ('db, unit) runtime_outcome" where
  "rt_stop rt = (case stop_begin False rt of None \<Rightarrow> (Returned (), rt, []) | Some rt1 \<Rightarrow> stop_end rt1)"

text \<open>
  One pass of the heartbeat: the first part only writes log lines, for the members it names here.
  An exception from \<open>is_local_leader\<close> is not caught and ends the process.
\<close>

definition heartbeat_suspects :: "time_point \<Rightarrow> 'db runtime \<Rightarrow> node_id list" where
  "heartbeat_suspects now rt =
     (if rt_state rt \<in> {kReady, kDegraded, kDiscovering, kElecting} then
        (case rt_membership rt of
           None \<Rightarrow> []
         | Some s \<Rightarrow>
             (case snapshot s of
                Inl e \<Rightarrow> []
              | Inr snap \<Rightarrow>
                  map (\<lambda>m. pa_node_id (mb_peer m))
                    (filter (\<lambda>m. whole_seconds (now - mb_last_seen m) > 10 \<and> mb_state m = kAlive) (snap_members snap))))
      else [])"

definition heartbeat :: "('c, 'db) runtime_env \<Rightarrow> time_point \<Rightarrow> 'db runtime \<Rightarrow> ('db runtime \<times> runtime_snapshot list) option" where
  "heartbeat env now rt =
     (if \<not> rt_heartbeat_active rt then Some (rt, [])
      else case is_local_leader rt of
        Inl e \<Rightarrow> None
      | Inr leader \<Rightarrow>
          (case rt_pipeline rt of
             Some p \<Rightarrow>
               if leader \<and> active_generation_count p = 0
               then Some (snd (attempt (with_membership env (promote_joining_members now) rt)))
               else Some (rt, [])
           | None \<Rightarrow> Some (rt, [])))"

section \<open>Runs\<close>

text \<open>
  The calls of a client, the callbacks of other threads, the passes of the heartbeat and of the
  membership service's liveness thread, and the steps inside the pipeline. \<open>None\<close> is the end of the process.
\<close>

datatype 'db runtime_call =
    RtStart runtime_config bool "'db start_inputs"
  | RtJoin "manifest_file option" u64 time_point bool
  | RtGenerate inference_request bool nat
  | RtDiscovery time_point discovery_event
  | RtLiveness time_point
  | RtHeartbeat time_point
  | RtPipeline pipeline_call
  | RtStopBegin bool
  | RtStopEnd

definition outcome_runtime :: "('db, 'a) runtime_outcome \<Rightarrow> 'db runtime" where
  "outcome_runtime m = fst (snd m)"

fun rt_perform :: "('c, 'db) runtime_env \<Rightarrow> 'db runtime_call \<Rightarrow> 'db runtime \<Rightarrow> 'db runtime option" where
  "rt_perform env (RtStart config callback inp) rt = Some (outcome_runtime (rt_start env config callback inp rt))"
| "rt_perform env (RtJoin file rng now cancelled) rt = Some (outcome_runtime (join_cluster env file rng now cancelled rt))"
| "rt_perform env (RtGenerate rq cb tok) rt = map_option (\<lambda>(r, rt', evs). rt') (rt_generate rq cb tok rt)"
| "rt_perform env (RtDiscovery now ev) rt = Some (outcome_runtime (on_discovery env now ev rt))"
| "rt_perform env (RtLiveness now) rt = Some (rt\<lparr>rt_membership := map_option (liveness_tick now) (rt_membership rt)\<rparr>)"
| "rt_perform env (RtHeartbeat now) rt = map_option fst (heartbeat env now rt)"
| "rt_perform env (RtPipeline c) rt =
     (case rt_pipeline rt of
        None \<Rightarrow> Some rt
      | Some p \<Rightarrow> map_option (\<lambda>(p', evs). rt\<lparr>rt_pipeline := Some p'\<rparr>) (pi_perform c p))"
| "rt_perform env (RtStopBegin graceful) rt = Some (case stop_begin graceful rt of None \<Rightarrow> rt | Some rt' \<Rightarrow> rt')"
| "rt_perform env RtStopEnd rt = Some (if rt_state rt = kStopping then outcome_runtime (stop_end rt) else rt)"

inductive rt_reachable :: "('c, 'db) runtime_env \<Rightarrow> 'db runtime \<Rightarrow> bool" for env where
  reach_new: "rt_reachable env (new_runtime cfg)"
| reach_step: "rt_reachable env rt \<Longrightarrow> rt_perform env c rt = Some rt' \<Longrightarrow> rt_reachable env rt'"

section \<open>Lemmas: callbacks\<close>

lemma update_membership_running [simp]:
  "el_running (outcome_state (update_membership rng now snap e)) = el_running e"
  by (simp add: update_membership_def Let_def)

text \<open>What a call of the membership service may change of the runtime.\<close>

definition reelects :: "'db runtime \<Rightarrow> 'db runtime \<Rightarrow> bool" where
  "reelects rt rt' \<longleftrightarrow> (\<exists>e'. rt' = rt\<lparr>rt_election := e'\<rparr> \<and>
     map_option el_running e' = map_option el_running (rt_election rt))"

lemma reelects_refl [simp]: "reelects rt rt"
  unfolding reelects_def by (intro exI [of _ "rt_election rt"]) simp

lemma reelects_trans: "reelects rt rt1 \<Longrightarrow> reelects rt1 rt2 \<Longrightarrow> reelects rt rt2"
  unfolding reelects_def by auto

definition elect :: "('c, 'db) runtime_env \<Rightarrow> membership_snapshot \<Rightarrow> election \<Rightarrow> election" where
  "elect env snap e = outcome_state (update_membership (re_token env (snap_revision snap)) (re_clock env (snap_revision snap)) snap e)"

lemma on_membership_state:
  "fst (snd (on_membership env snap rt)) = rt\<lparr>rt_election := map_option (elect env snap) (rt_election rt)\<rparr>"
  unfolding on_membership_def Let_def elect_def
  by (cases "rt_election rt"; cases "rt_callback rt") (simp_all split: sum.split)

lemma on_membership_reelects: "on_membership env snap rt = (r, rt', evs) \<Longrightarrow> reelects rt rt'"
  using on_membership_state [of env snap rt] unfolding reelects_def
  by (intro exI [of _ "map_option (elect env snap) (rt_election rt)"]) (simp add: option.map_comp comp_def elect_def)

lemma and_then_elim:
  assumes "and_then m f = (r, rt', evs)"
  obtains (thrown) e where "m = (Thrown e, rt', evs)" "r = Thrown e"
  | (returned) v rt1 evs1 evs2 where "m = (Returned v, rt1, evs1)" "f v rt1 = (r, rt', evs2)" "evs = evs1 @ evs2"
proof (cases m)
  case (fields c rt1 evs1)
  then show ?thesis using assms that by (cases c) (auto simp: and_then_def split: prod.splits)
qed

lemma deliver_reelects: "deliver env snaps rt = (r, rt', evs) \<Longrightarrow> reelects rt rt'"
proof (induction env snaps rt arbitrary: evs rule: deliver.induct)
  case (2 env snap snaps rt)
  from 2(2) show ?case unfolding deliver.simps
  proof (cases rule: and_then_elim)
    case (returned v rt1 evs1 evs2)
    from on_membership_reelects [OF returned(1)] 2(1) [OF returned(2)] show ?thesis by (rule reelects_trans)
  qed (rule on_membership_reelects)
qed simp

lemma with_membership_reelects:
  assumes "with_membership env op rt = (r, rt', evs)"
  shows "reelects (rt\<lparr>rt_membership := map_option (\<lambda>s. outcome_state (op s)) (rt_membership rt)\<rparr>) rt'"
proof (cases "rt_membership rt")
  case None
  then have "rt' = rt" using assms by (simp add: with_membership_def)
  moreover have "rt\<lparr>rt_membership := None\<rparr> = rt" using None by (cases rt) simp
  ultimately show ?thesis using None by (metis option.map(1) reelects_refl)
next
  case (Some s)
  obtain a s' snaps where o: "op s = (a, s', snaps)" by (rule prod_cases3)
  with Some assms have "and_then (deliver env snaps (rt\<lparr>rt_membership := Some s'\<rparr>))
      (\<lambda>_ rt'. (case a of Inl e \<Rightarrow> Thrown (Some e) | Inr _ \<Rightarrow> Returned (), rt', [])) = (r, rt', evs)"
    by (simp add: with_membership_def)
  then have "reelects (rt\<lparr>rt_membership := Some s'\<rparr>) rt'"
    by (cases rule: and_then_elim) (auto dest: deliver_reelects)
  then show ?thesis using Some o by simp
qed

section \<open>The life cycle\<close>

text \<open>
  Ready means complete: all services exist and run, and the identity provider accepts every peer. Stopped means that none exists. A runtime whose
  start failed has a membership service and nothing after it.
\<close>

definition open_cluster :: "'db runtime \<Rightarrow> bool" where
  "open_cluster rt \<longleftrightarrow> map_option ms_identity_provider (rt_membership rt) = Some True \<and>
     (\<exists>ip. rt_identity_provider rt = Some ip \<and> ip_policy ip = kEphemeralCluster \<and> ip_local ip \<noteq> None)"

definition rt_inv :: "'db runtime \<Rightarrow> bool" where
  "rt_inv rt \<longleftrightarrow>
     (case rt_state rt of
        kStopped \<Rightarrow> rt_membership rt = None \<and> rt_election rt = None \<and> rt_pipeline rt = None \<and>
          \<not> rt_heartbeat_active rt \<and> \<not> rt_transport rt
      | kStarting \<Rightarrow> rt_election rt = None \<and> rt_pipeline rt = None \<and> \<not> rt_heartbeat_active rt \<and> \<not> rt_transport rt
      | kReady \<Rightarrow> map_option ms_running (rt_membership rt) = Some True \<and> map_option el_running (rt_election rt) = Some True \<and>
          rt_pipeline rt \<noteq> None \<and> rt_heartbeat_active rt \<and> open_cluster rt
      | kStopping \<Rightarrow> True
      | _ \<Rightarrow> False)"

lemma membership_ops_running [simp]:
  "ms_running (outcome_state (observe auth now ev s)) = ms_running s"
  "ms_running (outcome_state (promote_joining_members now s)) = ms_running s"
  "ms_running (outcome_state (update_capability profile s)) = ms_running s"
  "ms_running (outcome_state (update_model_presence models s)) = ms_running s"
  "ms_running (outcome_state (update_local_role role s)) = ms_running s"
  "ms_running (liveness_tick now s) = ms_running s"
  by (simp_all add: observe_def promote_joining_members_def update_capability_def update_model_presence_def
      update_local_role_def liveness_tick_def bump_and_emit_def Let_def split: option.split sum.split)

lemma membership_ops_provider [simp]:
  "ms_identity_provider (outcome_state (observe auth now ev s)) = ms_identity_provider s"
  "ms_identity_provider (outcome_state (promote_joining_members now s)) = ms_identity_provider s"
  "ms_identity_provider (outcome_state (update_capability profile s)) = ms_identity_provider s"
  "ms_identity_provider (outcome_state (update_model_presence models s)) = ms_identity_provider s"
  "ms_identity_provider (outcome_state (update_local_role role s)) = ms_identity_provider s"
  "ms_identity_provider (liveness_tick now s) = ms_identity_provider s"
  by (simp_all add: observe_def promote_joining_members_def update_capability_def update_model_presence_def
      update_local_role_def liveness_tick_def bump_and_emit_def Let_def split: option.split sum.split)

text \<open>What the steps other than start and stop keep.\<close>

definition same_services :: "'db runtime \<Rightarrow> 'db runtime \<Rightarrow> bool" where
  "same_services rt rt' \<longleftrightarrow> rt_state rt' = rt_state rt \<and> rt_heartbeat_active rt' = rt_heartbeat_active rt \<and>
     rt_transport rt' = rt_transport rt \<and> (rt_pipeline rt' = None \<longleftrightarrow> rt_pipeline rt = None) \<and>
     map_option ms_running (rt_membership rt') = map_option ms_running (rt_membership rt) \<and>
     map_option el_running (rt_election rt') = map_option el_running (rt_election rt) \<and>
     rt_identity_provider rt' = rt_identity_provider rt \<and>
     map_option ms_identity_provider (rt_membership rt') = map_option ms_identity_provider (rt_membership rt)"

lemma same_services_refl [simp]: "same_services rt rt"
  by (simp add: same_services_def)

lemma same_services_trans: "same_services rt rt1 \<Longrightarrow> same_services rt1 rt2 \<Longrightarrow> same_services rt rt2"
  by (simp add: same_services_def)

lemma rt_inv_same: "rt_inv rt \<Longrightarrow> same_services rt rt' \<Longrightarrow> rt_inv rt'"
  by (cases "rt_state rt") (auto simp: rt_inv_def same_services_def open_cluster_def)

lemma with_membership_same:
  assumes "with_membership env op rt = (r, rt', evs)" "\<And>s. ms_running (outcome_state (op s)) = ms_running s"
    "\<And>s. ms_identity_provider (outcome_state (op s)) = ms_identity_provider s"
  shows "same_services rt rt'"
  using with_membership_reelects [OF assms(1)] assms(2,3)
  by (auto simp: reelects_def same_services_def option.map_comp comp_def)

lemma attempt_state [simp]: "outcome_runtime (attempt m) = outcome_runtime m"
  by (simp add: attempt_def outcome_runtime_def split: prod.split)

lemma with_membership_keeps:
  "(\<And>s. ms_running (outcome_state (op s)) = ms_running s) \<Longrightarrow>
   (\<And>s. ms_identity_provider (outcome_state (op s)) = ms_identity_provider s) \<Longrightarrow>
   same_services rt (outcome_runtime (with_membership env op rt))"
  using with_membership_same [of env op rt] by (cases "with_membership env op rt") (simp add: outcome_runtime_def)

lemma rt_emit_snapshot_state [simp]: "outcome_runtime (rt_emit_snapshot rt) = rt"
  by (simp add: rt_emit_snapshot_def outcome_runtime_def split: sum.split)

lemma outcome_runtime_and_then:
  assumes "\<And>v rt1 evs. m = (Returned v, rt1, evs) \<Longrightarrow> same_services rt1 (outcome_runtime (f v rt1))"
    "same_services rt (outcome_runtime m)"
  shows "same_services rt (outcome_runtime (and_then m f))"
proof -
  obtain r rt' evs where a: "and_then m f = (r, rt', evs)" by (rule prod_cases3)
  then show ?thesis
  proof (cases rule: and_then_elim)
    case (returned v rt1 evs1 evs2)
    then show ?thesis using assms a same_services_trans [of rt rt1 rt'] by (auto simp: outcome_runtime_def)
  qed (use assms(2) a in \<open>simp add: outcome_runtime_def\<close>)
qed

lemma adopt_plan_same [simp]: "same_services rt (adopt_plan env planned rt)"
  by (simp add: same_services_def adopt_plan_def Let_def split: sum.split)

lemma schedule_plan_same: "same_services rt (outcome_runtime (schedule_plan env file rng now rt))"
proof -
  have "same_services rt (rt\<lparr>rt_manifest_repo := repo\<rparr>)" for repo by (simp add: same_services_def)
  then show ?thesis unfolding schedule_plan_def outcome_runtime_def
    by (auto simp: Let_def intro: same_services_trans [OF _ adopt_plan_same] split: option.split sum.split prod.split)
qed

lemma finish_join_same: "same_services rt (outcome_runtime (finish_join env file rng now rt))"
proof -
  let ?rt1 = "rt\<lparr>rt_local_models := demo_models, rt_local_role := kParticipant\<rparr>"
  have upd: "same_services rt ?rt1" by (simp add: same_services_def)
  have id: "same_services ?rt1 (outcome_runtime (c, ?rt1, evs))" for c :: "'c completion" and evs
    by (simp add: outcome_runtime_def)
  have "same_services ?rt1 (outcome_runtime (and_then (if leader then schedule_plan env file rng now ?rt1 else (Returned (), ?rt1, []))
      (\<lambda>_ rt2. and_then (rt_emit_snapshot rt2) (\<lambda>_ rt3. (Returned (Ok True :: bool result), rt3, [])))))" for leader
    by (intro outcome_runtime_and_then)
       (auto simp: outcome_runtime_def schedule_plan_same [unfolded outcome_runtime_def] rt_emit_snapshot_state [unfolded outcome_runtime_def])
  then show ?thesis using same_services_trans [OF upd] upd unfolding finish_join_def Let_def
    by (simp add: outcome_runtime_def split: sum.split)
qed

lemma join_cluster_same: "same_services rt (outcome_runtime (join_cluster env file rng now cancelled rt))"
proof -
  have "same_services rt (outcome_runtime (and_then (with_membership env (update_model_presence demo_models) rt) (\<lambda>_ rt1.
      and_then (with_membership env (update_local_role kParticipant) rt1) (\<lambda>_. finish_join env file rng now))))"
    by (intro outcome_runtime_and_then with_membership_keeps finish_join_same) simp_all
  then show ?thesis unfolding join_cluster_def by (simp add: outcome_runtime_def)
qed

lemma register_self_same: "same_services rt (outcome_runtime (register_self env inp rt))"
proof -
  have upd: "same_services rt (rt\<lparr>rt_local_profile := p\<rparr>)" for p by (simp add: same_services_def)
  show ?thesis unfolding register_self_def Let_def
    by (intro outcome_runtime_and_then) (auto intro!: with_membership_keeps same_services_trans [OF upd])
qed

lemma start_membership_Ok:
  assumes "start_membership env config callback inp rt = Ok rt1"
  shows "rt_state rt1 = kStarting" "rt_callback rt1 = callback" "rt_election rt1 = rt_election rt" "rt_pipeline rt1 = rt_pipeline rt"
    "rt_heartbeat_active rt1 = rt_heartbeat_active rt" "rt_transport rt1 = rt_transport rt"
    "map_option ms_running (rt_membership rt1) = Some True" "open_cluster rt1"
  using assms by (auto simp: start_membership_def Let_def ms_start_def new_membership_def open_cluster_def local_identity_def
    make_ephemeral_identity_provider_def new_provider_def split: prod.splits sum.splits option.splits if_splits)

lemma rt_start_inv:
  assumes "rt_inv rt" "rt_start env config callback inp rt = (r, rt', evs)"
  shows "rt_inv rt'"
proof (cases "rt_state rt = kStopped")
  case True
  show ?thesis
  proof (cases "start_membership env config callback inp rt")
    case (Inl e)
    then show ?thesis using True assms by (auto simp: rt_start_def rt_inv_def)
  next
    case (Inr rt1)
    note m = start_membership_Ok [OF Inr]
    show ?thesis
    proof (cases "si_discovery inp")
      case (Some e)
      then show ?thesis using True Inr assms m by (auto simp: rt_start_def rt_inv_def)
    next
      case None
      obtain c rt2 evs2 where reg: "register_self env inp rt1 = (c, rt2, evs2)" by (rule prod_cases3)
      then have "same_services rt1 rt2" using register_self_same [of rt1 env inp] by (simp add: outcome_runtime_def)
      moreover have "rt' = rt2 \<and> (\<exists>e. c = Thrown e) \<or> rt' = start_services env inp rt2"
      proof -
        have "and_then (register_self env inp rt1) (\<lambda>_ rt2. and_then (rt_emit_snapshot (start_services env inp rt2))
            (\<lambda>_ rt3. (Returned (Ok True), rt3, []))) = (r, rt', evs)"
          using True Inr None assms(2) by (simp add: rt_start_def)
        then show ?thesis
        proof (cases rule: and_then_elim)
          case (returned v rt1 evs1 evs2)
          from returned(2) reg returned(1) show ?thesis
            using rt_emit_snapshot_state [of "start_services env inp rt2"]
            by (elim and_then_elim) (auto simp: outcome_runtime_def)
        qed (use reg in simp)
      qed
      ultimately show ?thesis using m True assms(1)
        by (auto simp: rt_inv_def same_services_def start_services_def Let_def el_start_def new_election_def open_cluster_def)
    qed
  qed
qed (use assms in \<open>simp add: rt_start_def\<close>)

lemma heartbeat_same: "heartbeat env now rt = Some (rt', evs) \<Longrightarrow> same_services rt rt'"
  using with_membership_keeps [of "promote_joining_members now" rt env]
  by (auto simp: heartbeat_def attempt_def outcome_runtime_def split: if_splits sum.splits option.splits prod.splits)

lemma rt_generate_same: "rt_generate rq cb tok rt = Some (r, rt', evs) \<Longrightarrow> same_services rt rt'"
  by (auto simp: rt_generate_def same_services_def split: if_splits option.splits)

lemma rt_perform_inv:
  assumes "rt_inv rt" "rt_perform env c rt = Some rt'"
  shows "rt_inv rt'"
proof (cases c)
  case (RtStart config callback inp)
  then show ?thesis using assms rt_start_inv [OF assms(1)]
    by (cases "rt_start env config callback inp rt") (auto simp: outcome_runtime_def)
next
  case (RtJoin mf rng now cancelled)
  then show ?thesis using assms(2) rt_inv_same [OF assms(1) join_cluster_same [of rt env mf rng now cancelled]] by simp
next
  case (RtGenerate rq cb tok)
  then show ?thesis using assms(2) by (auto intro: rt_inv_same [OF assms(1)] rt_generate_same)
next
  case (RtDiscovery now ev)
  have "same_services rt (outcome_runtime (on_discovery env now ev rt))"
    unfolding on_discovery_def attempt_state by (rule with_membership_keeps) simp_all
  then show ?thesis using RtDiscovery assms(2) by (auto intro: rt_inv_same [OF assms(1)])
next
  case (RtLiveness now)
  have "same_services rt (rt\<lparr>rt_membership := map_option (liveness_tick now) (rt_membership rt)\<rparr>)"
    by (simp add: same_services_def option.map_comp comp_def)
  then show ?thesis using RtLiveness assms(2) by (auto intro: rt_inv_same [OF assms(1)])
next
  case (RtHeartbeat now)
  then show ?thesis using assms(2) by (auto intro: rt_inv_same [OF assms(1)] heartbeat_same)
next
  case (RtPipeline pc)
  have "same_services rt rt'" using RtPipeline assms(2) by (auto simp: same_services_def split: option.splits)
  then show ?thesis by (rule rt_inv_same [OF assms(1)])
next
  case (RtStopBegin graceful)
  then show ?thesis using assms by (auto simp: stop_begin_def rt_inv_def Let_def split: option.splits if_splits)
next
  case RtStopEnd
  then show ?thesis using assms by (auto simp: stop_end_def rt_inv_def)
qed

lemma reachable_inv: "rt_reachable env rt \<Longrightarrow> rt_inv rt"
proof (induction rule: rt_reachable.induct)
  case (reach_new cfg)
  show ?case by (simp add: rt_inv_def new_runtime_def)
next
  case (reach_step rt c rt')
  then show ?case using rt_perform_inv by blast
qed

section \<open>Properties\<close>

text \<open>A cluster of one node with llama.cpp, whose data base could not be opened.\<close>

definition demo_env :: "(string, memory_db) runtime_env" where
  "demo_env = \<lparr>re_ssl = example_ssl, re_sqlite = memory_engine, re_sort_slots = stable_sort by_remaining_memory_desc,
     re_sort_stages = stable_sort, re_token = (\<lambda>_. 7), re_clock = (\<lambda>_. 0), re_llama = False,
     re_catalog_files = example_catalog_file\<rparr>"

definition demo_config :: runtime_config where
  "demo_config = \<lparr>rc_cluster_id = ''c'', rc_state_directory = ''/s'', rc_model_root = ''/m'', rc_production_mode = False,
     rc_skip_discovery = True, rc_batching = default_batching, rc_start_as_leech = True\<rparr>"

definition demo_inputs :: "memory_db start_inputs" where
  "demo_inputs = \<lparr>si_rand = Inr 7, si_discovery = None, si_profile = Ok (example_profile 100 kLlamaCpp),
     si_database = None, si_transport = False, si_now = 0\<rparr>"

definition demo_started :: "memory_db runtime" where
  "demo_started = outcome_runtime (rt_start demo_env demo_config True demo_inputs (new_runtime demo_config))"

lemma demo_reachable: "rt_reachable demo_env demo_started"
  by (rule reach_step [OF reach_new [of demo_env demo_config], of "RtStart demo_config True demo_inputs"]) (simp add: demo_started_def)

lemma demo_ready: "rt_state demo_started = kReady"
  by code_simp





text \<open>
  A start whose discovery fails leaves the runtime half open: the error is returned, but a second
  start is refused as already started, with nothing changed; only after a stop it succeeds again.
\<close>

theorem failed_start_blocks_restart:
  assumes "rt_state rt = kStopped" "si_discovery inp = Some err" "rt_start env config callback inp rt = (r, rt1, evs)"
  shows "(\<exists>e. r = Returned (Inl e)) \<and> rt_state rt1 = kStarting \<and>
    rt_start env config' callback' inp' rt1 = (Returned (Err kFailedPrecondition ''already started''), rt1, []) \<and>
    rt_state (outcome_runtime (rt_stop rt1)) = kStopped"
proof -
  have "rt_state rt1 = kStarting \<and> (\<exists>e. r = Returned (Inl e))"
    using assms start_membership_Ok(1) [of env config callback inp rt]
    by (auto simp: rt_start_def Err_def split: sum.splits)
  then show ?thesis by (simp add: rt_start_def rt_stop_def stop_begin_def Let_def stop_end_def)
qed

theorem failed_start_blocks_restart_witness:
  "\<exists>rt1. rt_start demo_env demo_config True demo_inputs rt1 = (Returned (Err kFailedPrecondition ''already started''), rt1, [])"
proof -
  let ?inp = "demo_inputs\<lparr>si_discovery := Some \<lparr>err_code = kUnavailable, err_message = ''no network''\<rparr>\<rparr>"
  obtain r rt1 evs where "rt_start demo_env demo_config True ?inp (new_runtime demo_config) = (r, rt1, evs)" by (rule prod_cases3)
  from failed_start_blocks_restart [OF _ _ this, of _ demo_config True demo_inputs] show ?thesis
    by (intro exI [of _ rt1]) (simp add: new_runtime_def)
qed

lemma with_membership_plan [simp]: "rt_current_plan (outcome_runtime (with_membership env op rt)) = rt_current_plan rt"
  using with_membership_reelects [of env op rt]
  by (cases "with_membership env op rt") (auto simp: outcome_runtime_def reelects_def)

lemma and_then_plan:
  assumes "\<And>v rt1 evs. m = (Returned v, rt1, evs) \<Longrightarrow> rt_current_plan (outcome_runtime (f v rt1)) = rt_current_plan rt1"
    "rt_current_plan (outcome_runtime m) = plan"
  shows "rt_current_plan (outcome_runtime (and_then m f)) = plan"
proof -
  obtain r rt' evs where a: "and_then m f = (r, rt', evs)" by (rule prod_cases3)
  then show ?thesis by (cases rule: and_then_elim) (use assms a in \<open>fastforce simp: outcome_runtime_def\<close>)+
qed

lemma register_self_plan: "rt_current_plan (outcome_runtime (register_self env inp rt)) = rt_current_plan rt"
  unfolding register_self_def Let_def by (intro and_then_plan) simp_all

lemma rt_start_Ok:
  assumes "rt_start env config callback inp rt = (Returned (Ok True), rt2, evs)"
  obtains rt1 evs1 where "rt_state rt = kStopped" "start_membership env config callback inp rt = Ok rt1" "si_discovery inp = None"
    "register_self env inp rt1 = (Returned (), outcome_runtime (register_self env inp rt1), evs1)"
    "rt2 = start_services env inp (outcome_runtime (register_self env inp rt1))"
proof -
  obtain rt1 where m: "rt_state rt = kStopped" "start_membership env config callback inp rt = Ok rt1" "si_discovery inp = None"
    "and_then (register_self env inp rt1) (\<lambda>_ rt2. and_then (rt_emit_snapshot (start_services env inp rt2))
       (\<lambda>_ rt3. (Returned (Ok True), rt3, []))) = (Returned (Ok True), rt2, evs)"
    using assms by (auto simp: rt_start_def split: if_splits sum.splits option.splits)
  from m(4) show ?thesis
  proof (cases rule: and_then_elim)
    case (returned v rt1' evs1 evs2)
    from returned(2) have "rt2 = start_services env inp rt1'"
      using rt_emit_snapshot_state [of "start_services env inp rt1'"]
      by (elim and_then_elim) (auto simp: outcome_runtime_def)
    with returned(1) m(1-3) that show ?thesis by (simp add: outcome_runtime_def)
  qed simp
qed

text \<open>
  A restart forgets the terms and keeps the plan. After a stop and a successful start the
  election begins again at term 0 without a leader, so the fences of the new run do not exceed those of the
  old one; yet the plan of the old run, made for the old node id, is still the active one that \<open>generate\<close> uses.
\<close>

theorem restart_forgets_terms_keeps_plan:
  assumes "rt_reachable env rt" "rt_state rt = kReady" "rt_stop rt = (c, rt1, evs1)"
    and "rt_start env config callback inp rt1 = (Returned (Ok True), rt2, evs2)"
  shows "(\<exists>e. rt_election rt2 = Some e \<and> el_current_term e = 0 \<and> ls_leader_id (el_state e) = None) \<and>
    is_local_leader rt2 = Ok False \<and> rt_state rt2 = kReady \<and> rt_current_plan rt2 = rt_current_plan rt"
proof -
  have p1: "rt_current_plan rt1 = rt_current_plan rt"
    using assms(2,3) rt_emit_snapshot_state
    by (auto simp: rt_stop_def stop_begin_def stop_end_def Let_def rt_emit_snapshot_def split: if_splits sum.splits)
  from assms(4) show ?thesis
  proof (rule rt_start_Ok)
    fix rt3 evs3
    assume s: "start_membership env config callback inp rt1 = Ok rt3"
      "rt2 = start_services env inp (outcome_runtime (register_self env inp rt3))"
    have "rt_current_plan rt3 = rt_current_plan rt1"
      using s(1) by (auto simp: start_membership_def Let_def split: prod.splits sum.splits)
    then show ?thesis using p1 s(2)
      by (simp add: start_services_def Let_def el_start_def new_election_def register_self_plan is_local_leader_def el_current_def)
  qed
qed

theorem restart_forgets_terms_keeps_plan_witness:
  "\<exists>rt2 evs2. rt_start demo_env demo_config True demo_inputs (outcome_runtime (rt_stop demo_started)) =
     (Returned (Ok True), rt2, evs2) \<and> is_local_leader rt2 = Ok False"
proof -
  obtain c rt1 evs1 where s: "rt_stop demo_started = (c, rt1, evs1)" by (rule prod_cases3)
  have "case rt_start demo_env demo_config True demo_inputs (outcome_runtime (rt_stop demo_started)) of
      (r, _, _) \<Rightarrow> (case r of Returned x \<Rightarrow> x = Ok True | _ \<Rightarrow> False)" by code_simp
  then obtain rt2 evs2 where "rt_start demo_env demo_config True demo_inputs rt1 = (Returned (Ok True), rt2, evs2)"
    using s by (auto simp: outcome_runtime_def split: prod.splits completion.splits)
  with restart_forgets_terms_keeps_plan [OF demo_reachable demo_ready s this] s show ?thesis by (auto simp: outcome_runtime_def)
qed

text \<open>
  Joining is not guarded by the state: on a stopped runtime outside production mode \<open>join_cluster\<close> reports
  success and makes the node a participant although no service exists, and the runtime stays stopped.
\<close>

theorem stopped_runtime_joins:
  assumes "rt_reachable env rt" "rt_state rt = kStopped" "\<not> rc_production_mode (rt_config rt)"
  shows "\<exists>rt' evs. join_cluster env file rng now False rt = (Returned (Ok True), rt', evs) \<and>
    rt_state rt' = kStopped \<and> rt_local_role rt' = kParticipant \<and> rt_local_models rt' = demo_models"
proof -
  have "rt_membership rt = None" "rt_election rt = None"
    using reachable_inv [OF assms(1)] assms(2) by (simp_all add: rt_inv_def)
  then show ?thesis using assms(2,3)
    by (simp add: join_cluster_def with_membership_def and_then_def finish_join_def is_local_leader_def Let_def
        rt_emit_snapshot_def collect_snapshot_def)
qed

theorem stopped_runtime_joins_witness:
  "\<exists>rt' evs. join_cluster demo_env None 0 0 False (new_runtime demo_config) = (Returned (Ok True), rt', evs) \<and>
     rt_state rt' = kStopped"
  using stopped_runtime_joins [OF reach_new [of demo_env demo_config], of None 0 0]
  by (auto simp: new_runtime_def demo_config_def)

lemma publish_again:
  assumes "publish path f repo = (Some (Ok summary), repo')"
  shows "\<exists>e. publish path f repo' = (Some (Inl e), repo')"
proof -
  have "repo' (make_key (sm_model_id summary) (sm_revision summary)) = Some summary" using publish_Ok(2) [OF assms] by simp
  then show ?thesis using assms unfolding publish_def
    by (auto simp: Let_def Err_def split: manifest_file.splits option.splits sum.splits if_splits)
qed

lemma adopt_plan_fields [simp]:
  "rt_manifest_repo (adopt_plan env planned rt) = rt_manifest_repo rt" "rt_config (adopt_plan env planned rt) = rt_config rt"
  "rt_membership (adopt_plan env planned rt) = rt_membership rt" "rt_election (adopt_plan env planned rt) = rt_election rt"
  by (simp_all add: adopt_plan_def Let_def split: sum.split)

lemma created_model: "memory_create_plan sort_slots sort_stages rng now input = Ok plan \<Longrightarrow> pp_model_id plan = in_model_id input"
  unfolding memory_create_plan_def schedule_core_def by (auto simp: Let_def split: if_splits sum.splits)

lemma adopt_plan_model:
  "rt_current_plan (adopt_plan env (memory_create_plan f g rng now input) rt) = rt_current_plan rt \<or>
   (\<exists>plan. rt_current_plan (adopt_plan env (memory_create_plan f g rng now input) rt) = Some plan \<and> pp_model_id plan = in_model_id input)"
  by (cases "memory_create_plan f g rng now input") (auto simp: adopt_plan_def Let_def dest: created_model)

text \<open>
  A manifest is planned once. When the leader has planned from a manifest and plans again from the
  same file, the repository refuses the revision as already published, and the generated 32-layer plan
  replaces the manifest's, unless no plan is found at all.
\<close>

theorem second_planning_drops_manifest:
  assumes "schedule_plan env (Some f) rng now rt = (Returned (), rt1, evs)"
    "rt_membership rt = Some s" "rt_election rt = Some e"
    "publish (path_append (rc_model_root (rt_config rt)) ''manifest.json'') f (rt_manifest_repo rt) = (Some (Ok summary), repo)"
    "schedule_plan env (Some f) rng' now' rt1 = (Returned (), rt2, evs2)"
  shows "rt_current_plan rt2 = rt_current_plan rt1 \<or>
    (\<exists>plan. rt_current_plan rt2 = Some plan \<and> pp_model_id plan = ''auto-generated'')"
proof -
  let ?path = "path_append (rc_model_root (rt_config rt)) ''manifest.json''"
  obtain snap ls where c: "snapshot s = Ok snap" "el_current e = Ok ls"
    using assms(1-3) by (auto simp: schedule_plan_def split: sum.splits)
  have rt1: "rt_membership rt1 = Some s" "rt_election rt1 = Some e" "rt_config rt1 = rt_config rt" "rt_manifest_repo rt1 = repo"
    using assms(1-4) c by (auto simp: schedule_plan_def manifest_input_def Let_def)
  obtain err where again: "publish ?path f repo = (Some (Inl err), repo)" using publish_again [OF assms(4)] by blast
  let ?input = "auto_input (default_scheduling_input\<lparr>in_membership := snap, in_fence := ls_fence ls\<rparr>)"
  have "rt2 = adopt_plan env (memory_create_plan (re_sort_slots env) (re_sort_stages env) rng' now' ?input)
      (rt1\<lparr>rt_manifest_repo := repo\<rparr>)"
    using assms(5) rt1 c again by (simp add: schedule_plan_def manifest_input_def Let_def default_scheduling_input_def)
  moreover have "in_model_id ?input = ''auto-generated''" by (simp add: auto_input_def)
  ultimately show ?thesis
    using adopt_plan_model [of env "re_sort_slots env" "re_sort_stages env" rng' now' ?input "rt1\<lparr>rt_manifest_repo := repo\<rparr>"] by simp
qed

definition demo_manifest :: manifest_file where
  "demo_manifest = Parsed (json_of_manifest (example_manifest\<lparr>sm_shard_options :=
     [default_shard_option\<lparr>so_shard_id := ''s0'', so_layers := Some \<lparr>lr_start = 0, lr_end_exclusive = 2\<rparr>\<rparr>]\<rparr>))"

definition demo_planned :: "nat \<Rightarrow> memory_db runtime" where
  "demo_planned n = ((\<lambda>rt. outcome_runtime (schedule_plan demo_env (Some demo_manifest) 1 1 rt)) ^^ n) demo_started"

definition returns :: "('db, 'a) runtime_outcome \<Rightarrow> bool" where
  "returns m = (case m of (Returned _, _, _) \<Rightarrow> True | _ \<Rightarrow> False)"

lemma returnsD: "returns m \<Longrightarrow> \<exists>evs. m = (Returned (), outcome_runtime m, evs)"
  by (auto simp: returns_def outcome_runtime_def split: prod.splits completion.splits)

theorem second_planning_drops_manifest_witness:
  "map_option pp_model_id (rt_current_plan (demo_planned 1)) = Some ''tiny'' \<and>
   map_option pp_model_id (rt_current_plan (demo_planned 2)) = Some ''auto-generated''"
proof -
  have r: "returns (schedule_plan demo_env (Some demo_manifest) 1 1 demo_started)"
    "returns (schedule_plan demo_env (Some demo_manifest) 1 1 (demo_planned 1))" by code_simp+
  have eq: "outcome_runtime (schedule_plan demo_env (Some demo_manifest) 1 1 demo_started) = demo_planned 1"
    "outcome_runtime (schedule_plan demo_env (Some demo_manifest) 1 1 (demo_planned 1)) = demo_planned 2"
    by (simp_all add: demo_planned_def numeral_2_eq_2)
  have "rt_membership demo_started \<noteq> None" "rt_election demo_started \<noteq> None"
    "case publish (path_append (rc_model_root (rt_config demo_started)) ''manifest.json'') demo_manifest (rt_manifest_repo demo_started)
       of (Some r, _) \<Rightarrow> is_ok r | _ \<Rightarrow> False" by code_simp+
  then obtain s e summary repo where o: "rt_membership demo_started = Some s" "rt_election demo_started = Some e"
    "publish (path_append (rc_model_root (rt_config demo_started)) ''manifest.json'') demo_manifest (rt_manifest_repo demo_started) =
       (Some (Ok summary), repo)"
    by (auto simp: is_ok_iff split: prod.splits option.splits)
  obtain evs evs2 where "schedule_plan demo_env (Some demo_manifest) 1 1 demo_started = (Returned (), demo_planned 1, evs)"
    "schedule_plan demo_env (Some demo_manifest) 1 1 (demo_planned 1) = (Returned (), demo_planned 2, evs2)"
    using returnsD [OF r(1)] returnsD [OF r(2)] eq by auto
  from second_planning_drops_manifest [OF this(1) o this(2)]
  have "rt_current_plan (demo_planned 2) = rt_current_plan (demo_planned 1) \<or>
    (\<exists>plan. rt_current_plan (demo_planned 2) = Some plan \<and> pp_model_id plan = ''auto-generated'')" .
  moreover have "map_option pp_model_id (rt_current_plan (demo_planned 1)) = Some ''tiny''"
    "rt_current_plan (demo_planned 2) \<noteq> None" "map_option pp_model_id (rt_current_plan (demo_planned 2)) \<noteq> Some ''tiny''" by code_simp+
  ultimately show ?thesis by auto
qed

end
