(* ===== verification/Planning.thy ===== *)
theory Planning
  imports Runtime
begin

text \<open>
  Theorems about the runtime that need the scheduler: the plan generated without a manifest, and the
  way of a single node from the start to an active plan.
\<close>

section \<open>The generated plan\<close>

definition eligible :: "member list \<Rightarrow> member list" where
  "eligible ms = filter (\<lambda>m. mb_state m = kAlive \<and> mb_capability m \<noteq> None) ms"

lemma length_auto_shards: "length (auto_shards ms) = length (eligible ms)"
  by (induction ms rule: auto_shards.induct) (auto simp: eligible_def split: option.splits)

lemma assign_layers_snd: "snd (assign_layers lp off opts) = off + lp * of_nat (length opts)"
  by (induction lp off opts rule: assign_layers.induct) (auto simp: algebra_simps split: prod.splits)

lemma assign_layers_length [simp]: "length (fst (assign_layers lp off opts)) = length opts"
  by (induction lp off opts rule: assign_layers.induct) (auto split: prod.splits)

lemma assign_layers_nth:
  "i < length opts \<Longrightarrow> fst (assign_layers lp off opts) ! i =
     (opts ! i)\<lparr>so_layers := Some \<lparr>lr_start = off + lp * of_nat i, lr_end_exclusive = off + lp * of_nat (Suc i)\<rparr>\<rparr>"
  by (induction lp off opts arbitrary: i rule: assign_layers.induct)
     (auto simp: nth_Cons' algebra_simps of_nat_diff split: prod.splits)

text \<open>The ranges of the generated plan.\<close>

definition auto_range :: "nat \<Rightarrow> nat \<Rightarrow> layer_range" where
  "auto_range n i = \<lparr>lr_start = of_nat (32 div n * i), lr_end_exclusive = (if Suc i = n then 32 else of_nat (32 div n * Suc i))\<rparr>"

text \<open>The arithmetic of the 32 layers, for each of the 32 possible numbers of nodes.\<close>

lemma layer_arithmetic:
  "list_all (\<lambda>n. (32 :: u32) div max (of_nat n) 1 = of_nat (32 div n) \<and> (of_nat (32 div n) :: u32) * of_nat n \<le> 32 \<and>
     (of_nat (32 div n * n) :: u32) = of_nat (32 div n) * of_nat n) [1 ..< 33]"
  by code_simp

lemma layers_per:
  assumes "0 < n" "n \<le> 32"
  shows "(32 :: u32) div max (of_nat n) 1 = of_nat (32 div n)" "(of_nat (32 div n) :: u32) * of_nat n \<le> 32"
  using layer_arithmetic assms by (simp_all add: list_all_iff)

lemma auto_ranges_tile:
  assumes "0 < n" "n \<le> 32"
  shows "ranges_tile 32 0 (map (auto_range n) [0 ..< n])"
proof -
  have "list_all (\<lambda>n. ranges_tile 32 0 (map (auto_range n) [0 ..< n])) [1 ..< 33]" by code_simp
  then show ?thesis using assms by (simp add: list_all_iff)
qed

lemma assign_layers_obtain:
  obtains opts' where "assign_layers lp 0 opts = (opts', lp * of_nat (length opts))" "length opts' = length opts"
    "\<And>i. i < length opts \<Longrightarrow>
      so_layers (opts' ! i) = Some \<lparr>lr_start = lp * of_nat i, lr_end_exclusive = lp * of_nat (Suc i)\<rparr>"
proof (cases "assign_layers lp 0 opts")
  case (Pair opts' off)
  have f: "fst (assign_layers lp 0 opts) = opts'" "off = lp * of_nat (length opts)"
    using Pair assign_layers_snd [of lp 0 opts] by simp_all
  show ?thesis
  proof (rule that [of opts'])
    show "assign_layers lp 0 opts = (opts', lp * of_nat (length opts))" using Pair f(2) by simp
    show "length opts' = length opts" using f(1) assign_layers_length by blast
    show "so_layers (opts' ! i) = Some \<lparr>lr_start = lp * of_nat i, lr_end_exclusive = lp * of_nat (Suc i)\<rparr>"
      if "i < length opts" for i
      using assign_layers_nth [OF that, of lp 0] f(1) by simp
  qed
qed

lemma auto_options_layers:
  assumes "0 < n" "n \<le> 32" "length (auto_shards ms) = n"
  shows "map so_layers (auto_options ms) = map (\<lambda>i. Some (auto_range n i)) [0 ..< n]"
proof -
  let ?lp = "of_nat (32 div n) :: u32"
  obtain opts where al: "assign_layers ?lp 0 (auto_shards ms) = (opts, ?lp * of_nat n)" and len: "length opts = n"
    and layers: "\<And>i. i < n \<Longrightarrow> so_layers (opts ! i) = Some \<lparr>lr_start = ?lp * of_nat i, lr_end_exclusive = ?lp * of_nat (Suc i)\<rparr>"
    using assign_layers_obtain [of ?lp "auto_shards ms"] unfolding assms(3) by blast
  have last: "last opts = opts ! (n - 1)" "opts \<noteq> []" using len assms(1) by (auto simp: last_conv_nth)
  have opts: "auto_options ms = (if ?lp * of_nat n < 32
      then opts[n - 1 := (opts ! (n - 1))\<lparr>so_layers := Some \<lparr>lr_start = ?lp * of_nat (n - 1), lr_end_exclusive = 32\<rparr>\<rparr>] else opts)"
    using layers [of "n - 1"] len assms(1) last unfolding auto_options_def assms(3) layers_per(1) [OF assms(1,2)] Let_def al
    by simp
  have full: "\<not> ?lp * of_nat n < 32 \<Longrightarrow> ?lp * of_nat n = 32" using layers_per(2) [OF assms(1,2)] by simp
  show ?thesis
  proof (rule nth_equalityI)
    show l: "length (map so_layers (auto_options ms)) = length (map (\<lambda>i. Some (auto_range n i)) [0 ..< n])"
      using len by (simp add: opts)
    fix i assume "i < length (map so_layers (auto_options ms))"
    then have i: "i < n" using l by simp
    have "so_layers (auto_options ms ! i) = Some (auto_range n i)"
      using layers [OF i] i len full by (cases "Suc i = n") (auto simp: opts nth_list_update auto_range_def distrib_left)
    then show "map so_layers (auto_options ms) ! i = map (\<lambda>i. Some (auto_range n i)) [0 ..< n] ! i" using i l by simp
  qed
qed

text \<open>More than 32 nodes: no layers are left for all but the last.\<close>

lemma crowded_ranges:
  assumes "length (auto_shards ms) = n" "33 \<le> n" "n < 2 ^ 32"
  shows "so_layers (auto_options ms ! 0) = Some \<lparr>lr_start = 0, lr_end_exclusive = 0\<rparr>"
    "so_layers (auto_options ms ! 1) = Some \<lparr>lr_start = 0, lr_end_exclusive = 0\<rparr>" "length (auto_options ms) = n"
proof -
  have "unat (max (of_nat n) 1 :: u32) = n" using assms(2,3) by (simp add: max_def word_le_nat_alt unat_of_nat)
  then have lp: "(32 :: u32) div max (of_nat n) 1 = 0"
    using assms(2) by (simp add: word_unat_eq_iff unat_div)
  obtain opts where al: "assign_layers 0 0 (auto_shards ms) = (opts, 0)" and len: "length opts = n"
    and layers: "\<And>i. i < n \<Longrightarrow> so_layers (opts ! i) = Some \<lparr>lr_start = 0, lr_end_exclusive = 0\<rparr>"
    using assign_layers_obtain [of 0 "auto_shards ms"] assms(1) by auto
  obtain opt where opts: "auto_options ms = opts[n - 1 := opt]"
  proof -
    have "opts \<noteq> []" using len assms(2) by auto
    then show ?thesis using that len unfolding auto_options_def assms(1) lp Let_def al by simp
  qed
  show "length (auto_options ms) = n" using opts len by simp
  show "so_layers (auto_options ms ! 0) = Some \<lparr>lr_start = 0, lr_end_exclusive = 0\<rparr>"
    "so_layers (auto_options ms ! 1) = Some \<lparr>lr_start = 0, lr_end_exclusive = 0\<rparr>"
    using assms(2) len layers by (simp_all add: opts nth_list_update)
qed

lemma place_shards_distinct:
  assumes "place_shards sort_slots input resort shards st = Ok st'"
  shows "distinct (shard_ranges shards) \<and> range_key ` set (shard_ranges shards) \<inter> pl_ranges st = {}"
  using assms
proof (induction sort_slots input resort shards st rule: place_shards.induct)
  case (2 sort_slots input resort shard shards st)
  then obtain st1 where p: "place_shard sort_slots input resort shard st = Ok st1" "place_shards sort_slots input resort shards st1 = Ok st'"
    by (auto split: sum.splits)
  have "\<not> (case so_layers shard of None \<Rightarrow> False | Some r \<Rightarrow> range_key r \<in> pl_ranges st)"
    using p(1) by (auto simp: place_shard_def Let_def split: if_splits)
  then show ?case using 2(1) [OF p] place_shard_ranges [OF p(1)] by (auto simp: shard_ranges_Cons split: option.splits)
qed (simp add: shard_ranges_def map_filter_simps)

lemma planned_ranges_distinct:
  assumes "memory_create_plan sort_slots sort_stages rng now input = Ok plan"
  shows "distinct (shard_ranges (in_shard_options input))"
proof -
  obtain st where "place_shards sort_slots input True (stable_sort sensitivity_descending (in_shard_options input))
      (initial_placement (build_node_slots input)) = Ok st"
    using assms by (auto simp: memory_create_plan_def schedule_core_def Let_def split: if_splits sum.splits)
  from place_shards_distinct [OF this] show ?thesis
    using mset_eq_imp_distinct_iff [OF mset_shard_ranges [OF mset_stable_sort]] by blast
qed

lemma shard_ranges_map: "map so_layers opts = map Some rs \<Longrightarrow> shard_ranges opts = rs"
  by (induction opts arbitrary: rs) (auto simp: shard_ranges_def map_filter_simps)

section \<open>A cluster of one node\<close>

lemma make_node_id_nonempty [simp]: "make_node_id rand \<noteq> []"
  by (simp add: make_node_id_def split: sum.split)

lemma ephemeral_identity:
  "\<exists>li ip. local_identity ssl rand make_ephemeral_identity_provider = (Ok li, ip) \<and> li_node_id li = make_node_id rand \<and>
     ip_local ip = Some li \<and> ip_policy ip = kEphemeralCluster"
  by (simp add: local_identity_def make_ephemeral_identity_provider_def new_provider_def Let_def)

text \<open>A membership call before the election exists only changes the member table.\<close>

lemma with_membership_early:
  assumes "rt_membership rt = Some s" "rt_election rt = None" "op s = (Ok (), s', snaps)"
  shows "\<exists>evs. with_membership env op rt = (Returned (), rt\<lparr>rt_membership := Some s'\<rparr>, evs)"
proof -
  have "\<exists>evs. deliver env snaps rt' = (Returned (), rt', evs)" if "rt_election rt' = None" for rt' :: "'a runtime"
  proof (induction snaps)
    case (Cons snap snaps)
    moreover have "\<exists>evs. on_membership env snap rt' = (Returned (), rt', evs)"
      using that by (cases rt') (simp add: on_membership_def Let_def)
    ultimately show ?case by (auto simp: and_then_def)
  qed simp
  from this [of "rt\<lparr>rt_membership := Some s'\<rparr>"] assms show ?thesis
    by (auto simp: with_membership_def and_then_def)
qed

definition lone_member :: "member \<Rightarrow> node_id \<Rightarrow> capability_profile \<Rightarrow> bool" where
  "lone_member m nid cap \<longleftrightarrow> member_id m = nid \<and> mb_state m = kAlive \<and> mb_capability m = Some cap"

text \<open>The three calls of \<open>register_self\<close> on a fresh member table.\<close>

lemma self_registration:
  assumes "ms_running s" "ms_identity_provider s" "ms_members s = []" "ms_snapshot_revision s = 0"
    "pa_node_id (de_peer ev) = nid" "nid \<noteq> []" "is_ok (auth (de_peer ev) (pa_public_key_fingerprint (de_peer ev)))" "cp_node_id cap = nid"
  obtains s1 s2 s3 ev1 ev2 ev3 m where "observe auth now ev s = (Ok (), s1, ev1)"
    "promote_joining_members now s1 = (Ok (), s2, ev2)" "update_capability cap s2 = (Ok (), s3, ev3)"
    "s3 = s\<lparr>ms_members := [m], ms_snapshot_revision := 3\<rparr>" "lone_member m nid cap" "mb_role m = kLeech"
proof -
  let ?j = "joining_member (de_peer ev) now"
  let ?p = "?j\<lparr>mb_state := kAlive, mb_last_seen := now\<rparr>"
  let ?s1 = "s\<lparr>ms_members := [?j], ms_snapshot_revision := 1\<rparr>"
  let ?s2 = "s\<lparr>ms_members := [?p], ms_snapshot_revision := 2\<rparr>"
  let ?s3 = "s\<lparr>ms_members := [?p\<lparr>mb_capability := Some cap\<rparr>], ms_snapshot_revision := 3\<rparr>"
  have "observe auth now ev s = (Ok (), ?s1, emit_snapshot ?s1)"
    using assms by (auto simp: observe_def bump_and_emit_def Let_def is_ok_iff)
  moreover have "promote_joining_members now ?s1 = (Ok (), ?s2, emit_snapshot ?s2)"
    by (simp add: promote_joining_members_def promote_member_def bump_and_emit_def Let_def joining_member_def)
  moreover have "update_capability cap ?s2 = (Ok (), ?s3, emit_snapshot ?s3)"
    using assms(5,8) by (simp add: update_capability_def bump_and_emit_def Let_def joining_member_def member_id_def)
  ultimately show ?thesis
    by (rule that [OF _ _ _ refl]) (use assms(5) in \<open>simp_all add: lone_member_def member_id_def joining_member_def\<close>)
qed

lemma register_lone:
  assumes "rt_election rt = None" "rt_membership rt = Some s" "ms_running s" "ms_identity_provider s" "ms_members s = []"
    "ms_snapshot_revision s = 0" "li_node_id (rt_local_identity rt) = nid" "nid \<noteq> []"
    "rt_identity_provider rt = Some ip" "ip_local ip \<noteq> None" "ip_policy ip = kEphemeralCluster"
    "si_profile inp = Ok profile" "cp_node_id profile \<in> {[], nid}"
  obtains m where "outcome_runtime (register_self env inp rt) =
      rt\<lparr>rt_local_profile := profile\<lparr>cp_node_id := nid\<rparr>, rt_membership := Some (s\<lparr>ms_members := [m], ms_snapshot_revision := 3\<rparr>)\<rparr>"
    "lone_member m nid (profile\<lparr>cp_node_id := nid\<rparr>)" "mb_role m = kLeech"
proof -
  let ?cap = "profile\<lparr>cp_node_id := nid\<rparr>" and ?ev = "\<lparr>de_kind = kFound, de_peer = self_peer rt\<rparr>"
  let ?rt1 = "rt\<lparr>rt_local_profile := ?cap\<rparr>"
  let ?auth = "rt_authenticate env ?rt1" and ?now = "si_now inp"
  have cap: "(if cp_node_id profile = [] then profile\<lparr>cp_node_id := nid\<rparr> else profile) = ?cap"
    using assms(13) by (cases profile) auto
  have "is_ok (?auth (de_peer ?ev) (pa_public_key_fingerprint (de_peer ?ev)))"
    using assms(9-11) by (auto simp: rt_authenticate_def authenticate_def Let_def)
  then obtain s1 s2 s3 e1 e2 e3 m where st: "observe ?auth ?now ?ev s = (Ok (), s1, e1)"
    "promote_joining_members ?now s1 = (Ok (), s2, e2)" "update_capability ?cap s2 = (Ok (), s3, e3)"
    "s3 = s\<lparr>ms_members := [m], ms_snapshot_revision := 3\<rparr>" "lone_member m nid ?cap" "mb_role m = kLeech"
    by (rule self_registration [OF assms(3-6), of ?ev nid ?auth ?cap ?now, rotated 2])
       (use assms(7,8) in \<open>simp_all add: self_peer_def\<close>)
  obtain f1 where f1: "with_membership env (observe ?auth ?now ?ev) ?rt1 = (Returned (), ?rt1\<lparr>rt_membership := Some s1\<rparr>, f1)"
    using with_membership_early [of ?rt1 s "observe ?auth ?now ?ev", OF _ _ st(1), of env] assms(1,2) by auto
  obtain f2 where f2: "with_membership env (promote_joining_members ?now) (?rt1\<lparr>rt_membership := Some s1\<rparr>) =
      (Returned (), ?rt1\<lparr>rt_membership := Some s2\<rparr>, f2)"
    using with_membership_early [of "?rt1\<lparr>rt_membership := Some s1\<rparr>" s1 "promote_joining_members ?now", OF _ _ st(2), of env] assms(1) by auto
  obtain f3 where f3: "with_membership env (update_capability ?cap) (?rt1\<lparr>rt_membership := Some s2\<rparr>) =
      (Returned (), ?rt1\<lparr>rt_membership := Some s3\<rparr>, f3)"
    using with_membership_early [of "?rt1\<lparr>rt_membership := Some s2\<rparr>" s2 "update_capability ?cap", OF _ _ st(3), of env] assms(1) by auto
  have "outcome_runtime (register_self env inp rt) = ?rt1\<lparr>rt_membership := Some s3\<rparr>"
    unfolding register_self_def Let_def assms(7,12) sum.case cap f1 f2 f3 by (simp add: attempt_def and_then_def f1 f2 f3 outcome_runtime_def)
  with st(4-6) show ?thesis by (intro that) simp_all
qed

lemma start_lone:
  assumes "rt_start env config callback inp rt = (Returned (Ok True), rt1, evs)" "rt_election rt = None"
    "si_profile inp = Ok profile" "cp_node_id profile \<in> {[], make_node_id (si_rand inp)}"
  obtains s m e where "rt_membership rt1 = Some s" "ms_members s = [m]" "mb_role m = kLeech" "ms_running s" "ms_callback s"
    "lone_member m (make_node_id (si_rand inp)) (profile\<lparr>cp_node_id := make_node_id (si_rand inp)\<rparr>)"
    "ms_local_node_id s = make_node_id (si_rand inp)" "ms_snapshot_revision s = 3"
    "li_node_id (rt_local_identity rt1) = make_node_id (si_rand inp)"
    "rt_election rt1 = Some e" "el_running e" "el_last_snapshot_revision e = 0" "ls_leader_id (el_state e) = None"
    "rt_config rt1 = config" "rt_transport rt1 = si_transport inp" "rt_backend_registry rt1" "rt_callback rt1 = callback"
proof -
  let ?nid = "make_node_id (si_rand inp)"
  obtain li ip where id: "local_identity (re_ssl env) (si_rand inp) make_ephemeral_identity_provider = (Ok li, ip)"
    "li_node_id li = ?nid" "ip_local ip = Some li" "ip_policy ip = kEphemeralCluster"
    using ephemeral_identity by blast
  have again: "local_identity (re_ssl env) (si_rand inp) ip = (Ok li, ip)" using id(3) by (simp add: local_identity_def)
  from assms(1) show ?thesis
  proof (rule rt_start_Ok)
    fix rt0 evs1
    assume s: "start_membership env config callback inp rt = Ok rt0"
      "rt1 = start_services env inp (outcome_runtime (register_self env inp rt0))"
    let ?s0 = "outcome_state (ms_start (Ok li) True new_membership)"
    have rt0: "rt_membership rt0 = Some ?s0" "rt_election rt0 = None" "rt_local_identity rt0 = li" "rt_identity_provider rt0 = Some ip"
      "rt_config rt0 = config" "rt_callback rt0 = callback"
      using s(1) id(1) again assms(2) by (auto simp: start_membership_def Let_def)
    obtain m where m: "outcome_runtime (register_self env inp rt0) = rt0\<lparr>rt_local_profile := profile\<lparr>cp_node_id := ?nid\<rparr>,
        rt_membership := Some (?s0\<lparr>ms_members := [m], ms_snapshot_revision := 3\<rparr>)\<rparr>"
      "lone_member m ?nid (profile\<lparr>cp_node_id := ?nid\<rparr>)" "mb_role m = kLeech"
      by (rule register_lone [of rt0 ?s0 ?nid ip inp profile env])
         (use rt0 id assms(3,4) in \<open>simp_all add: ms_start_def new_membership_def\<close>)
    show ?thesis
      by (rule that [of "?s0\<lparr>ms_members := [m], ms_snapshot_revision := 3\<rparr>" m "the (rt_election rt1)"])
         (use m s(2) rt0 id in \<open>simp_all add: start_services_def Let_def el_start_def new_election_def ms_start_def new_membership_def\<close>)
  qed
qed

text \<open>With a running election every call of the membership service returns and elects.\<close>

lemma with_membership_ready:
  assumes "rt_membership rt = Some s" "rt_election rt = Some e" "el_running e" "op s = (Ok (), s', snaps)"
  shows "\<exists>evs. with_membership env op rt =
     (Returned (), rt\<lparr>rt_membership := Some s', rt_election := Some (fold (elect env) snaps e)\<rparr>, evs)"
proof -
  have "\<exists>evs. deliver env snaps rt' = (Returned (), rt'\<lparr>rt_election := Some (fold (elect env) snaps e)\<rparr>, evs)"
    if "rt_election rt' = Some e" "el_running e" for rt' :: "'a runtime" and e
    using that
  proof (induction snaps arbitrary: rt' e)
    case Nil
    then show ?case by (cases rt') simp
  next
    case (Cons snap snaps)
    have "\<exists>evs. on_membership env snap rt' = (Returned (), rt'\<lparr>rt_election := Some (elect env snap e)\<rparr>, evs)"
      using Cons.prems by (simp add: on_membership_def Let_def elect_def el_current_def)
    moreover have "el_running (elect env snap e)" using Cons.prems by (simp add: elect_def)
    ultimately show ?case using Cons.IH [of "rt'\<lparr>rt_election := Some (elect env snap e)\<rparr>" "elect env snap e"]
      by (auto simp: and_then_def)
  qed
  from this [of "rt\<lparr>rt_membership := Some s'\<rparr>" e] assms show ?thesis by (auto simp: with_membership_def and_then_def)
qed

lemma elect_lone:
  assumes "snap_members snap = [m]" "lone_member m nid cap" "el_running e" "el_last_snapshot_revision e \<le> snap_revision snap"
  shows "el_running (elect env snap e)" "ls_leader_id (el_state (elect env snap e)) = Some nid"
    "el_last_snapshot_revision (elect env snap e) = snap_revision snap"
  using assms by (auto simp: elect_def update_membership_def Let_def alive_ids_def lone_member_def member_id_def max_element_def)

definition runs_llama_on_cpu :: "capability_profile \<Rightarrow> bool" where
  "runs_llama_on_cpu cap \<longleftrightarrow> (\<exists>be \<in> set (cp_backends cap). bc_kind be = kLlamaCpp \<and> kCpu \<in> set (bc_compute_units be))"

lemma lone_plan:
  fixes fence :: leadership_fence
  assumes "std_sorts sort_slots sort_stages" "snap_members snap = [m]" "lone_member m nid cap" "runs_llama_on_cpu cap"
  defines "input \<equiv> auto_input (default_scheduling_input\<lparr>in_membership := snap, in_fence := fence\<rparr>)"
  obtains plan st where "memory_create_plan sort_slots sort_stages rng now input = Ok plan" "pp_stages plan = [st]"
    "sa_node_id st = nid" "sa_layers st = Some \<lparr>lr_start = 0, lr_end_exclusive = 32\<rparr>" "pp_fence plan = fence"
    "pp_model_id plan = ''auto-generated''"
proof -
  let ?opt = "(auto_shard m cap)\<lparr>so_layers := Some \<lparr>lr_start = 0, lr_end_exclusive = 32\<rparr>\<rparr>"
  have opts: "in_shard_options input = [?opt]"
    using assms(2,3) by (simp add: input_def auto_input_def auto_options_def lone_member_def default_scheduling_input_def)
  have slots: "build_node_slots input = [\<lparr>ns_node_id = nid, ns_capability = cap, ns_remaining_memory_bytes = cp_available_memory_bytes cap\<rparr>]"
    using assms(2,3) by (simp add: input_def auto_input_def build_node_slots_def lone_member_def member_id_def default_scheduling_input_def)
  have fits: "backend_fits ?opt cap kLlamaCpp"
    using assms(4) by (auto simp: backend_fits_def auto_shard_def runs_llama_on_cpu_def)
  have "unat (required_bytes input ?opt) \<le> unat (cp_available_memory_bytes cap)"
    by (simp add: required_bytes_def auto_shard_def input_def auto_input_def default_scheduling_input_def unat_div)
  then have "hosts_all input (in_shard_options input) (build_node_slots input)"
    unfolding hosts_all_def opts slots using fits by auto
  moreover have "ranges_tile (in_total_layers input) 0 (sort_key lr_start (shard_ranges (in_shard_options input)))"
  proof -
    have "in_total_layers input = 32" by (simp add: input_def auto_input_def)
    then show ?thesis by (simp add: opts shard_ranges_def map_filter_simps layer_range_valid_def)
  qed
  ultimately obtain plan where plan: "memory_create_plan sort_slots sort_stages rng now input = Ok plan"
    using schedule_core_feasible [OF assms(1), of "build_node_slots input" input rng now True] opts slots
    by (auto simp: memory_create_plan_def)
  have "plan_places input plan" using schedule_core_places(1) [OF _ assms(1)] plan by (simp add: memory_create_plan_def)
  then obtain shards stages where p: "mset shards = mset [?opt]" "mset stages = mset (pp_stages plan)"
    "list_all2 (stage_placed input (build_node_slots input)) shards stages" "pp_fence plan = in_fence input" "pp_model_id plan = in_model_id input"
    unfolding plan_places_def opts by blast
  then obtain st where st: "stages = [st]" "stage_placed input (build_node_slots input) ?opt st"
    by (auto simp: list_all2_Cons1)
  have "pp_stages plan = [st]" using p(2) st(1) by simp
  moreover have "sa_node_id st = nid" "sa_layers st = Some \<lparr>lr_start = 0, lr_end_exclusive = 32\<rparr>"
    using st(2) by (auto simp: stage_placed_def slots stage_of_shard_def)
  ultimately show ?thesis using plan p(4,5) by (intro that) (simp_all add: input_def auto_input_def)
qed

lemma lone_join_calls:
  assumes "ms_members s = [m]" "mb_role m = kLeech" "ms_callback s" "lone_member m nid cap" "ms_local_node_id s = nid"
    "ms_snapshot_revision s = 3"
  obtains s1 s2 m2 where "update_model_presence demo_models s = (Ok (), s1, [build_snapshot s1])"
    "update_local_role kParticipant s1 = (Ok (), s2, [build_snapshot s2])" "snap_members (build_snapshot s1) = [m\<lparr>mb_models := demo_models\<rparr>]"
    "snap_revision (build_snapshot s1) = 4" "snap_members (build_snapshot s2) = [m2]" "lone_member m2 nid cap"
    "snap_revision (build_snapshot s2) = 5" "ms_running s2 = ms_running s" "ms_members s2 = [m2]"
proof -
  let ?s1 = "s\<lparr>ms_members := [m\<lparr>mb_models := demo_models\<rparr>], ms_snapshot_revision := 4\<rparr>"
  let ?m2 = "m\<lparr>mb_models := demo_models, mb_role := kParticipant\<rparr>"
  let ?s2 = "s\<lparr>ms_members := [?m2], ms_snapshot_revision := 5\<rparr>"
  have "update_model_presence demo_models s = (Ok (), ?s1, [build_snapshot ?s1])"
    using assms by (simp add: update_model_presence_def bump_and_emit_def emit_snapshot_def Let_def)
  moreover have "update_local_role kParticipant ?s1 = (Ok (), ?s2, [build_snapshot ?s2])"
    using assms by (simp add: update_local_role_def bump_and_emit_def emit_snapshot_def Let_def lone_member_def member_id_def)
  ultimately show ?thesis
    by (rule that) (use assms(4) in \<open>simp_all add: build_snapshot_def lone_member_def member_id_def\<close>)
qed

text \<open>Planning without a manifest on the only member.\<close>

lemma lone_schedule:
  assumes "std_sorts (re_sort_slots env) (re_sort_stages env)" "rt_membership rt = Some s" "ms_running s"
    "snap_members (build_snapshot s) = [m]" "lone_member m nid cap" "runs_llama_on_cpu cap" "rt_election rt = Some e" "el_running e"
  obtains plan st where "schedule_plan env None rng now rt = (Returned (), rt\<lparr>rt_current_plan := Some plan\<rparr>, [])"
    "pp_stages plan = [st]" "sa_node_id st = nid" "sa_layers st = Some \<lparr>lr_start = 0, lr_end_exclusive = 32\<rparr>"
    "pp_fence plan = ls_fence (el_state e)"
proof -
  let ?input = "auto_input (default_scheduling_input\<lparr>in_membership := build_snapshot s, in_fence := ls_fence (el_state e)\<rparr>)"
  obtain plan st where plan: "memory_create_plan (re_sort_slots env) (re_sort_stages env) rng now ?input = Ok plan" "pp_stages plan = [st]"
    "sa_node_id st = nid" "sa_layers st = Some \<lparr>lr_start = 0, lr_end_exclusive = 32\<rparr>" "pp_fence plan = ls_fence (el_state e)"
    "pp_model_id plan = ''auto-generated''"
    by (rule lone_plan [OF assms(1,4-6)]) blast
  have "schedule_plan env None rng now rt = (Returned (), adopt_plan env (Ok plan) rt, [])"
    using assms(2,3,7,8) plan(1)
    by (cases rt) (simp add: schedule_plan_def snapshot_def el_current_def manifest_input_def Let_def default_scheduling_input_def)
  then show ?thesis using plan by (intro that) (simp_all add: adopt_plan_def Let_def)
qed

lemma lone_finish_join:
  assumes "std_sorts (re_sort_slots env) (re_sort_stages env)" "rt_membership rt = Some s" "ms_running s"
    "snap_members (build_snapshot s) = [m]" "lone_member m nid cap" "runs_llama_on_cpu cap" "rt_election rt = Some e" "el_running e"
    "ls_leader_id (el_state e) = Some nid" "li_node_id (rt_local_identity rt) = nid"
  obtains rt' evs plan st where "finish_join env None rng now rt = (Returned (Ok True), rt', evs)" "is_local_leader rt' = Ok True"
    "rt_current_plan rt' = Some plan" "rt_election rt' = Some e"
    "pp_stages plan = [st]" "sa_node_id st = nid" "sa_layers st = Some \<lparr>lr_start = 0, lr_end_exclusive = 32\<rparr>"
    "pp_fence plan = ls_fence (el_state e)"
proof -
  let ?rt1 = "rt\<lparr>rt_local_models := demo_models, rt_local_role := kParticipant\<rparr>"
  obtain plan st where p: "schedule_plan env None rng now ?rt1 = (Returned (), ?rt1\<lparr>rt_current_plan := Some plan\<rparr>, [])"
    "pp_stages plan = [st]" "sa_node_id st = nid" "sa_layers st = Some \<lparr>lr_start = 0, lr_end_exclusive = 32\<rparr>"
    "pp_fence plan = ls_fence (el_state e)"
    by (rule lone_schedule [OF assms(1), of ?rt1 s m nid cap e]) (use assms in simp_all)
  have "\<exists>evs. finish_join env None rng now rt = (Returned (Ok True), ?rt1\<lparr>rt_current_plan := Some plan\<rparr>, evs)"
    using assms(2,3,7-10) p(1)
    by (simp add: finish_join_def Let_def is_local_leader_def el_current_def and_then_def rt_emit_snapshot_def collect_snapshot_def snapshot_def)
  then obtain evs where "finish_join env None rng now rt = (Returned (Ok True), ?rt1\<lparr>rt_current_plan := Some plan\<rparr>, evs)"
    by (elim exE)
  then show ?thesis
    by (rule that [where plan = plan and st = st]) (use p(2-5) assms(7-10) in \<open>simp_all add: is_local_leader_def el_current_def\<close>)
qed

section \<open>Properties\<close>

text \<open>
  The generated plan splits the model. With up to 32 live members that have a profile, there is one
  shard for each of them and the shards tile the 32 layers in member order, the last one taking
  the remainder; with more members no plan is ever produced, because most of the shards then have the
  same empty range.
\<close>

theorem generated_plan_layers:
  assumes "0 < length (eligible (snap_members (in_membership input)))" "length (eligible (snap_members (in_membership input))) < 2 ^ 32"
  shows "(length (eligible (snap_members (in_membership input))) \<le> 32 \<longrightarrow>
      length (in_shard_options (auto_input input)) = length (eligible (snap_members (in_membership input))) \<and>
      ranges_tile 32 0 (shard_ranges (in_shard_options (auto_input input)))) \<and>
    (32 < length (eligible (snap_members (in_membership input))) \<longrightarrow>
      (\<nexists>plan. memory_create_plan sort_slots sort_stages rng now (auto_input input) = Ok plan))"
proof -
  let ?ms = "snap_members (in_membership input)" and ?n = "length (eligible (snap_members (in_membership input)))"
  note n = length_auto_shards [of ?ms]
  have opts: "in_shard_options (auto_input input) = auto_options ?ms" by (simp add: auto_input_def)
  have "length (auto_options ?ms) = ?n \<and> ranges_tile 32 0 (shard_ranges (auto_options ?ms))" if "?n \<le> 32"
  proof -
    note layers = auto_options_layers [OF assms(1) that n]
    have "shard_ranges (auto_options ?ms) = map (auto_range ?n) [0 ..< ?n]"
      by (rule shard_ranges_map) (simp add: layers)
    moreover have "length (auto_options ?ms) = ?n" using arg_cong [OF layers, of length] by simp
    ultimately show ?thesis using auto_ranges_tile [OF assms(1) that] by simp
  qed
  moreover have "\<nexists>plan. memory_create_plan sort_slots sort_stages rng now (auto_input input) = Ok plan" if crowd: "32 < ?n"
  proof -
    have "33 \<le> ?n" using crowd by simp
    note c = crowded_ranges [OF n this assms(2)]
    obtain a b rest where "auto_options ?ms = a # b # rest" using c(3) crowd by (cases "auto_options ?ms"; cases "tl (auto_options ?ms)") auto
    then have "\<not> distinct (shard_ranges (auto_options ?ms))" using c(1,2) by (simp add: shard_ranges_Cons)
    then show ?thesis using planned_ranges_distinct [of sort_slots sort_stages rng now "auto_input input"] opts by auto
  qed
  ultimately show ?thesis using opts by simp
qed

theorem generated_plan_layers_witness:
  "ranges_tile 32 0 (shard_ranges (in_shard_options (auto_input (default_scheduling_input\<lparr>in_membership :=
     example_cluster 5\<rparr>))))"
proof -
  let ?input = "default_scheduling_input\<lparr>in_membership := example_cluster 5\<rparr>"
  have "length (eligible (snap_members (in_membership ?input))) = 5" by code_simp
  with generated_plan_layers [of ?input] show ?thesis by (cases "eligible (snap_members (example_cluster 5))") auto
qed

text \<open>
  C6. A single node brings up a cluster of its own. When a stopped runtime starts, its profile offers
  llama.cpp on the CPU and no production mode asks for a transport it lacks, then joining without a manifest
  succeeds: the node elects itself, the plan runs all 32 layers on it under its own fence, and \<open>generate\<close>
  is no longer refused for want of a plan.
\<close>

theorem single_node_bring_up:
  assumes "std_sorts (re_sort_slots env) (re_sort_stages env)"
    and "rt_reachable env rt" "rt_start env config callback inp rt = (Returned (Ok True), rt1, evs)"
    and "si_profile inp = Ok profile" "cp_node_id profile \<in> {[], make_node_id (si_rand inp)}" "runs_llama_on_cpu profile"
    and "rc_production_mode config \<longrightarrow> si_transport inp"
  shows "\<exists>rt2 evs2 plan st. join_cluster env None rng now False rt1 = (Returned (Ok True), rt2, evs2) \<and>
    is_local_leader rt2 = Ok True \<and> rt_current_plan rt2 = Some plan \<and> pp_stages plan = [st] \<and>
    sa_node_id st = make_node_id (si_rand inp) \<and> sa_layers st = Some \<lparr>lr_start = 0, lr_end_exclusive = 32\<rparr> \<and>
    (\<exists>e. rt_election rt2 = Some e \<and> pp_fence plan = ls_fence (el_state e))"
proof -
  let ?nid = "make_node_id (si_rand inp)" and ?cap = "profile\<lparr>cp_node_id := make_node_id (si_rand inp)\<rparr>"
  have stopped: "rt_state rt = kStopped" by (rule rt_start_Ok [OF assms(3)])
  then have "rt_election rt = None" using reachable_inv [OF assms(2)] by (simp add: rt_inv_def)
  from assms(3) this assms(4,5) obtain s m e where st: "rt_membership rt1 = Some s" "ms_members s = [m]" "mb_role m = kLeech"
    "ms_running s" "ms_callback s" "lone_member m ?nid ?cap" "ms_local_node_id s = ?nid" "ms_snapshot_revision s = 3"
    "li_node_id (rt_local_identity rt1) = ?nid" "rt_election rt1 = Some e" "el_running e" "el_last_snapshot_revision e = 0"
    "rt_config rt1 = config" "rt_transport rt1 = si_transport inp" "rt_backend_registry rt1" "rt_callback rt1 = callback"
    by (rule start_lone) blast
  obtain s1 s2 m2 where c: "update_model_presence demo_models s = (Ok (), s1, [build_snapshot s1])"
    "update_local_role kParticipant s1 = (Ok (), s2, [build_snapshot s2])" "snap_members (build_snapshot s1) = [m\<lparr>mb_models := demo_models\<rparr>]"
    "snap_revision (build_snapshot s1) = 4" "snap_members (build_snapshot s2) = [m2]" "lone_member m2 ?nid ?cap"
    "snap_revision (build_snapshot s2) = 5" "ms_running s2 = ms_running s"
    by (rule lone_join_calls [OF st(2,3,5-8)]) blast
  let ?e1 = "elect env (build_snapshot s1) e" let ?e2 = "elect env (build_snapshot s2) ?e1"
  have m1: "lone_member (m\<lparr>mb_models := demo_models\<rparr>) ?nid ?cap" using st(6) by (simp add: lone_member_def member_id_def)
  note e1 = elect_lone [OF c(3) m1 st(11), of env]
  note e2 = elect_lone [OF c(5,6), of ?e1 env]
  have l: "el_running ?e2" "ls_leader_id (el_state ?e2) = Some ?nid" using e1 e2 st(12) c(4,7) by simp_all
  obtain ev1 where j1: "with_membership env (update_model_presence demo_models) rt1 =
      (Returned (), rt1\<lparr>rt_membership := Some s1, rt_election := Some ?e1\<rparr>, ev1)"
    using with_membership_ready [of rt1 s e "update_model_presence demo_models", OF st(1,10,11) c(1), of env] by auto
  obtain ev2 where j2: "with_membership env (update_local_role kParticipant) (rt1\<lparr>rt_membership := Some s1, rt_election := Some ?e1\<rparr>) =
      (Returned (), rt1\<lparr>rt_membership := Some s2, rt_election := Some ?e2\<rparr>, ev2)"
    using with_membership_ready [of "rt1\<lparr>rt_membership := Some s1, rt_election := Some ?e1\<rparr>" s1 ?e1 "update_local_role kParticipant", OF _ _ _ c(2), of env]
      e1 st(12) c(4) by auto
  let ?rt2 = "rt1\<lparr>rt_membership := Some s2, rt_election := Some ?e2\<rparr>"
  obtain rt3 ev3 plan st' where f: "finish_join env None rng now ?rt2 = (Returned (Ok True), rt3, ev3)" "is_local_leader rt3 = Ok True"
    "rt_current_plan rt3 = Some plan" "rt_election rt3 = Some ?e2"
    "pp_stages plan = [st']" "sa_node_id st' = ?nid" "sa_layers st' = Some \<lparr>lr_start = 0, lr_end_exclusive = 32\<rparr>"
    "pp_fence plan = ls_fence (el_state ?e2)"
    by (rule lone_finish_join [OF assms(1), of ?rt2 s2 m2 ?nid ?cap ?e2])
       (use c st l assms(6) in \<open>auto simp: runs_llama_on_cpu_def\<close>)
  have "join_cluster env None rng now False rt1 = (Returned (Ok True), rt3, ev1 @ ev2 @ ev3)"
    using assms(7) st(13-15) j1 j2 f(1) by (simp add: join_cluster_def and_then_def)
  with f(2-8) show ?thesis by blast
qed

theorem single_node_bring_up_witness:
  "\<exists>rt2 evs2 plan st. join_cluster demo_env None 1 1 False demo_started = (Returned (Ok True), rt2, evs2) \<and>
    is_local_leader rt2 = Ok True \<and> rt_current_plan rt2 = Some plan \<and> pp_stages plan = [st] \<and> sa_node_id st = ''node-7''"
proof -
  obtain r rt1 evs where s: "rt_start demo_env demo_config True demo_inputs (new_runtime demo_config) = (r, rt1, evs)" by (rule prod_cases3)
  have "case rt_start demo_env demo_config True demo_inputs (new_runtime demo_config) of
      (r, _, _) \<Rightarrow> (case r of Returned x \<Rightarrow> x = Ok True | _ \<Rightarrow> False)" by code_simp
  then have ok: "rt_start demo_env demo_config True demo_inputs (new_runtime demo_config) = (Returned (Ok True), demo_started, evs)"
    using s by (auto simp: demo_started_def outcome_runtime_def split: completion.splits)
  have srt: "std_sorts (re_sort_slots demo_env) (re_sort_stages demo_env)" by (simp add: demo_env_def std_sorts_stable)
  have p: "si_profile demo_inputs = Ok (example_profile 100 kLlamaCpp)" "cp_node_id (example_profile 100 kLlamaCpp) = []"
    "make_node_id (si_rand demo_inputs) = ''node-7''" "\<not> rc_production_mode demo_config" by code_simp+
  have "runs_llama_on_cpu (example_profile 100 kLlamaCpp)" by code_simp
  with single_node_bring_up [OF srt reach_new ok p(1), of 1 1] p(2-4) show ?thesis by auto
qed

end
