(* ===== verification/Discovery.thy ===== *)
theory Discovery
  imports Types
begin

text \<open>
  \<^verbatim>\<open>src/discovery\<close>: the three ways in which nodes find each other (UDP broadcast, Bluetooth, mDNS)
  and the coordinator that runs them together. A service is a record of its members; its callback
  is either set or empty, and the events it is called with are returned in order. The answers of
  sockets, Bonjour and Avahi to \<open>start\<close> are a \<open>discovery_host\<close>; a datagram or a browse reply is an
  argument of the function that handles it. The threads of a service only read its state, so each
  message they handle is one step. The end of the process, which an exception in a thread causes,
  is \<open>None\<close>.
\<close>

section \<open>Configuration and host\<close>

record discovery_config =
  dc_fallback_order :: "discovery_method list"
  dc_service_name :: string
  dc_udp_port :: u16
  dc_scan_timeout :: duration
  dc_announce_interval :: duration

text \<open>
  Which of the three bodies of \<open>make_mdns_discovery\<close> was compiled: the one over Bonjour, the one
  over Avahi, or the stub that returns a null pointer.
\<close>

datatype mdns_platform = Bonjour | Avahi | NoMdns

record discovery_host =
  dh_platform :: mdns_platform
  dh_dns_register :: int
  dh_dns_browse :: int
  dh_avahi_poll :: bool
  dh_avahi_client :: "string + unit"
  dh_avahi_browser :: "string + unit"
  dh_send_socket :: bool
  dh_recv_socket :: bool
  dh_bind :: bool

type_synonym 's discovery_outcome = "('s, discovery_event, unit) outcome"

definition found :: "node_id \<Rightarrow> u64 \<Rightarrow> string \<Rightarrow> discovery_event" where
  "found n inc fp = \<lparr>de_kind = kFound, de_peer = default_peer\<lparr>pa_node_id := n, pa_incarnation := inc,
     pa_public_key_fingerprint := fp\<rparr>\<rparr>"

section \<open>UDP broadcast\<close>

record udp_discovery =
  udp_config :: discovery_config
  udp_local_peer :: peer_advertisement
  udp_callback :: bool
  udp_port :: u16
  udp_running :: bool
  udp_send_sock :: bool
  udp_recv_sock :: bool

definition default_discovery_config :: discovery_config where
  "default_discovery_config = \<lparr>dc_fallback_order = [], dc_service_name = [], dc_udp_port = 0,
     dc_scan_timeout = 1500000000, dc_announce_interval = 3000000000\<rparr>"

definition make_udp_discovery :: udp_discovery where
  "make_udp_discovery = \<lparr>udp_config = default_discovery_config, udp_local_peer = default_peer,
     udp_callback = False, udp_port = 9876, udp_running = False, udp_send_sock = False, udp_recv_sock = False\<rparr>"

definition udp_start ::
  "discovery_host \<Rightarrow> discovery_config \<Rightarrow> peer_advertisement \<Rightarrow> bool \<Rightarrow> udp_discovery \<Rightarrow> udp_discovery discovery_outcome" where
  "udp_start h config peer cb d =
     (if udp_running d then (Err kFailedPrecondition ''UDP discovery already started'', d, [])
      else (Ok (), d\<lparr>udp_config := config, udp_local_peer := peer, udp_callback := cb, udp_running := True,
              udp_port := dc_udp_port config, udp_send_sock := dh_send_socket h,
              udp_recv_sock := dh_recv_socket h \<and> dh_bind h\<rparr>, []))"

definition udp_update_advertisement :: "peer_advertisement \<Rightarrow> udp_discovery \<Rightarrow> udp_discovery" where
  "udp_update_advertisement peer d = d\<lparr>udp_local_peer := peer\<rparr>"

definition udp_stop :: "udp_discovery \<Rightarrow> udp_discovery" where
  "udp_stop d = d\<lparr>udp_running := False, udp_send_sock := False, udp_recv_sock := False\<rparr>"

definition serialize_peer :: "peer_advertisement \<Rightarrow> string" where
  "serialize_peer peer = pa_node_id peer @ ''|'' @ to_string (pa_incarnation peer) @ ''|'' @ pa_public_key_fingerprint peer"

text \<open>An exception of \<open>std::stoul\<close> is \<open>None\<close>; the number loses its upper half in the cast.\<close>

definition parse_advertisement :: "string \<Rightarrow> peer_advertisement option" where
  "parse_advertisement s =
     (case str_find s ''|'' 0 of
        None \<Rightarrow> Some default_peer
      | Some p1 \<Rightarrow>
          (case str_find s ''|'' (p1 + 1) of
             None \<Rightarrow> Some default_peer
           | Some p2 \<Rightarrow>
               (case stoul (substr s (p1 + 1) (p2 - p1 - 1)) of
                  None \<Rightarrow> None
                | Some n \<Rightarrow> Some (default_peer\<lparr>pa_node_id := substr s 0 p1,
                    pa_incarnation := ucast (ucast n :: u32),
                    pa_public_key_fingerprint := drop (p2 + 1) s\<rparr>))))"

text \<open>One iteration of the send thread: the datagram it broadcasts, if any.\<close>

definition send_announcement :: "udp_discovery \<Rightarrow> string option" where
  "send_announcement d =
     (if \<not> udp_running d \<or> \<not> udp_send_sock d then None
      else let json = serialize_peer (udp_local_peer d) in if json = [] then None else Some json)"

text \<open>
  One iteration of the receive thread on what the network has for it: a datagram, of which
  the buffer takes 2047 bytes, or none. Without a socket \<open>recvfrom\<close> fails and the loop goes on.
\<close>

definition udp_receive :: "udp_discovery \<Rightarrow> string option \<Rightarrow> discovery_event list option" where
  "udp_receive d datagram =
     (if \<not> udp_running d \<or> \<not> udp_recv_sock d then Some []
      else case datagram of
        None \<Rightarrow> Some []
      | Some s \<Rightarrow>
          (let buf = take 2047 s in
           if buf = [] then Some []
           else case parse_advertisement buf of
             None \<Rightarrow> None
           | Some adv \<Rightarrow>
               if pa_node_id adv = [] \<or> \<not> udp_callback d then Some []
               else Some [\<lparr>de_kind = kFound, de_peer = adv\<rparr>]))"

section \<open>Bluetooth\<close>

record bluetooth_discovery =
  ble_config :: discovery_config
  ble_local_peer :: peer_advertisement
  ble_callback :: bool
  ble_running :: bool
  ble_permission_denied :: bool

definition make_bluetooth_discovery :: bluetooth_discovery where
  "make_bluetooth_discovery = \<lparr>ble_config = default_discovery_config, ble_local_peer = default_peer,
     ble_callback = False, ble_running = False, ble_permission_denied = False\<rparr>"

definition ble_start ::
  "discovery_config \<Rightarrow> peer_advertisement \<Rightarrow> bool \<Rightarrow> bluetooth_discovery \<Rightarrow> bluetooth_discovery discovery_outcome" where
  "ble_start config peer cb d =
     (if ble_running d then (Err kFailedPrecondition ''BLE discovery already started'', d, [])
      else (Ok (), d\<lparr>ble_config := config, ble_local_peer := peer, ble_callback := cb,
              ble_running := True, ble_permission_denied := False\<rparr>, []))"

definition ble_update_advertisement :: "peer_advertisement \<Rightarrow> bluetooth_discovery \<Rightarrow> bluetooth_discovery" where
  "ble_update_advertisement peer d = d\<lparr>ble_local_peer := peer\<rparr>"

definition ble_stop :: "bluetooth_discovery \<Rightarrow> bluetooth_discovery" where
  "ble_stop d = d\<lparr>ble_running := False\<rparr>"

definition simulate_permission_denied :: "bluetooth_discovery \<Rightarrow> bluetooth_discovery" where
  "simulate_permission_denied d = d\<lparr>ble_permission_denied := True\<rparr>"

definition ble_inject_peer :: "peer_advertisement \<Rightarrow> bluetooth_discovery \<Rightarrow> discovery_event list" where
  "ble_inject_peer peer d =
     (if ble_permission_denied d \<or> \<not> ble_callback d then [] else [\<lparr>de_kind = kFound, de_peer = peer\<rparr>])"

section \<open>mDNS\<close>

text \<open>The flag bit \<open>kDNSServiceFlagsAdd\<close> and the error code \<open>kDNSServiceErr_NoError\<close> of Bonjour.\<close>

definition kDNSServiceFlagsAdd :: u32 where
  "kDNSServiceFlagsAdd = 2"

record dns_sd_context =
  ds_callback :: bool
  ds_service_type :: string
  ds_browse_ref :: bool
  ds_advertise_ref :: bool
  ds_event_thread :: bool
  ds_running :: bool
  ds_node_id :: string
  ds_fingerprint :: string
  ds_port :: u16
  ds_registered :: "(string \<times> string) option"

text \<open>A null name is \<open>None\<close>.\<close>

definition dns_sd_browse_reply :: "dns_sd_context \<Rightarrow> u32 \<Rightarrow> int \<Rightarrow> string option \<Rightarrow> discovery_event list" where
  "dns_sd_browse_reply ctx flags errorCode serviceName =
     (if errorCode \<noteq> 0 \<or> \<not> ds_callback ctx then []
      else if flags AND kDNSServiceFlagsAdd \<noteq> 0
        then [found (case serviceName of None \<Rightarrow> ''unknown'' | Some n \<Rightarrow> n) 1
                (''mdns-'' @ (case serviceName of None \<Rightarrow> [] | Some n \<Rightarrow> n))]
      else [])"

text \<open>
  \<open>ds_registered\<close> is the name and the text record under which Bonjour advertises the node while
  \<open>advertise_ref\<close> is held.
\<close>

definition dns_sd_start ::
  "discovery_host \<Rightarrow> string \<Rightarrow> string \<Rightarrow> dns_sd_context \<Rightarrow> unit result \<times> dns_sd_context" where
  "dns_sd_start h svc_name txt_record ctx =
     (if dh_dns_register h \<noteq> 0
      then (Err kInternal (''DNS-SD register failed: '' @ to_string_int (dh_dns_register h)), ctx\<lparr>ds_running := False\<rparr>)
      else if dh_dns_browse h \<noteq> 0
      then (Err kInternal (''DNS-SD browse failed: '' @ to_string_int (dh_dns_browse h)),
            ctx\<lparr>ds_advertise_ref := False, ds_registered := None, ds_running := False\<rparr>)
      else (Ok (), ctx\<lparr>ds_running := True, ds_advertise_ref := True,
              ds_registered := Some (svc_name, txt_record), ds_browse_ref := True, ds_event_thread := True\<rparr>))"

definition dns_sd_stop :: "dns_sd_context \<Rightarrow> dns_sd_context" where
  "dns_sd_stop ctx = ctx\<lparr>ds_running := False, ds_browse_ref := False, ds_advertise_ref := False,
     ds_registered := None, ds_event_thread := False\<rparr>"

record avahi_context =
  av_callback :: bool
  av_client :: bool
  av_browser :: bool
  av_group :: bool
  av_poll :: bool
  av_poll_started :: bool
  av_running :: bool

definition avahi_browse_callback :: "avahi_context \<Rightarrow> bool \<Rightarrow> string option \<Rightarrow> discovery_event list" where
  "avahi_browse_callback ctx browser_new name =
     (if browser_new \<and> av_callback ctx
      then [found (case name of None \<Rightarrow> ''unknown'' | Some n \<Rightarrow> n) 1
              (''avahi-'' @ (case name of None \<Rightarrow> [] | Some n \<Rightarrow> n))]
      else [])"

record mdns_discovery =
  mdns_config :: discovery_config
  mdns_local_peer :: peer_advertisement
  mdns_callback :: bool
  mdns_running :: bool
  mdns_dns_sd_ctx :: "dns_sd_context option"
  mdns_avahi_ctx :: "avahi_context option"

definition new_mdns_discovery :: mdns_discovery where
  "new_mdns_discovery = \<lparr>mdns_config = default_discovery_config, mdns_local_peer = default_peer,
     mdns_callback = False, mdns_running = False, mdns_dns_sd_ctx = None, mdns_avahi_ctx = None\<rparr>"

definition make_mdns_discovery :: "discovery_host \<Rightarrow> mdns_discovery option" where
  "make_mdns_discovery h = (if dh_platform h = NoMdns then None else Some new_mdns_discovery)"

text \<open>The Bonjour part of \<open>start\<close>; a failure is caught and leaves no context.\<close>

definition mdns_start_dns_sd :: "discovery_host \<Rightarrow> mdns_discovery \<Rightarrow> mdns_discovery discovery_outcome" where
  "mdns_start_dns_sd h d =
     (let peer = mdns_local_peer d; cfg = mdns_config d;
          ctx = \<lparr>ds_callback = mdns_callback d, ds_service_type = dc_service_name cfg @ ''._tcp'',
                 ds_browse_ref = False, ds_advertise_ref = False, ds_event_thread = False, ds_running = False,
                 ds_node_id = pa_node_id peer, ds_fingerprint = pa_public_key_fingerprint peer,
                 ds_port = (if dc_udp_port cfg > 0 then dc_udp_port cfg else 9876), ds_registered = None\<rparr>;
          svc_name = pa_node_id peer @ ''.'' @ dc_service_name cfg;
          txt_record = ''fp='' @ pa_public_key_fingerprint peer
      in case dns_sd_start h svc_name txt_record ctx of
           (Inl _, _) \<Rightarrow> (Ok (), d\<lparr>mdns_dns_sd_ctx := None, mdns_running := True\<rparr>, [])
         | (Inr _, ctx') \<Rightarrow> (Ok (), d\<lparr>mdns_dns_sd_ctx := Some ctx'\<rparr>, []))"

text \<open>The Avahi part; an exception leaves the context as far as it was built.\<close>

definition mdns_start_avahi :: "discovery_host \<Rightarrow> mdns_discovery \<Rightarrow> mdns_discovery discovery_outcome" where
  "mdns_start_avahi h d =
     (let ctx = \<lparr>av_callback = mdns_callback d, av_client = False, av_browser = False, av_group = False,
                 av_poll = False, av_poll_started = False, av_running = True\<rparr>
      in if \<not> dh_avahi_poll h
         then (Err kInternal ''Avahi poll creation failed'', d\<lparr>mdns_avahi_ctx := Some ctx\<rparr>, [])
         else let ctx1 = ctx\<lparr>av_poll := True\<rparr> in
           case dh_avahi_client h of
             Inl m \<Rightarrow> (Err kInternal (''Avahi client failed: '' @ m), d\<lparr>mdns_avahi_ctx := Some ctx1\<rparr>, [])
           | Inr _ \<Rightarrow>
               let ctx2 = ctx1\<lparr>av_client := True\<rparr> in
               (case dh_avahi_browser h of
                  Inl m \<Rightarrow> (Err kInternal (''Avahi browser failed: '' @ m), d\<lparr>mdns_avahi_ctx := Some ctx2\<rparr>, [])
                | Inr _ \<Rightarrow> (Ok (), d\<lparr>mdns_avahi_ctx := Some (ctx2\<lparr>av_browser := True, av_poll_started := True\<rparr>)\<rparr>, [])))"

definition mdns_start ::
  "discovery_host \<Rightarrow> discovery_config \<Rightarrow> peer_advertisement \<Rightarrow> bool \<Rightarrow> mdns_discovery \<Rightarrow> mdns_discovery discovery_outcome" where
  "mdns_start h config peer cb d =
     (if mdns_running d then (Err kFailedPrecondition ''mDNS already started'', d, [])
      else let d1 = d\<lparr>mdns_config := config, mdns_local_peer := peer, mdns_callback := cb, mdns_running := True\<rparr> in
        case dh_platform h of
          Bonjour \<Rightarrow> mdns_start_dns_sd h d1
        | Avahi \<Rightarrow> mdns_start_avahi h d1
        | NoMdns \<Rightarrow> (Ok (), d1, []))"

definition mdns_update_advertisement :: "peer_advertisement \<Rightarrow> mdns_discovery \<Rightarrow> mdns_discovery" where
  "mdns_update_advertisement peer d = d\<lparr>mdns_local_peer := peer\<rparr>"

definition avahi_stop :: "avahi_context \<Rightarrow> avahi_context" where
  "avahi_stop ctx = ctx\<lparr>av_running := False, av_browser := False, av_group := False, av_poll_started := False,
     av_client := False, av_poll := False\<rparr>"

text \<open>The service afterwards, and the contexts as they are when they are destroyed.\<close>

definition mdns_stop :: "mdns_discovery \<Rightarrow> mdns_discovery \<times> dns_sd_context option \<times> avahi_context option" where
  "mdns_stop d = (d\<lparr>mdns_dns_sd_ctx := None, mdns_avahi_ctx := None, mdns_running := False\<rparr>,
     map_option dns_sd_stop (mdns_dns_sd_ctx d), map_option avahi_stop (mdns_avahi_ctx d))"

definition mdns_inject_peer :: "string \<Rightarrow> mdns_discovery \<Rightarrow> discovery_event list" where
  "mdns_inject_peer name d = (if \<not> mdns_callback d then [] else [found name 1 (''injected-'' @ name)])"

section \<open>The coordinator\<close>

datatype adapter = MdnsAdapter mdns_discovery | UdpAdapter udp_discovery | BleAdapter bluetooth_discovery

fun make_adapter :: "discovery_host \<Rightarrow> discovery_method \<Rightarrow> adapter option" where
  "make_adapter h kMdns = map_option MdnsAdapter (make_mdns_discovery h)"
| "make_adapter h kUdpBroadcast = Some (UdpAdapter make_udp_discovery)"
| "make_adapter h kBluetoothLowEnergy = Some (BleAdapter make_bluetooth_discovery)"

text \<open>The virtual methods, by the dynamic type of the adapter.\<close>

fun adapter_start ::
  "discovery_host \<Rightarrow> discovery_config \<Rightarrow> peer_advertisement \<Rightarrow> bool \<Rightarrow> adapter \<Rightarrow> unit result \<times> adapter" where
  "adapter_start h cfg peer cb (MdnsAdapter d) = (case mdns_start h cfg peer cb d of (r, d', _) \<Rightarrow> (r, MdnsAdapter d'))"
| "adapter_start h cfg peer cb (UdpAdapter d) = (case udp_start h cfg peer cb d of (r, d', _) \<Rightarrow> (r, UdpAdapter d'))"
| "adapter_start h cfg peer cb (BleAdapter d) = (case ble_start cfg peer cb d of (r, d', _) \<Rightarrow> (r, BleAdapter d'))"

fun adapter_update :: "peer_advertisement \<Rightarrow> adapter \<Rightarrow> adapter" where
  "adapter_update peer (MdnsAdapter d) = MdnsAdapter (mdns_update_advertisement peer d)"
| "adapter_update peer (UdpAdapter d) = UdpAdapter (udp_update_advertisement peer d)"
| "adapter_update peer (BleAdapter d) = BleAdapter (ble_update_advertisement peer d)"

fun adapter_stop :: "adapter \<Rightarrow> adapter" where
  "adapter_stop (MdnsAdapter d) = MdnsAdapter (fst (mdns_stop d))"
| "adapter_stop (UdpAdapter d) = UdpAdapter (udp_stop d)"
| "adapter_stop (BleAdapter d) = BleAdapter (ble_stop d)"

record coordinated_discovery =
  cd_config :: discovery_config
  cd_local_peer :: peer_advertisement
  cd_callback :: bool
  cd_adapters :: "adapter list"
  cd_running :: bool

definition make_coordinated_discovery :: coordinated_discovery where
  "make_coordinated_discovery = \<lparr>cd_config = default_discovery_config, cd_local_peer = default_peer,
     cd_callback = False, cd_adapters = [], cd_running = False\<rparr>"

text \<open>
  The loop of \<open>start\<close>. An exception of an adapter leaves the loop; that adapter is destroyed, which
  stops it, the earlier ones stay in the list.
\<close>

fun start_adapters ::
  "discovery_host \<Rightarrow> discovery_method list \<Rightarrow> coordinated_discovery \<Rightarrow> coordinated_discovery discovery_outcome" where
  "start_adapters h [] d = (Ok (), d, [])"
| "start_adapters h (method # methods) d =
     (case make_adapter h method of
        None \<Rightarrow> start_adapters h methods d
      | Some a \<Rightarrow>
          (case adapter_start h (cd_config d) (cd_local_peer d) (cd_callback d) a of
             (Inl e, _) \<Rightarrow> (Inl e, d, [])
           | (Inr _, a') \<Rightarrow> start_adapters h methods (d\<lparr>cd_adapters := cd_adapters d @ [a']\<rparr>)))"

definition cd_start ::
  "discovery_host \<Rightarrow> discovery_config \<Rightarrow> peer_advertisement \<Rightarrow> bool \<Rightarrow> coordinated_discovery
     \<Rightarrow> coordinated_discovery discovery_outcome" where
  "cd_start h config peer cb d =
     (if cd_running d then (Err kFailedPrecondition ''coordinator already started'', d, [])
      else start_adapters h (dc_fallback_order config)
             (d\<lparr>cd_config := config, cd_local_peer := peer, cd_callback := cb, cd_running := True\<rparr>))"

definition cd_update_advertisement :: "peer_advertisement \<Rightarrow> coordinated_discovery \<Rightarrow> coordinated_discovery" where
  "cd_update_advertisement peer d = d\<lparr>cd_local_peer := peer, cd_adapters := map (adapter_update peer) (cd_adapters d)\<rparr>"

text \<open>The coordinator afterwards, and the adapters as they are when the list is cleared.\<close>

definition cd_stop :: "coordinated_discovery \<Rightarrow> coordinated_discovery \<times> adapter list" where
  "cd_stop d =
     (if \<not> cd_running d then (d, [])
      else (d\<lparr>cd_running := False, cd_adapters := []\<rparr>, map adapter_stop (cd_adapters d)))"

text \<open>
  The destructors: that of the mDNS service stops it, the others have none of their own. The threads of a UDP service are
  joined in \<open>stop\<close> only, and destroying a thread that is not joined ends the process.
\<close>

fun adapter_destroy :: "adapter \<Rightarrow> unit option" where
  "adapter_destroy (MdnsAdapter d) = Some ()"
| "adapter_destroy (UdpAdapter d) = (if udp_running d then None else Some ())"
| "adapter_destroy (BleAdapter d) = Some ()"

definition cd_destroy :: "coordinated_discovery \<Rightarrow> unit option" where
  "cd_destroy d = (if list_all (\<lambda>a. adapter_destroy a = Some ()) (cd_adapters d) then Some () else None)"

section \<open>Incoming messages\<close>

text \<open>
  What reaches a node from outside: a datagram (or a failed \<open>recvfrom\<close>), a reply of Bonjour to the
  browse request, an event of the Avahi browser. A message is handled by an adapter that listens for
  it: the Bonjour event loop and the Avahi poll run while their context exists.
\<close>

datatype discovery_input =
    Datagram "string option"
  | BonjourReply u32 int "string option"
  | AvahiEvent bool "string option"

fun adapter_input :: "discovery_input \<Rightarrow> adapter \<Rightarrow> discovery_event list option" where
  "adapter_input (Datagram s) (UdpAdapter d) = udp_receive d s"
| "adapter_input (BonjourReply flags err name) (MdnsAdapter d) =
     (case mdns_dns_sd_ctx d of
        None \<Rightarrow> Some []
      | Some ctx \<Rightarrow> Some (if ds_event_thread ctx \<and> ds_running ctx then dns_sd_browse_reply ctx flags err name else []))"
| "adapter_input (AvahiEvent new name) (MdnsAdapter d) =
     (case mdns_avahi_ctx d of
        None \<Rightarrow> Some []
      | Some ctx \<Rightarrow> Some (if av_poll_started ctx then avahi_browse_callback ctx new name else []))"
| "adapter_input _ _ = Some []"

text \<open>A message is offered to every adapter of the coordinator; one adapter can end the process.\<close>

fun inputs_all :: "discovery_input \<Rightarrow> adapter list \<Rightarrow> discovery_event list option" where
  "inputs_all i [] = Some []"
| "inputs_all i (a # as) =
     (case adapter_input i a of
        None \<Rightarrow> None
      | Some evs \<Rightarrow> map_option (\<lambda>evs'. evs @ evs') (inputs_all i as))"

definition cd_input :: "discovery_input \<Rightarrow> coordinated_discovery \<Rightarrow> discovery_event list option" where
  "cd_input i d = inputs_all i (cd_adapters d)"

section \<open>The wire format of the broadcast\<close>

abbreviation bar :: char where
  "bar \<equiv> CHR ''|''"

lemma occurs_at_char: "occurs_at s [c] i \<longleftrightarrow> i < length s \<and> s ! i = c"
  by (cases "drop i s") (auto simp: occurs_at_def Cons_nth_drop_Suc [symmetric] drop_eq_Nil nth_via_drop
    intro: ccontr [of "i < length s"])

lemma find_separator:
  assumes "c \<notin> set xs"
  shows "str_find (pre @ xs @ c # ys) [c] (length pre) = Some (length pre + length xs)"
  using assms by (auto simp: str_find_Some occurs_at_char nth_append in_set_conv_nth)

lemma find_separator_None:
  assumes "c \<notin> set xs"
  shows "str_find (pre @ xs) [c] (length pre) = None"
  using assms by (auto simp: str_find_None occurs_at_char nth_append in_set_conv_nth)

lemma parse_no_bar: "bar \<notin> set s \<Longrightarrow> parse_advertisement s = Some default_peer"
  using find_separator_None [of bar s "[]"] by (simp add: parse_advertisement_def)

lemma parse_one_bar:
  assumes "bar \<notin> set a" "bar \<notin> set b"
  shows "parse_advertisement (a @ bar # b) = Some default_peer"
  using find_separator [OF assms(1), of "[]" b] find_separator_None [OF assms(2), of "a @ [bar]"]
  by (simp add: parse_advertisement_def)

lemma parse_two_bars:
  assumes "bar \<notin> set a" "bar \<notin> set b"
  shows "parse_advertisement (a @ bar # b @ bar # c) =
    map_option (\<lambda>n. default_peer\<lparr>pa_node_id := a, pa_incarnation := ucast (ucast n :: u32),
                      pa_public_key_fingerprint := c\<rparr>) (stoul b)"
proof -
  have p1: "str_find (a @ bar # b @ bar # c) [bar] 0 = Some (length a)"
    using find_separator [OF assms(1), of "[]" "b @ bar # c"] by simp
  have p2: "str_find (a @ bar # b @ bar # c) [bar] (Suc (length a)) = Some (Suc (length a) + length b)"
    using find_separator [OF assms(2), of "a @ [bar]" c] by simp
  show ?thesis by (simp add: parse_advertisement_def p1 p2 substr_def split: option.split)
qed

lemmas parse_facts = parse_no_bar parse_one_bar parse_two_bars

text \<open>Every string has one of the three shapes.\<close>

lemma bar_shapes:
  obtains (none) "bar \<notin> set s"
  | (one) a b where "s = a @ bar # b" "bar \<notin> set a" "bar \<notin> set b"
  | (two) a b c where "s = a @ bar # b @ bar # c" "bar \<notin> set a" "bar \<notin> set b"
proof (cases "bar \<in> set s")
  case True
  then obtain a r where a: "s = a @ bar # r" "bar \<notin> set a" by (meson split_list_first)
  show thesis
  proof (cases "bar \<in> set r")
    case True
    then obtain b c where "r = b @ bar # c" "bar \<notin> set b" by (meson split_list_first)
    with a show thesis by (auto intro: two)
  next
    case False
    with a show thesis by (auto intro: one)
  qed
qed (rule none)

lemma bar_notin_dec: "bar \<notin> set (dec n)"
  using dec_digits [of bar n] by (auto simp: is_digit_def)

lemma bar_notin_to_string: "bar \<notin> set (to_string w)"
  by (simp add: to_string_def bar_notin_dec)

lemma stoul_dec: "n < 2 ^ 64 \<Longrightarrow> stoul (dec n) = Some (of_nat n)"
proof -
  assume n: "n < 2 ^ 64"
  obtain c cs where c: "dec n = c # cs" by (cases "dec n") auto
  have d: "is_digit c" using dec_digits [of c n] c by simp
  then have "\<not> is_space_char c" "c \<noteq> CHR ''-''" "c \<noteq> CHR ''+''"
    by (auto simp: is_digit_def is_space_char_def)
  then have "strip_sign (dropWhile is_space_char (dec n)) = (False, dec n)"
    by (simp add: c strip_sign_def)
  moreover have "takeWhile is_digit (dec n) = dec n"
    using takeWhile_digits_dec [of "[]" n] by simp
  ultimately show ?thesis using n by (simp add: stoul_def parse_number_def del: takeWhile_eq_all_conv)
qed

lemma stoul_to_string: "stoul (to_string (w :: u64)) = Some w"
  using unsigned_less [of w, where 'a = nat] by (simp add: to_string_def stoul_dec)

lemma parse_serialize:
  "bar \<notin> set (pa_node_id p) \<Longrightarrow>
   parse_advertisement (serialize_peer p) =
     Some (default_peer\<lparr>pa_node_id := pa_node_id p, pa_incarnation := ucast (ucast (pa_incarnation p) :: u32),
                        pa_public_key_fingerprint := pa_public_key_fingerprint p\<rparr>)"
  using parse_two_bars [of "pa_node_id p" "to_string (pa_incarnation p)" "pa_public_key_fingerprint p"]
  by (simp add: serialize_peer_def stoul_to_string bar_notin_to_string)

lemma parse_id_no_bar: "parse_advertisement s = Some p \<Longrightarrow> bar \<notin> set (pa_node_id p)"
  by (rule bar_shapes [of s]) (auto simp: parse_facts default_peer_def)

lemma ucast_ucast_32: "ucast (ucast (w :: u64) :: u32) = w \<longleftrightarrow> unat w < 2 ^ 32"
proof -
  have "unat (ucast (ucast w :: u32) :: u64) = unat w mod 2 ^ 32"
    by (simp add: unsigned_ucast_eq take_bit_eq_mod unat_mod_distrib)
  then show ?thesis by (metis mod_eq_self_iff_div_eq_0 mod_less mod_less_divisor unsigned_word_eqI zero_less_numeral zero_less_power)
qed

text \<open>
  C34. An announcement comes back as it was sent exactly when the format has a place for everything in it:
  no bar in the node id, an incarnation below \<open>2^32\<close>, no endpoints and no metadata.
\<close>

theorem broadcast_roundtrip:
  "parse_advertisement (serialize_peer p) = Some p \<longleftrightarrow>
     CHR ''|'' \<notin> set (pa_node_id p) \<and> unat (pa_incarnation p) < 2 ^ 32 \<and> pa_endpoints p = [] \<and> pa_metadata p = []"
proof (cases "bar \<in> set (pa_node_id p)")
  case True
  then show ?thesis using parse_id_no_bar [of "serialize_peer p" p] by auto
next
  case False
  show ?thesis
    unfolding parse_serialize [OF False] using False ucast_ucast_32 [of "pa_incarnation p"]
    by (cases p) (auto simp: default_peer_def)
qed

text \<open>
  A datagram ends a process that listens exactly when it has two bars and what is between the
  first two is not the text of a number below \<open>2^64\<close>.
\<close>

theorem datagram_ends_process:
  "udp_receive d (Some s) = None \<longleftrightarrow>
     udp_running d \<and> udp_recv_sock d \<and>
     (\<exists>a b c. take 2047 s = a @ ''|'' @ b @ ''|'' @ c \<and> CHR ''|'' \<notin> set a \<and> CHR ''|'' \<notin> set b \<and> stoul b = None)"
  (is "?L \<longleftrightarrow> ?R")
proof -
  have shape: "parse_advertisement t = None \<longleftrightarrow>
      (\<exists>a b c. t = a @ ''|'' @ b @ ''|'' @ c \<and> bar \<notin> set a \<and> bar \<notin> set b \<and> stoul b = None)" (is "?P \<longleftrightarrow> ?Q") for t
  proof
    assume ?P
    then show ?Q
    proof (cases rule: bar_shapes [of t])
      case (two a b c)
      with \<open>?P\<close> show ?thesis by (intro exI [of _ a] exI [of _ b] exI [of _ c]) (simp add: parse_two_bars)
    qed (simp_all add: parse_facts)
  next
    assume ?Q
    then show ?P by (elim exE conjE) (simp add: parse_two_bars)
  qed
  have "?L \<longleftrightarrow> udp_running d \<and> udp_recv_sock d \<and> parse_advertisement (take 2047 s) = None"
    by (auto simp: udp_receive_def Let_def parse_no_bar split: option.split)
  then show ?thesis unfolding shape by simp
qed

section \<open>The contract of a discovery service\<close>

text \<open>
  What callers of \<open>DiscoveryService\<close> rely on: whether a service runs is what decides if it can be
  started, the three methods set it, and the last advertisement given to it is the one it uses.
\<close>

datatype service_call = SvStart discovery_config peer_advertisement bool | SvUpdate peer_advertisement | SvStop

locale discovery_service =
  fixes start :: "discovery_config \<Rightarrow> peer_advertisement \<Rightarrow> bool \<Rightarrow> 's \<Rightarrow> 's discovery_outcome"
    and update :: "peer_advertisement \<Rightarrow> 's \<Rightarrow> 's"
    and stop :: "'s \<Rightarrow> 's"
    and running :: "'s \<Rightarrow> bool"
    and advertised :: "'s \<Rightarrow> peer_advertisement"
  assumes start_running: "running s \<Longrightarrow> \<exists>m. start cfg p cb s = (Err kFailedPrecondition m, s, [])"
    and start_sets: "\<not> running s \<Longrightarrow> running (outcome_state (start cfg p cb s))"
    and start_advertised: "\<not> running s \<Longrightarrow> advertised (outcome_state (start cfg p cb s)) = p"
    and start_code: "\<not> running s \<Longrightarrow> result_error_code (outcome_result (start cfg p cb s)) \<noteq> kFailedPrecondition"
    and update_running: "running (update p s) = running s"
    and update_advertised: "advertised (update p s) = p"
    and stop_running: "\<not> running (stop s)"
    and stop_advertised: "advertised (stop s) = advertised s"

text \<open>A sequence of calls, and the two facts about it that callers can compute without the service.\<close>

fun service_step ::
  "(discovery_config \<Rightarrow> peer_advertisement \<Rightarrow> bool \<Rightarrow> 's \<Rightarrow> 's discovery_outcome) \<Rightarrow> (peer_advertisement \<Rightarrow> 's \<Rightarrow> 's)
     \<Rightarrow> ('s \<Rightarrow> 's) \<Rightarrow> service_call \<Rightarrow> 's \<Rightarrow> 's" where
  "service_step start update stop (SvStart cfg p cb) s = outcome_state (start cfg p cb s)"
| "service_step start update stop (SvUpdate p) s = update p s"
| "service_step start update stop SvStop s = stop s"

fun spec_step :: "service_call \<Rightarrow> bool \<times> peer_advertisement \<Rightarrow> bool \<times> peer_advertisement" where
  "spec_step (SvStart cfg p cb) (on, a) = (if on then (on, a) else (True, p))"
| "spec_step (SvUpdate p) (on, a) = (on, p)"
| "spec_step SvStop (on, a) = (False, a)"

context discovery_service
begin

lemma step_refines:
  "(running (service_step start update stop c s), advertised (service_step start update stop c s)) =
     spec_step c (running s, advertised s)"
proof (cases c)
  case (SvStart cfg p cb)
  then show ?thesis
    using start_running [of s cfg p cb] start_sets [of s cfg p cb] start_advertised [of s cfg p cb]
    by (cases "running s") auto
qed (simp_all add: update_running update_advertised stop_running stop_advertised)

lemma run_refines:
  "(running (fold (service_step start update stop) calls s), advertised (fold (service_step start update stop) calls s)) =
     fold spec_step calls (running s, advertised s)"
  by (induction calls arbitrary: s) (simp_all add: step_refines)

lemma start_refused_iff:
  "result_error_code (outcome_result (start cfg p cb (fold (service_step start update stop) calls s))) = kFailedPrecondition \<longleftrightarrow>
     fst (fold spec_step calls (running s, advertised s))"
proof -
  let ?s = "fold (service_step start update stop) calls s"
  have "running ?s \<longleftrightarrow> fst (fold spec_step calls (running s, advertised s))"
    by (simp add: run_refines [symmetric])
  then show ?thesis
    using start_running [of ?s cfg p cb] start_code [of ?s cfg p cb] by (cases "running ?s") auto
qed

end

interpretation udp: discovery_service "udp_start h" udp_update_advertisement udp_stop udp_running udp_local_peer for h
  by unfold_locales (auto simp: udp_start_def udp_update_advertisement_def udp_stop_def result_error_code_def)

interpretation ble: discovery_service ble_start ble_update_advertisement ble_stop ble_running ble_local_peer
  by unfold_locales (auto simp: ble_start_def ble_update_advertisement_def ble_stop_def result_error_code_def)

lemma mdns_start_effect:
  assumes "\<not> mdns_running d"
  shows "mdns_running (outcome_state (mdns_start h cfg p cb d)) \<and> mdns_local_peer (outcome_state (mdns_start h cfg p cb d)) = p
    \<and> mdns_callback (outcome_state (mdns_start h cfg p cb d)) = cb
    \<and> result_error_code (outcome_result (mdns_start h cfg p cb d)) \<in> {kOk, kInternal}"
  using assms
  by (auto simp: mdns_start_def mdns_start_dns_sd_def mdns_start_avahi_def Let_def result_error_code_def Err_def
    split: prod.split sum.split mdns_platform.split)

interpretation mdns: discovery_service "mdns_start h" mdns_update_advertisement "\<lambda>d. fst (mdns_stop d)" mdns_running
  mdns_local_peer for h
proof unfold_locales
  fix s :: mdns_discovery and cfg p cb
  show "mdns_running s \<Longrightarrow> \<exists>m. mdns_start h cfg p cb s = (Err kFailedPrecondition m, s, [])" by (simp add: mdns_start_def)
  assume stopped: "\<not> mdns_running s"
  from mdns_start_effect [OF stopped, of h cfg p cb]
  show "mdns_running (outcome_state (mdns_start h cfg p cb s))" "mdns_local_peer (outcome_state (mdns_start h cfg p cb s)) = p"
    "result_error_code (outcome_result (mdns_start h cfg p cb s)) \<noteq> kFailedPrecondition"
    by auto
qed (simp_all add: mdns_update_advertisement_def mdns_stop_def)

section \<open>The coordinator\<close>

fun adapter_running :: "adapter \<Rightarrow> bool" where
  "adapter_running (MdnsAdapter d) = mdns_running d"
| "adapter_running (UdpAdapter d) = udp_running d"
| "adapter_running (BleAdapter d) = ble_running d"

fun adapter_peer :: "adapter \<Rightarrow> peer_advertisement" where
  "adapter_peer (MdnsAdapter d) = mdns_local_peer d"
| "adapter_peer (UdpAdapter d) = udp_local_peer d"
| "adapter_peer (BleAdapter d) = ble_local_peer d"

fun adapter_callback :: "adapter \<Rightarrow> bool" where
  "adapter_callback (MdnsAdapter d) = mdns_callback d"
| "adapter_callback (UdpAdapter d) = udp_callback d"
| "adapter_callback (BleAdapter d) = ble_callback d"

fun adapter_method :: "adapter \<Rightarrow> discovery_method" where
  "adapter_method (MdnsAdapter d) = kMdns"
| "adapter_method (UdpAdapter d) = kUdpBroadcast"
| "adapter_method (BleAdapter d) = kBluetoothLowEnergy"

text \<open>What an adapter holds of the operating system: sockets, Bonjour references, Avahi objects and threads.\<close>

fun adapter_holds :: "adapter \<Rightarrow> bool" where
  "adapter_holds (MdnsAdapter d) \<longleftrightarrow> mdns_dns_sd_ctx d \<noteq> None \<or> mdns_avahi_ctx d \<noteq> None"
| "adapter_holds (UdpAdapter d) \<longleftrightarrow> udp_send_sock d \<or> udp_recv_sock d"
| "adapter_holds (BleAdapter d) \<longleftrightarrow> False"

definition serves :: "peer_advertisement \<Rightarrow> bool \<Rightarrow> adapter \<Rightarrow> bool" where
  "serves p cb a \<longleftrightarrow> adapter_running a \<and> adapter_peer a = p \<and> adapter_callback a = cb"

text \<open>Avahi is the only host on which a fresh adapter can fail to start.\<close>

definition avahi_fails :: "discovery_host \<Rightarrow> bool" where
  "avahi_fails h \<longleftrightarrow> dh_platform h = Avahi \<and>
     (\<not> dh_avahi_poll h \<or> isl (dh_avahi_client h) \<or> isl (dh_avahi_browser h))"

abbreviation method_available :: "discovery_host \<Rightarrow> discovery_method \<Rightarrow> bool" where
  "method_available h m \<equiv> make_adapter h m \<noteq> None"

lemma method_available_iff: "method_available h m \<longleftrightarrow> (m = kMdns \<longrightarrow> dh_platform h \<noteq> NoMdns)"
  by (cases m) (simp_all add: make_mdns_discovery_def)

lemma mdns_start_fails:
  "\<not> is_ok (outcome_result (mdns_start h cfg p cb new_mdns_discovery)) \<longleftrightarrow> avahi_fails h"
  by (auto simp: mdns_start_def mdns_start_dns_sd_def mdns_start_avahi_def Let_def new_mdns_discovery_def avahi_fails_def
    split: prod.split sum.split mdns_platform.split)

lemma mdns_start_new:
  assumes "mdns_start h cfg p cb new_mdns_discovery = (r, d, evs)"
  shows "mdns_running d \<and> mdns_local_peer d = p \<and> mdns_callback d = cb \<and> result_error_code r \<in> {kOk, kInternal}"
  using mdns_start_effect [of new_mdns_discovery h cfg p cb] assms by (simp add: new_mdns_discovery_def)

lemma fresh_adapter:
  assumes "make_adapter h m = Some a" "adapter_start h cfg p cb a = (r, a')"
  shows "serves p cb a' \<and> adapter_method a' = m \<and> (is_err r \<longleftrightarrow> m = kMdns \<and> avahi_fails h) \<and>
    result_error_code r \<in> {kOk, kInternal}"
proof (cases m)
  case kMdns
  with assms obtain d evs where "mdns_start h cfg p cb new_mdns_discovery = (r, d, evs)" "a' = MdnsAdapter d"
    by (auto simp: make_mdns_discovery_def split: if_splits prod.splits)
  with kMdns show ?thesis
    using mdns_start_new [of h cfg p cb r d evs] mdns_start_fails [of h cfg p cb] by (simp add: serves_def)
next
  case kUdpBroadcast
  with assms show ?thesis
    by (auto simp: serves_def udp_start_def make_udp_discovery_def)
next
  case kBluetoothLowEnergy
  with assms show ?thesis
    by (auto simp: serves_def ble_start_def make_bluetooth_discovery_def)
qed

text \<open>The methods of the fallback order whose adapters \<open>start\<close> brings up: all that exist, or those before Avahi fails.\<close>

definition started_methods :: "discovery_host \<Rightarrow> discovery_method list \<Rightarrow> discovery_method list" where
  "started_methods h ms = (if avahi_fails h then takeWhile (\<lambda>m. m \<noteq> kMdns) ms else filter (method_available h) ms)"

lemma avahi_fails_available: "avahi_fails h \<Longrightarrow> make_adapter h m \<noteq> None"
  using method_available_iff [of h m] by (auto simp: avahi_fails_def)

lemma start_adapters_spec:
  assumes "start_adapters h ms d = (r, d', evs)"
  shows "\<exists>new. d' = d\<lparr>cd_adapters := cd_adapters d @ new\<rparr> \<and> list_all (serves (cd_local_peer d) (cd_callback d)) new \<and>
    map adapter_method new = started_methods h ms \<and> evs = [] \<and>
    (is_err r \<longleftrightarrow> avahi_fails h \<and> kMdns \<in> set ms) \<and> result_error_code r \<in> {kOk, kInternal}"
  using assms
proof (induction h ms d arbitrary: d' rule: start_adapters.induct)
  case (1 h d)
  then show ?case by (intro exI [of _ "[]"]) (auto simp: started_methods_def result_error_code_def)
next
  case (2 h m ms d)
  show ?case
  proof (cases "make_adapter h m")
    case None
    then have "\<not> avahi_fails h" using avahi_fails_available [of h m] by blast
    with 2 None show ?thesis by (auto simp: started_methods_def)
  next
    case (Some a)
    obtain q a' where q: "adapter_start h (cd_config d) (cd_local_peer d) (cd_callback d) a = (q, a')" by force
    note fresh = fresh_adapter [OF Some q]
    show ?thesis
    proof (cases q)
      case (Inl e)
      with 2(3) Some q fresh show ?thesis
        by (intro exI [of _ "[]"]) (auto simp: started_methods_def result_error_code_def)
    next
      case (Inr u)
      let ?d = "d\<lparr>cd_adapters := cd_adapters d @ [a']\<rparr>"
      have "start_adapters h ms ?d = (r, d', evs)" using 2(3) Some q Inr by simp
      from 2(2) [OF Some q [symmetric] _ this] Inr obtain new where
        new: "d' = ?d\<lparr>cd_adapters := cd_adapters ?d @ new\<rparr>" "list_all (serves (cd_local_peer d) (cd_callback d)) new"
          "map adapter_method new = started_methods h ms" "evs = []"
          "is_err r \<longleftrightarrow> avahi_fails h \<and> kMdns \<in> set ms" "result_error_code r \<in> {kOk, kInternal}"
        by auto
      have m: "\<not> (m = kMdns \<and> avahi_fails h)" using fresh Inr by auto
      then show ?thesis
        using new fresh Some by (intro exI [of _ "a' # new"]) (auto simp: started_methods_def)
    qed
  qed
qed

lemma cd_start_running: "cd_running d \<Longrightarrow> cd_start h cfg p cb d = (Err kFailedPrecondition ''coordinator already started'', d, [])"
  by (simp add: cd_start_def)

lemma cd_start_stopped:
  assumes "\<not> cd_running d" "cd_start h cfg p cb d = (r, d', evs)"
  shows "\<exists>new. d' = d\<lparr>cd_config := cfg, cd_local_peer := p, cd_callback := cb, cd_running := True, cd_adapters := cd_adapters d @ new\<rparr> \<and>
    list_all (serves p cb) new \<and> map adapter_method new = started_methods h (dc_fallback_order cfg) \<and> evs = [] \<and>
    (is_err r \<longleftrightarrow> avahi_fails h \<and> kMdns \<in> set (dc_fallback_order cfg)) \<and> result_error_code r \<in> {kOk, kInternal}"
proof -
  have "start_adapters h (dc_fallback_order cfg) (d\<lparr>cd_config := cfg, cd_local_peer := p, cd_callback := cb, cd_running := True\<rparr>) =
      (r, d', evs)"
    using assms by (simp add: cd_start_def)
  from start_adapters_spec [OF this] show ?thesis by auto
qed

interpretation cd: discovery_service "cd_start h" cd_update_advertisement "\<lambda>d. fst (cd_stop d)" cd_running cd_local_peer for h
proof unfold_locales
  fix s :: coordinated_discovery and cfg p cb
  show "cd_running s \<Longrightarrow> \<exists>m. cd_start h cfg p cb s = (Err kFailedPrecondition m, s, [])" by (simp add: cd_start_running)
  assume stopped: "\<not> cd_running s"
  obtain r d' evs where q: "cd_start h cfg p cb s = (r, d', evs)" by (metis prod_cases3)
  from cd_start_stopped [OF stopped q] q
  show "cd_running (outcome_state (cd_start h cfg p cb s))" "cd_local_peer (outcome_state (cd_start h cfg p cb s)) = p"
    "result_error_code (outcome_result (cd_start h cfg p cb s)) \<noteq> kFailedPrecondition"
    by auto
qed (auto simp: cd_update_advertisement_def cd_stop_def)

text \<open>The states a coordinator can be in, on hosts that may answer differently each time.\<close>

inductive cd_reachable :: "coordinated_discovery \<Rightarrow> bool" where
  cd_new: "cd_reachable make_coordinated_discovery"
| cd_started: "cd_reachable d \<Longrightarrow> cd_reachable (outcome_state (cd_start h cfg p cb d))"
| cd_updated: "cd_reachable d \<Longrightarrow> cd_reachable (cd_update_advertisement p d)"
| cd_stopped: "cd_reachable d \<Longrightarrow> cd_reachable (fst (cd_stop d))"

lemma serves_update: "serves p cb a \<Longrightarrow> serves q cb (adapter_update q a)"
  by (cases a) (simp_all add: serves_def mdns_update_advertisement_def udp_update_advertisement_def ble_update_advertisement_def)

lemma adapter_stop_released: "\<not> adapter_running (adapter_stop a) \<and> \<not> adapter_holds (adapter_stop a)"
  by (cases a) (simp_all add: mdns_stop_def udp_stop_def ble_stop_def)

lemma coordinator_inv:
  assumes "cd_reachable d"
  shows "list_all (serves (cd_local_peer d) (cd_callback d)) (cd_adapters d) \<and> (\<not> cd_running d \<longrightarrow> cd_adapters d = [])"
  using assms
proof induction
  case cd_new
  then show ?case by (simp add: make_coordinated_discovery_def)
next
  case (cd_started d h cfg p cb)
  obtain r d' evs where q: "cd_start h cfg p cb d = (r, d', evs)" by (metis prod_cases3)
  show ?case
  proof (cases "cd_running d")
    case True
    with cd_started show ?thesis by (simp add: cd_start_running)
  next
    case False
    from cd_start_stopped [OF False q] cd_started False q show ?thesis by auto
  qed
next
  case (cd_updated d p)
  then show ?case by (auto simp: cd_update_advertisement_def list_all_iff intro: serves_update)
next
  case (cd_stopped d)
  then show ?case by (simp add: cd_stop_def)
qed

lemma no_adapters_silent: "cd_adapters d = [] \<Longrightarrow> cd_input i d = Some []"
  by (simp add: cd_input_def)


text \<open>
  From a stopped coordinator, \<open>start\<close> throws if and only if mDNS is in the fallback order and Avahi fails. In both cases
  the coordinator runs afterwards, with an adapter for every method of the order that the host has, in this order, or for the
  methods before mDNS when Avahi fails.
\<close>

theorem coordinator_start:
  assumes "cd_reachable d" "\<not> cd_running d" "cd_start h cfg p cb d = (r, d', evs)"
  shows "cd_running d' \<and> list_all (serves p cb) (cd_adapters d') \<and>
    map adapter_method (cd_adapters d') = started_methods h (dc_fallback_order cfg) \<and>
    (is_err r \<longleftrightarrow> avahi_fails h \<and> kMdns \<in> set (dc_fallback_order cfg))"
  using cd_start_stopped [OF assms(2,3)] coordinator_inv [OF assms(1)] assms(2) by auto

lemma adapter_destroy_serving: "serves p cb a \<Longrightarrow> adapter_destroy a = Some () \<longleftrightarrow> adapter_method a \<noteq> kUdpBroadcast"
  by (cases a) (simp_all add: serves_def)

text \<open>
  Destroying a coordinator that has not been stopped ends the process, if it has a UDP adapter.
\<close>

theorem destroy_needs_stop:
  assumes "cd_reachable d"
  shows "(cd_destroy d = None \<longleftrightarrow> kUdpBroadcast \<in> set (map adapter_method (cd_adapters d))) \<and>
    cd_destroy (fst (cd_stop d)) = Some ()"
proof
  have "adapter_destroy a = Some () \<longleftrightarrow> adapter_method a \<noteq> kUdpBroadcast" if "a \<in> set (cd_adapters d)" for a
    using coordinator_inv [OF assms] that by (intro adapter_destroy_serving) (auto simp: list_all_iff)
  then have "list_all (\<lambda>a. adapter_destroy a = Some ()) (cd_adapters d) \<longleftrightarrow> kUdpBroadcast \<notin> set (map adapter_method (cd_adapters d))"
    by (force simp: list_all_iff)
  then show "cd_destroy d = None \<longleftrightarrow> kUdpBroadcast \<in> set (map adapter_method (cd_adapters d))"
    unfolding cd_destroy_def by simp
  show "cd_destroy (fst (cd_stop d)) = Some ()"
    using coordinator_inv [OF assms] by (auto simp: cd_stop_def cd_destroy_def)
qed

text \<open>
  The coordinator refines the service that callers see: after any sequence of calls a start is refused as already started
  exactly when the specification is on.
\<close>

theorem coordinator_refines:
  "result_error_code (outcome_result (cd_start h cfg p cb
     (fold (service_step (cd_start h) cd_update_advertisement (\<lambda>d. fst (cd_stop d))) calls make_coordinated_discovery)))
     = kFailedPrecondition \<longleftrightarrow> fst (fold spec_step calls (False, default_peer))"
  using cd.start_refused_iff [of h cfg p cb calls make_coordinated_discovery]
  by (simp add: make_coordinated_discovery_def)

section \<open>What is delivered\<close>

lemma parse_fields_empty:
  "parse_advertisement s = Some p \<Longrightarrow> pa_endpoints p = [] \<and> pa_metadata p = []"
  by (rule bar_shapes [of s]) (auto simp: parse_facts default_peer_def)

definition bare_found :: "discovery_event \<Rightarrow> bool" where
  "bare_found ev \<longleftrightarrow> de_kind ev = kFound \<and> pa_endpoints (de_peer ev) = [] \<and> pa_metadata (de_peer ev) = []"

lemma bare_found_found [simp]: "bare_found (found n inc fp)"
  by (simp add: bare_found_def found_def default_peer_def)

lemma udp_receive_found: "udp_receive d s = Some evs \<Longrightarrow> list_all bare_found evs"
  by (auto simp: udp_receive_def bare_found_def Let_def dest: parse_fields_empty split: option.splits if_splits)

lemma adapter_input_found: "adapter_input i a = Some evs \<Longrightarrow> list_all bare_found evs"
  by (cases "(i, a)" rule: adapter_input.cases)
     (auto simp: dns_sd_browse_reply_def avahi_browse_callback_def dest: udp_receive_found split: option.splits if_splits)

text \<open>
  Nothing that arrives makes a coordinator report a peer as updated or expired, or report an address of it: every
  event is a new peer without endpoints and metadata.
\<close>

theorem only_bare_found:
  assumes "cd_input i d = Some evs"
  shows "list_all bare_found evs"
proof -
  have "inputs_all i as = Some evs' \<Longrightarrow> list_all bare_found evs'" for as evs'
    by (induction as arbitrary: evs') (auto dest: adapter_input_found split: option.splits)
  with assms show ?thesis by (simp add: cd_input_def)
qed

text \<open>A datagram that fits the buffer of the receiver arrives as sent, but for the upper half of the incarnation.\<close>

lemma udp_exchange:
  assumes "udp_running b" "udp_recv_sock b" "udp_callback b"
    and "CHR ''|'' \<notin> set (pa_node_id p)" "pa_node_id p \<noteq> []" "length (serialize_peer p) \<le> 2047"
  shows "udp_receive b (Some (serialize_peer p)) =
    Some [found (pa_node_id p) (ucast (ucast (pa_incarnation p) :: u32)) (pa_public_key_fingerprint p)]"
proof -
  have "serialize_peer p \<noteq> []" by (simp add: serialize_peer_def)
  then show ?thesis
    using assms by (simp add: udp_receive_def parse_serialize found_def default_peer_def)
qed

text \<open>
  Two nodes that announce themselves over Bonjour and hear each other's broadcasts know each other twice: the
  name under which a node registers, and under which the browse reply reports it, is not its node id, and the
  reported fingerprint is not the one in its text record.
\<close>

theorem bonjour_renames_peer:
  assumes "dh_platform h = Bonjour" "dh_dns_register h = 0" "dh_dns_browse h = 0"
    and start: "mdns_start h cfg p cb new_mdns_discovery = (r, d, evs)" and listener: "ds_callback other"
  shows "\<exists>ctx name. mdns_dns_sd_ctx d = Some ctx \<and> ds_registered ctx = Some (name, ''fp='' @ pa_public_key_fingerprint p) \<and>
    dns_sd_browse_reply other kDNSServiceFlagsAdd 0 (Some name) = [found name 1 (''mdns-'' @ name)] \<and> name \<noteq> pa_node_id p"
proof -
  let ?name = "pa_node_id p @ ''.'' @ dc_service_name cfg"
  obtain ctx where "mdns_dns_sd_ctx d = Some ctx" "ds_registered ctx = Some (?name, ''fp='' @ pa_public_key_fingerprint p)"
    using assms by (auto simp: mdns_start_def mdns_start_dns_sd_def dns_sd_start_def new_mdns_discovery_def)
  moreover have "dns_sd_browse_reply other kDNSServiceFlagsAdd 0 (Some ?name) = [found ?name 1 (''mdns-'' @ ?name)]"
    using listener by (simp add: dns_sd_browse_reply_def kDNSServiceFlagsAdd_def)
  moreover have "?name \<noteq> pa_node_id p" by simp
  ultimately show ?thesis by blast
qed

section \<open>Examples\<close>

definition net_peer :: peer_advertisement where
  "net_peer = default_peer\<lparr>pa_node_id := ''a'', pa_incarnation := 1, pa_public_key_fingerprint := ''f''\<rparr>"

definition net_host :: discovery_host where
  "net_host = \<lparr>dh_platform = Bonjour, dh_dns_register = 0, dh_dns_browse = 0, dh_avahi_poll = True, dh_avahi_client = Inr (),
     dh_avahi_browser = Inr (), dh_send_socket = True, dh_recv_socket = True, dh_bind = True\<rparr>"

definition net_config :: discovery_config where
  "net_config = default_discovery_config\<lparr>dc_fallback_order := [kMdns, kUdpBroadcast, kBluetoothLowEnergy],
     dc_service_name := ''s'', dc_udp_port := 9876\<rparr>"

definition net_coordinator :: coordinated_discovery where
  "net_coordinator = outcome_state (cd_start net_host net_config net_peer True make_coordinated_discovery)"

lemma net_reachable: "cd_reachable net_coordinator"
  unfolding net_coordinator_def by (intro cd_started cd_new)


lemma coordinator_start_witness:
  "map adapter_method (cd_adapters net_coordinator) = [kMdns, kUdpBroadcast, kBluetoothLowEnergy]"
proof -
  obtain r d evs where q: "cd_start net_host net_config net_peer True make_coordinated_discovery = (r, d, evs)"
    by (metis prod_cases3)
  have "\<not> cd_running make_coordinated_discovery" by (simp add: make_coordinated_discovery_def)
  from coordinator_start [OF cd_new this q] q show ?thesis
    by (simp add: net_coordinator_def started_methods_def avahi_fails_def net_host_def net_config_def
      make_mdns_discovery_def)
qed

lemma net_methods: "map adapter_method (cd_adapters net_coordinator) = [kMdns, kUdpBroadcast, kBluetoothLowEnergy]"
proof -
  obtain r d evs where q: "cd_start net_host net_config net_peer True make_coordinated_discovery = (r, d, evs)"
    by (metis prod_cases3)
  have "\<not> cd_running make_coordinated_discovery" by (simp add: make_coordinated_discovery_def)
  from cd_start_stopped [OF this q] q show ?thesis
    by (auto simp: net_coordinator_def started_methods_def avahi_fails_def net_host_def net_config_def
      make_mdns_discovery_def make_coordinated_discovery_def)
qed

theorem destroy_needs_stop_witness: "cd_destroy net_coordinator = None \<and> cd_destroy (fst (cd_stop net_coordinator)) = Some ()"
  using destroy_needs_stop [OF net_reachable] net_methods by simp

lemma net_serialized: "serialize_peer net_peer = ''a|1|f''"
  by (simp add: net_peer_def serialize_peer_def default_peer_def to_string_def dec.simps digit_char_def, code_simp)

lemma net_received:
  "udp_running b \<Longrightarrow> udp_recv_sock b \<Longrightarrow> udp_callback b \<Longrightarrow>
   udp_receive b (Some (serialize_peer net_peer)) = Some [found ''a'' 1 ''f'']"
  using udp_exchange [of b net_peer] net_serialized by (simp add: net_peer_def)

lemma net_input: "cd_input (Datagram (Some (serialize_peer net_peer))) net_coordinator = Some [found ''a'' 1 ''f'']"
  by (simp add: cd_input_def net_coordinator_def net_host_def net_config_def cd_start_def make_mdns_discovery_def
    make_coordinated_discovery_def mdns_start_def mdns_start_dns_sd_def dns_sd_start_def new_mdns_discovery_def udp_start_def
    make_udp_discovery_def net_received ble_start_def make_bluetooth_discovery_def)

lemma only_bare_found_witness: "list_all bare_found [found ''a'' 1 ''f'']"
  by (rule only_bare_found [OF net_input])

lemma bonjour_renames_peer_witness:
  "\<exists>d ctx name. fst (snd (mdns_start net_host net_config net_peer True new_mdns_discovery)) = d \<and>
    mdns_dns_sd_ctx d = Some ctx \<and> ds_registered ctx = Some (name, ''fp=f'') \<and> name \<noteq> ''a''"
proof -
  obtain r d evs where q: "mdns_start net_host net_config net_peer True new_mdns_discovery = (r, d, evs)"
    by (metis prod_cases3)
  have "\<exists>other :: dns_sd_context. ds_callback other" by (rule exI [of _ "\<lparr>ds_callback = True, ds_service_type = [], ds_browse_ref = False,
    ds_advertise_ref = False, ds_event_thread = False, ds_running = False, ds_node_id = [], ds_fingerprint = [], ds_port = 0,
    ds_registered = None\<rparr>"]) simp
  then obtain other :: dns_sd_context where o: "ds_callback other" ..
  have h: "dh_platform net_host = Bonjour" "dh_dns_register net_host = 0" "dh_dns_browse net_host = 0"
    by (simp_all add: net_host_def)
  from bonjour_renames_peer [OF h q o] q show ?thesis
    by (auto simp: net_peer_def)
qed

end
