(* ===== verification/Engines.thy ===== *)
theory Engines
  imports Stages
begin

text \<open>
  The inference backends of \<^verbatim>\<open>src/inference\<close>: llama.cpp, MLX, ExecuTorch and LiteRT. Only the first calls an
  engine; llama.cpp is a record of functions on a world. The macros of the build are a record.
  \<open>None\<close> is undefined behaviour or an exception of the standard library.
\<close>

section \<open>llama.cpp\<close>

record engine_build =
  eb_llama :: bool
  eb_qnn :: bool
  eb_apple :: bool
  eb_windows :: bool
  eb_litert :: bool
  eb_mlx_disabled :: bool
  eb_litert_disabled :: bool

record llama_entry =
  le_token :: i32
  le_pos :: i32
  le_logits :: bool

text \<open>
  The functions of llama.cpp that are called: the token count of a fresh batch of a given capacity, decoding a batch
  (its token count and the entries that were written), the logits afterwards, and whether a model and a context could be
  created.
\<close>

record 'w llama_api =
  la_batch_init :: "nat \<Rightarrow> nat"
  la_decode :: "nat \<Rightarrow> llama_entry list \<Rightarrow> 'w \<Rightarrow> int \<times> 'w"
  la_logits :: "'w \<Rightarrow> double list"
  la_load_model :: "string \<Rightarrow> int \<Rightarrow> 'w \<Rightarrow> bool"
  la_init_context :: "int \<Rightarrow> int \<Rightarrow> 'w \<Rightarrow> bool"
  la_elapsed_us :: "'w \<Rightarrow> int"

text \<open>The loop over the logits: the index of the best one so far, and its value.\<close>

fun sample_loop :: "nat \<Rightarrow> double list \<Rightarrow> nat \<times> double \<Rightarrow> nat" where
  "sample_loop i [] best = fst best"
| "sample_loop i (x # xs) best = sample_loop (Suc i) xs (if x > snd best then (i, x) else best)"

definition greedy_token :: "double list \<Rightarrow> nat option" where
  "greedy_token logits = (case logits of [] \<Rightarrow> None | x # xs \<Rightarrow> Some (sample_loop 1 xs (0, x)))"

text \<open>Casts to \<open>int32_t\<close>.\<close>

definition to_i32 :: "int \<Rightarrow> i32" where
  "to_i32 i = sint (word_of_int i :: u32)"

text \<open>The batch for the hidden states of the first input: its four-byte numbers are counted, and at most \<open>n_tokens\<close> entries written.\<close>

definition input_batch :: "nat \<Rightarrow> run_request \<Rightarrow> named_tensor \<Rightarrow> llama_entry list" where
  "input_batch n_tokens request first_input =
     (let count = length (tn_data (nt_value first_input)) div 4
      in map (\<lambda>i. \<lparr>le_token = to_i32 (int i), le_pos = to_i32 (uint (rr_token_position request + of_nat i)),
                    le_logits = (i = count - 1)\<rparr>) [0 ..< min count n_tokens])"

definition llama_batch_of :: "'w llama_api \<Rightarrow> run_request \<Rightarrow> nat \<times> llama_entry list" where
  "llama_batch_of api request =
     (case rr_inputs request of
        first_input # _ \<Rightarrow>
          (let n = la_batch_init api (length (tn_data (nt_value first_input)) div 4) in (n, input_batch n request first_input))
      | [] \<Rightarrow> (la_batch_init api 1,
            [\<lparr>le_token = 0, le_pos = to_i32 (uint (rr_token_position request)), le_logits = True\<rparr>]))"

definition llama_run_layers ::
  "'w llama_api \<Rightarrow> bool \<Rightarrow> run_request \<Rightarrow> bool \<Rightarrow> 'w \<Rightarrow> (run_result result \<times> 'w) option" where
  "llama_run_layers api ctx request stop w =
     (if stop then Some (Err kCancelled ''llama run cancelled'', w)
      else if \<not> ctx then Some (Err kFailedPrecondition ''llama context not initialized'', w)
      else
        let (n, entries) = llama_batch_of api request; (status, w') = la_decode api n entries w
        in if status \<noteq> 0 then Some (Err kInternal ''llama decode failed'', w')
           else case greedy_token (la_logits api w') of
             None \<Rightarrow> None
           | Some t \<Rightarrow> Some (Ok \<lparr>ro_outputs = [], ro_token_id = Some (to_i32 (int t)), ro_elapsed_us = la_elapsed_us api w'\<rparr>, w'))"

section \<open>Sessions\<close>

text \<open>The sessions of the other backends, and of llama.cpp when it is not built in, have constant answers.\<close>

datatype engine_session = LlamaSession session_id | SimulatedLlamaSession session_id | MlxSession | ExecuTorchSession | LiteRtSession

definition constant_run :: "string \<Rightarrow> i32 \<Rightarrow> int \<Rightarrow> bool \<Rightarrow> run_result result" where
  "constant_run msg token elapsed stop =
     (if stop then Err kCancelled msg else Ok \<lparr>ro_outputs = [], ro_token_id = Some token, ro_elapsed_us = elapsed\<rparr>)"

fun engine_run_layers ::
  "'w llama_api \<Rightarrow> engine_session \<Rightarrow> run_request \<Rightarrow> bool \<Rightarrow> 'w \<Rightarrow> (run_result result \<times> 'w) option" where
  "engine_run_layers api (LlamaSession sid) request stop w = llama_run_layers api True request stop w"
| "engine_run_layers api (SimulatedLlamaSession sid) request stop w = Some (constant_run ''llama run cancelled'' 42 500 stop, w)"
| "engine_run_layers api MlxSession request stop w = Some (constant_run ''mlx run cancelled'' 55 200 stop, w)"
| "engine_run_layers api ExecuTorchSession request stop w = Some (constant_run ''executorch run cancelled'' 99 300 stop, w)"
| "engine_run_layers api LiteRtSession request stop w = Some (constant_run ''litert run cancelled'' 64 350 stop, w)"

section \<open>Backends\<close>

definition llama_capability :: "engine_build \<Rightarrow> backend_capability" where
  "llama_capability bld = \<lparr>bc_kind = kLlamaCpp, bc_version = (if eb_llama bld then ''llama.cpp'' else ''0.3.0-simulated''),
     bc_quantizations = [quantization_of kFp16, quantization_of kInt8, quantization_with kInt4 kPerGroup kActFp16 128],
     bc_compute_units = [kCpu, kGpu], bc_allows_cpu_fallback = False\<rparr>"

definition mlx_capability :: backend_capability where
  "mlx_capability = \<lparr>bc_kind = kMlx, bc_version = ''0.20.0'',
     bc_quantizations = [quantization_of kFp16, quantization_with kInt4 kPerGroup kActFp16 128, quantization_with kInt8 kPerChannel kActFp16 128],
     bc_compute_units = [kGpu, kNpu], bc_allows_cpu_fallback = True\<rparr>"

definition executorch_capability :: "bool \<Rightarrow> backend_capability" where
  "executorch_capability cpu_fallback = \<lparr>bc_kind = (if cpu_fallback then kExecuTorchCpu else kExecuTorchQnn), bc_version = ''0.4.0'',
     bc_quantizations = [quantization_of kFp16, quantization_of kInt8],
     bc_compute_units = (if cpu_fallback then [kCpu] else [kNpu]), bc_allows_cpu_fallback = (\<not> cpu_fallback)\<rparr>"

definition litert_capability :: backend_capability where
  "litert_capability = \<lparr>bc_kind = kLiteRt, bc_version = ''1.0.0'',
     bc_quantizations = [quantization_of kFp16, quantization_of kInt8, quantization_with kInt4 kPerGroup kActInt16 128],
     bc_compute_units = [kGpu, kNpu], bc_allows_cpu_fallback = True\<rparr>"

fun engine_capability :: "engine_build \<Rightarrow> backend_kind \<Rightarrow> backend_capability result" where
  "engine_capability bld kLlamaCpp = Ok (llama_capability bld)"
| "engine_capability bld kMlx = Ok mlx_capability"
| "engine_capability bld kExecuTorchQnn = Ok (executorch_capability False)"
| "engine_capability bld kExecuTorchCpu = Ok (executorch_capability True)"
| "engine_capability bld kLiteRt = Ok litert_capability"

definition has_option :: "string \<Rightarrow> load_options \<Rightarrow> bool" where
  "has_option k o' \<longleftrightarrow> map_of (lo_backend_options o') k \<noteq> None"

text \<open>\<open>count(k) ? std::stoi(at(k)) : d\<close>.\<close>

definition int_option :: "string \<Rightarrow> int \<Rightarrow> load_options \<Rightarrow> int option" where
  "int_option k d o' = (case map_of (lo_backend_options o') k of None \<Rightarrow> Some d | Some s \<Rightarrow> stoi s)"

definition llama_load ::
  "'w llama_api \<Rightarrow> engine_build \<Rightarrow> shard_lease \<Rightarrow> load_options \<Rightarrow> bool \<Rightarrow> 'w \<Rightarrow> engine_session result option" where
  "llama_load api bld shard o' stop w =
     (let sid = sl_shard_id shard @ ''-session'' in
      if stop then Some (Err kCancelled ''llama load cancelled'')
      else if \<not> eb_llama bld then Some (Ok (SimulatedLlamaSession sid))
      else case int_option ''n_gpu_layers'' 0 o' of
        None \<Rightarrow> None
      | Some gpu \<Rightarrow>
          if \<not> la_load_model api (sl_path shard) gpu w
          then Some (Err kUnavailable (''Failed to load llama model: '' @ sl_path shard))
          else (case int_option ''n_threads'' 4 o' of
                  None \<Rightarrow> None
                | Some t \<Rightarrow>
                    (case int_option ''n_threads_batch'' t o' of
                       None \<Rightarrow> None
                     | Some tb \<Rightarrow>
                         if \<not> la_init_context api t tb w then Some (Err kResourceExhausted ''Failed to create llama context'')
                         else Some (Ok (LlamaSession sid)))))"

definition mlx_load :: "engine_build \<Rightarrow> load_options \<Rightarrow> bool \<Rightarrow> engine_session result" where
  "mlx_load bld o' stop =
     (if stop then Err kCancelled ''mlx load cancelled''
      else if \<not> eb_mlx_disabled bld \<and> eb_apple bld \<and> has_option ''mlx_init_fail'' o'
      then Err kUnavailable ''MLX GPU/ANE initialization failed''
      else Ok MlxSession)"

definition executorch_load :: "engine_build \<Rightarrow> bool \<Rightarrow> load_options \<Rightarrow> bool \<Rightarrow> engine_session result" where
  "executorch_load bld cpu_fallback o' stop =
     (if stop then Err kCancelled ''executorch load cancelled''
      else if \<not> eb_qnn bld \<and> \<not> cpu_fallback
      then Err kUnavailable ''QNN SDK not found - install Qualcomm QNN SDK for Hexagon NPU. Falling back to CPU.''
      else if \<not> cpu_fallback \<and> has_option ''qnn_init_fail'' o' then Err kUnavailable ''QNN initialization failed''
      else Ok ExecuTorchSession)"

definition litert_load :: "engine_build \<Rightarrow> load_options \<Rightarrow> bool \<Rightarrow> engine_session result" where
  "litert_load bld o' stop =
     (if stop then Err kCancelled ''litert load cancelled''
      else if \<not> eb_windows bld \<or> \<not> eb_litert bld
      then Err kUnavailable ''LiteRT SDK not found - install Windows AI SDK for NPU acceleration. Falling back to llama.cpp CPU.''
      else if \<not> eb_litert_disabled bld \<and> eb_windows bld \<and> has_option ''litert_init_fail'' o'
      then Err kUnavailable ''LiteRT NPU/GPU initialization failed''
      else Ok LiteRtSession)"

fun engine_load ::
  "'w llama_api \<Rightarrow> engine_build \<Rightarrow> backend_kind \<Rightarrow> shard_lease \<Rightarrow> load_options \<Rightarrow> bool \<Rightarrow> 'w \<Rightarrow> engine_session result option" where
  "engine_load api bld kLlamaCpp shard o' stop w = llama_load api bld shard o' stop w"
| "engine_load api bld kMlx shard o' stop w = Some (mlx_load bld o' stop)"
| "engine_load api bld kExecuTorchQnn shard o' stop w = Some (executorch_load bld False o' stop)"
| "engine_load api bld kExecuTorchCpu shard o' stop w = Some (executorch_load bld True o' stop)"
| "engine_load api bld kLiteRt shard o' stop w = Some (litert_load bld o' stop)"

section \<open>Properties\<close>

text \<open>Where the loop stands: the best index so far is the first maximum of the part that was read.\<close>

definition first_max :: "double list \<Rightarrow> nat \<Rightarrow> nat \<Rightarrow> bool" where
  "first_max ls n t \<longleftrightarrow> t < n \<and> (\<forall>j < n. ls ! j \<le> ls ! t) \<and> (\<forall>j < t. ls ! j < ls ! t)"

lemma first_max_step:
  assumes "first_max ls n b"
  shows "first_max ls (Suc n) (if ls ! n > ls ! b then n else b)"
  using assms by (auto simp: first_max_def less_Suc_eq intro: order.strict_implies_order order.strict_trans1)

lemma sample_loop_spec:
  "first_max ls n b \<Longrightarrow> n \<le> length ls \<Longrightarrow> first_max ls (length ls) (sample_loop n (drop n ls) (b, ls ! b))"
proof (induction "length ls - n" arbitrary: n b)
  case 0
  then show ?case by simp
next
  case (Suc k)
  then have n: "n < length ls" by simp
  then have d: "drop n ls = ls ! n # drop (Suc n) ls" by (simp add: Cons_nth_drop_Suc)
  let ?b = "if ls ! n > ls ! b then n else b"
  have "(if ls ! n > ls ! b then (n, ls ! n) else (b, ls ! b)) = (?b, ls ! ?b)" by simp
  then have "sample_loop n (drop n ls) (b, ls ! b) = sample_loop (Suc n) (drop (Suc n) ls) (?b, ls ! ?b)"
    unfolding d by (simp only: sample_loop.simps snd_conv)
  moreover have "first_max ls (length ls) (sample_loop (Suc n) (drop (Suc n) ls) (?b, ls ! ?b))"
    using Suc n by (intro Suc.hyps(1) first_max_step) auto
  ultimately show ?case by (simp only:)
qed

text \<open>Greedy sampling picks the first of the tokens with the greatest logit.\<close>

theorem greedy_token_first_maximum:
  "greedy_token ls = Some t \<longleftrightarrow>
     t < length ls \<and> (\<forall>j < length ls. ls ! j \<le> ls ! t) \<and> (\<forall>j < t. ls ! j < ls ! t)"
proof (cases ls)
  case Nil
  then show ?thesis by (simp add: greedy_token_def)
next
  case (Cons x xs)
  let ?g = "sample_loop 1 xs (0, x)"
  have "first_max ls 1 0" by (simp add: first_max_def)
  then have "first_max ls (length ls) ?g"
    using sample_loop_spec [of ls 1 0] Cons by simp
  then have g: "?g < length ls \<and> (\<forall>j < length ls. ls ! j \<le> ls ! ?g) \<and> (\<forall>j < ?g. ls ! j < ls ! ?g)"
    by (simp add: first_max_def)
  have unique: "t = ?g" if "t < length ls" "\<forall>j < length ls. ls ! j \<le> ls ! t" "\<forall>j < t. ls ! j < ls ! t"
    using g that by (metis linorder_neqE_nat not_less)
  have "greedy_token ls = Some ?g" using Cons by (simp add: greedy_token_def)
  then show ?thesis using g unique by auto
qed

text \<open>
  A fresh batch has no tokens, and the session never sets their number. Where decoding a batch without tokens fails,
  as the documentation of llama.cpp has it, no run of a llama.cpp session succeeds, whatever its input.
\<close>

theorem llama_session_never_runs:
  assumes fresh: "\<And>n. la_batch_init api n = 0" and empty: "\<And>es w. fst (la_decode api 0 es w) \<noteq> 0"
  shows "\<exists>w'. engine_run_layers api (LlamaSession sid) request stop w =
    Some (if stop then Err kCancelled ''llama run cancelled'' else Err kInternal ''llama decode failed'', w')"
proof -
  have "fst (llama_batch_of api request) = 0" by (simp add: llama_batch_of_def fresh Let_def split: list.split)
  then obtain es where es: "llama_batch_of api request = (0, es)" by (cases "llama_batch_of api request") auto
  obtain st w1 where d: "la_decode api 0 es w = (st, w1)" by (cases "la_decode api 0 es w") auto
  with empty [of es w] have "st \<noteq> 0" by simp
  with es d show ?thesis by (simp add: llama_run_layers_def)
qed

lemma fallback_reaches_last:
  assumes "is_ok (capability b)" "\<And>w. is_ok (fst (load b w))"
  shows "is_ok (fst (load_model_with_fallback capability load (pre @ [b]) w))"
  using assms
proof (induction pre arbitrary: w)
  case Nil
  then show ?case by (auto split: prod.split sum.split simp: is_ok_def) (metis (no_types) fst_conv sum.case(1))
next
  case (Cons a pre)
  then show ?case by (auto split: prod.split sum.split)
qed

text \<open>
  On every platform and with every build, some backend of the chain loads a model that was not cancelled, since
  the last one always does.
\<close>

theorem fallback_always_loads:
  assumes "lo_backend_options o' = []"
  shows "is_ok (fst (load_model_with_fallback (engine_capability bld) (\<lambda>k w. (the (engine_load api bld k shard o' False w), w))
    (snd (build_backend_fallback_chain fl (\<lambda>k. k) reg)) w))"
proof -
  have "\<exists>pre. chain_kinds fl = pre @ [kExecuTorchCpu]" by (simp add: chain_kinds_def)
  then obtain pre where "chain_kinds fl = pre @ [kExecuTorchCpu]" by blast
  then show ?thesis
    by (simp add: build_chain_eq fallback_reaches_last executorch_load_def)
qed

lemma engine_load_total: "lo_backend_options o' = [] \<Longrightarrow> engine_load api bld k shard o' stop w \<noteq> None"
  by (cases k) (simp_all add: llama_load_def int_option_def Let_def)

section \<open>Examples\<close>

theorem greedy_token_first_maximum_witness: "greedy_token [1, 3, 2, 3] = Some 1"
proof -
  have "\<not> (\<exists>j < length [1, 3, 2, 3 :: double]. \<not> [1, 3, 2, 3] ! j \<le> [1, 3, 2, 3 :: double] ! 1)"
    by (simp add: less_Suc_eq nth_Cons' numeral_eq_Suc)
  then show ?thesis using greedy_token_first_maximum [of "[1, 3, 2, 3]" 1] by auto
qed

text \<open>An instance of llama.cpp that decodes every batch with tokens.\<close>

definition example_llama :: "nat llama_api" where
  "example_llama = \<lparr>la_batch_init = (\<lambda>_. 0), la_decode = (\<lambda>n es w. (if n = 0 then -1 else 0, Suc w)), la_logits = (\<lambda>_. [0, 1]),
     la_load_model = (\<lambda>_ _ _. True), la_init_context = (\<lambda>_ _ _. True), la_elapsed_us = (\<lambda>_. 10)\<rparr>"

definition example_build :: engine_build where
  "example_build = \<lparr>eb_llama = True, eb_qnn = False, eb_apple = False, eb_windows = False, eb_litert = False,
     eb_mlx_disabled = False, eb_litert_disabled = False\<rparr>"

definition example_run_request :: run_request where
  "example_run_request = \<lparr>rr_request_id = ''r'', rr_session_id = ''s'', rr_stage_id = ''st'', rr_input_boundary_id = [],
     rr_output_boundary_id = [], rr_inputs = [], rr_layers = None, rr_token_position = 0, rr_deadline = 0\<rparr>"

theorem llama_session_never_runs_witness:
  "\<exists>w'. engine_run_layers example_llama (LlamaSession ''s'') example_run_request False 0 = Some (Err kInternal ''llama decode failed'', w')"
  using llama_session_never_runs [of example_llama "''s''" example_run_request False 0] by (simp add: example_llama_def)

theorem fallback_always_loads_witness:
  "is_ok (fst (load_model_with_fallback (engine_capability example_build)
    (\<lambda>k w. (the (engine_load example_llama example_build k \<lparr>sl_shard_id = ''s'', sl_path = ''p'', sl_size_bytes = 1\<rparr>
       (stage_load_options default_stage) False w), w))
    (snd (build_backend_fallback_chain \<lparr>bf_platform = OtherPlatform, bf_qnn = False, bf_litert = False, bf_llama = True\<rparr>
       (\<lambda>k. k) Map.empty)) 0))"
  by (rule fallback_always_loads) (simp add: stage_load_options_def)

end
