(* ===== verification/Profiler.thy ===== *)
theory Profiler
  imports Types
begin

text \<open>
  \<^verbatim>\<open>src/profiler\<close>: what a node reports about itself. The files of the operating system that the Linux and Android probes
  read are given by their lines (\<open>None\<close>: cannot be opened), clock readings are arguments. The outer \<open>None\<close>
  is an exception of the standard library, or a conversion without a defined result.
\<close>

section \<open>Reading the operating system\<close>

type_synonym os_files = "string \<Rightarrow> string list option"

definition file_lines :: "os_files \<Rightarrow> string \<Rightarrow> string list" where
  "file_lines fs path = (case fs path of None \<Rightarrow> [] | Some ls \<Rightarrow> ls)"

text \<open>\<open>std::getline\<close> once, and \<open>is >> n\<close> on a text: 0 when there is no number, the greatest value when it is too large.\<close>

definition first_line :: "string list \<Rightarrow> string" where
  "first_line ls = (case ls of [] \<Rightarrow> [] | l # _ \<Rightarrow> l)"

definition read_u64 :: "string \<Rightarrow> u64" where
  "read_u64 s =
     (case parse_number s of
        None \<Rightarrow> 0
      | Some (neg, n) \<Rightarrow> if n \<ge> 2 ^ 64 then - 1 else if neg then - of_nat n else of_nat n)"

definition read_u64_file :: "os_files \<Rightarrow> string \<Rightarrow> u64" where
  "read_u64_file fs path = read_u64 (concat (map (\<lambda>l. l @ ''\<newline>'') (file_lines fs path)))"

text \<open>\<open>iss >> label >> kb\<close>.\<close>

definition labelled_kb :: "string \<Rightarrow> u64" where
  "labelled_kb line = read_u64 (dropWhile (\<lambda>c. \<not> is_space_char c) (dropWhile is_space_char line))"

definition blank :: "char \<Rightarrow> bool" where
  "blank c \<longleftrightarrow> c = CHR 0x20 \<or> c = CHR 0x09"

text \<open>The value after the colon of the first line with the key; \<open>substr(npos)\<close> throws when there is none.\<close>

fun cpu_model_in :: "string \<Rightarrow> string \<Rightarrow> string list \<Rightarrow> string option" where
  "cpu_model_in key fallback [] = Some fallback"
| "cpu_model_in key fallback (line # lines) =
     (if \<not> contains_str line key then cpu_model_in key fallback lines
      else case str_find line '':'' 0 of
        None \<Rightarrow> cpu_model_in key fallback lines
      | Some col \<Rightarrow>
          (case dropWhile blank (drop (col + 1) line) of [] \<Rightarrow> None | rest \<Rightarrow> Some rest))"

definition meminfo :: "string \<Rightarrow> os_files \<Rightarrow> u64 option" where
  "meminfo key fs = map_option (\<lambda>line. labelled_kb line * 1024) (List.find (\<lambda>l. contains_str l key) (file_lines fs ''/proc/meminfo''))"

section \<open>Linux\<close>

definition linux_cpu_model :: "os_files \<Rightarrow> string option" where
  "linux_cpu_model fs = cpu_model_in ''model name'' ''x86_64'' (file_lines fs ''/proc/cpuinfo'')"

definition linux_total_ram :: "os_files \<Rightarrow> u64 option" where
  "linux_total_ram fs =
     (let fallback = (case meminfo ''MemTotal'' fs of None \<Rightarrow> 8 * 1024 * 1024 * 1024 | Some n \<Rightarrow> n) in
      case fs ''/sys/fs/cgroup/memory.max'' of
        None \<Rightarrow> Some fallback
      | Some ls \<Rightarrow> if first_line ls \<noteq> ''max'' then stoul (first_line ls) else Some fallback)"

definition linux_available_ram :: "os_files \<Rightarrow> u64 option" where
  "linux_available_ram fs =
     (case fs ''/sys/fs/cgroup/memory.current'' of
        None \<Rightarrow> map_option (\<lambda>total. total div 2) (linux_total_ram fs)
      | Some _ \<Rightarrow>
          (let current = read_u64_file fs ''/sys/fs/cgroup/memory.current''
           in map_option (\<lambda>total. if total > current then total - current else 0) (linux_total_ram fs)))"

definition linux_accelerators :: "os_files \<Rightarrow> string list" where
  "linux_accelerators fs =
     (case fs ''/proc/driver/nvidia/gpus/0/information'' of
        None \<Rightarrow> [] | Some ls \<Rightarrow> [''NVIDIA GPU: '' @ first_line ls]) @
     (case fs ''/sys/class/drm/card0/device/vendor'' of
        None \<Rightarrow> [] | Some ls \<Rightarrow> if contains_str (first_line ls) ''0x8086'' then [''Intel GPU (i915)''] else [])"

text \<open>The text between the first two quotes after the equals sign.\<close>

fun linux_os_name_in :: "string list \<Rightarrow> string" where
  "linux_os_name_in [] = ''Linux''"
| "linux_os_name_in (line # lines) =
     (if \<not> contains_str line ''PRETTY_NAME'' then linux_os_name_in lines
      else case str_find line ''='' 0 of
        None \<Rightarrow> linux_os_name_in lines
      | Some eq \<Rightarrow>
          (case str_find line [CHR 0x22] eq of
             None \<Rightarrow> linux_os_name_in lines
           | Some start \<Rightarrow>
               (case str_find line [CHR 0x22] (start + 1) of
                  None \<Rightarrow> linux_os_name_in lines
                | Some stop \<Rightarrow> substr line (start + 1) (stop - start - 1))))"

definition linux_primary_backend :: backend_capability where
  "linux_primary_backend = \<lparr>bc_kind = kLlamaCpp, bc_version = ''0.3.0+cuda12'',
     bc_quantizations = [quantization_of kFp16, quantization_of kInt8, quantization_with kInt4 kPerGroup kActFp16 128],
     bc_compute_units = [kCpu, kGpu], bc_allows_cpu_fallback = True\<rparr>"

section \<open>Android\<close>

definition android_cpu_model :: "os_files \<Rightarrow> string option" where
  "android_cpu_model fs = cpu_model_in ''Hardware'' ''ARM Cortex'' (file_lines fs ''/proc/cpuinfo'')"

definition android_cpu_count :: "i64 \<Rightarrow> u32" where
  "android_cpu_count n = word_of_int (if n > 0 then n else 1)"

definition android_total_ram :: "os_files \<Rightarrow> u64" where
  "android_total_ram fs = (case meminfo ''MemTotal'' fs of None \<Rightarrow> 4 * 1024 * 1024 * 1024 | Some n \<Rightarrow> n)"

definition android_available_ram :: "os_files \<Rightarrow> u64" where
  "android_available_ram fs = (case meminfo ''MemAvailable'' fs of None \<Rightarrow> android_total_ram fs div 2 | Some n \<Rightarrow> n)"

definition opens :: "os_files \<Rightarrow> string \<Rightarrow> bool" where
  "opens fs path \<longleftrightarrow> fs path \<noteq> None"

definition android_accelerators :: "os_files \<Rightarrow> string list" where
  "android_accelerators fs =
     (case fs ''/sys/class/kgsl/kgsl-3d0/gpu_model'' of
        None \<Rightarrow> [] | Some ls \<Rightarrow> if first_line ls = [] then [] else [''Adreno GPU: '' @ first_line ls]) @
     (if opens fs ''/dev/hexagon_svm'' then [''Hexagon NPU (via /dev/hexagon_svm)''] else []) @
     (if opens fs ''/sys/devices/platform/soc'' then [''Hexagon DSP (SoC platform)''] else []) @
     (if opens fs ''/vendor/lib64/libQnnHtp.so'' \<or> opens fs ''/vendor/lib64/libQnnHtpV75.so'' \<or>
         opens fs ''/vendor/lib64/libQnnHtpV73.so'' then [''Qualcomm QNN HTP (Qualcomm AI Engine)''] else []) @
     (if opens fs ''/vendor/lib64/libQnnSystem.so'' then [''Qualcomm QNN System''] else []) @
     [''OpenGL ES GPU (detected via EGL)'']"

fun android_os_name_in :: "string list \<Rightarrow> string" where
  "android_os_name_in [] = ''Android''"
| "android_os_name_in (line # lines) =
     (if \<not> contains_str line ''ro.build.version.release'' then android_os_name_in lines
      else case str_find line ''='' 0 of
        None \<Rightarrow> android_os_name_in lines
      | Some eq \<Rightarrow> ''Android '' @ drop (eq + 1) line)"

definition make_qnn_capability :: backend_capability where
  "make_qnn_capability = \<lparr>bc_kind = kExecuTorchQnn, bc_version = ''2.28.0'',
     bc_quantizations = [quantization_of kFp16, quantization_of kInt8, quantization_with kInt4 kPerChannel kActInt16 32],
     bc_compute_units = [kNpu], bc_allows_cpu_fallback = True\<rparr>"

section \<open>The capability profiler\<close>

definition make_llama_capability :: backend_capability where
  "make_llama_capability = \<lparr>bc_kind = kLlamaCpp, bc_version = ''0.3.0'',
     bc_quantizations = [quantization_of kFp16, quantization_of kInt8, quantization_with kInt4 kPerGroup kActFp16 128],
     bc_compute_units = [kCpu], bc_allows_cpu_fallback = True\<rparr>"

definition make_executorch_capability :: backend_capability where
  "make_executorch_capability = \<lparr>bc_kind = kExecuTorchCpu, bc_version = ''0.4.0'',
     bc_quantizations = [quantization_of kFp16, quantization_of kInt8], bc_compute_units = [kCpu], bc_allows_cpu_fallback = False\<rparr>"

definition android_primary_backend :: "bool \<Rightarrow> backend_capability" where
  "android_primary_backend qnn_disabled = (if qnn_disabled then make_executorch_capability else make_qnn_capability)"

text \<open>The answers of the platform functions.\<close>

record platform_info =
  pf_total_ram :: u64
  pf_available_ram :: u64
  pf_cpu_model :: string
  pf_cpu_count :: u32
  pf_accelerators :: "string list"
  pf_primary :: backend_capability

definition inspect :: "node_id \<Rightarrow> bool \<Rightarrow> time_point \<Rightarrow> platform_info \<Rightarrow> capability_profile result" where
  "inspect local_node stop now pf =
     (if stop then Err kCancelled ''inspect cancelled''
      else Ok ((default_profile now)\<lparr>cp_node_id := local_node, cp_revision := 1, cp_measured_at := now, cp_received_at := now,
        cp_valid_for := 300000000000, cp_total_memory_bytes := pf_total_ram pf, cp_available_memory_bytes := pf_available_ram pf,
        cp_cpu_model := pf_cpu_model pf, cp_logical_cpu_count := pf_cpu_count pf, cp_accelerators := pf_accelerators pf,
        cp_backends := [make_llama_capability, make_executorch_capability] @
          (if bc_kind (pf_primary pf) \<noteq> kLlamaCpp \<and> bc_kind (pf_primary pf) \<noteq> kExecuTorchCpu then [pf_primary pf] else [])\<rparr>))"

definition benchmark :: "capability_profile \<Rightarrow> bool \<Rightarrow> time_point \<Rightarrow> capability_profile result" where
  "benchmark base stop now =
     (if stop then Err kCancelled ''benchmark cancelled''
      else Ok (base\<lparr>cp_revision := cp_revision base + 1, cp_measured_at := now, cp_received_at := now,
        cp_measured_benchmarks := cp_measured_benchmarks base @
          [\<lparr>bb_backend = kLlamaCpp, bb_quantization = quantization_of kFp16, bb_sequence_length = 512,
            bb_prefill_tokens_per_second = 150, bb_decode_tokens_per_second = 25, bb_first_token_latency_us = 120000,
            bb_peak_memory_bytes = 2 * 1024 * 1024 * 1024\<rparr>]\<rparr>))"

definition measure_network :: "time_point \<Rightarrow> bool \<Rightarrow> time_point \<Rightarrow> network_metrics result" where
  "measure_network deadline stop now =
     (if stop then Err kCancelled ''network probe cancelled''
      else if now \<ge> deadline then Err kDeadlineExceeded ''probe deadline''
      else Ok \<lparr>nm_round_trip_latency = 2000000, nm_available_bandwidth = 100000000, nm_measured_at = now\<rparr>)"

section \<open>The network profiler\<close>

record probe_config =
  pc_probe_count :: u32
  pc_probe_payload_bytes :: u64
  pc_smoothing_alpha :: double

text \<open>What one iteration of the loop reads: the cancellation flag, and the clock three times.\<close>

record probe_reading =
  pr_stop :: bool
  pr_now :: time_point
  pr_start :: time_point
  pr_end :: time_point

definition probe_rtt_us :: "probe_reading \<Rightarrow> int" where
  "probe_rtt_us p = (pr_end p - pr_start p) div 1000"

fun probe_loop :: "time_point \<Rightarrow> probe_reading list \<Rightarrow> int list \<Rightarrow> int list result" where
  "probe_loop deadline [] rtts = Ok rtts"
| "probe_loop deadline (p # ps) rtts =
     (if pr_stop p then Err kCancelled ''probe cancelled''
      else if pr_now p \<ge> deadline then Ok rtts
      else probe_loop deadline ps (rtts @ [probe_rtt_us p]))"

text \<open>The cast to \<open>int64_t\<close> drops the fraction.\<close>

definition smooth :: "double \<Rightarrow> int \<Rightarrow> int \<Rightarrow> int" where
  "smooth alpha cur prev = (let x = alpha * of_int cur + (1 - alpha) * of_int prev in if x \<ge> 0 then \<lfloor>x\<rfloor> else \<lceil>x\<rceil>)"

definition average_rtt :: "double \<Rightarrow> int list \<Rightarrow> int" where
  "average_rtt alpha rtts = fold (smooth alpha) (tl rtts) (hd rtts)"

text \<open>\<open>readings\<close> has an entry for each of the \<open>probe_count\<close> iterations; \<open>finish\<close> is the clock after the loop.\<close>

definition measure_rtt ::
  "probe_config \<Rightarrow> time_point \<Rightarrow> time_point \<Rightarrow> probe_reading list \<Rightarrow> time_point \<Rightarrow> network_metrics result option" where
  "measure_rtt cfg deadline start readings finish =
     (if start \<ge> deadline then Some (Err kDeadlineExceeded ''probe deadline before start'')
      else case probe_loop deadline (take (unat (pc_probe_count cfg)) readings) [] of
        Inl e \<Rightarrow> Some (Inl e)
      | Inr [] \<Rightarrow> Some (Err kUnavailable ''no probes completed'')
      | Inr rtts \<Rightarrow>
          (let elapsed = (finish - start) div 1000;
               total_bytes = pc_probe_payload_bytes cfg * 2 * of_nat (length rtts);
               bandwidth = (if elapsed > 0 then \<lfloor>of_int (uint total_bytes) * 1000000 / of_int elapsed :: double\<rfloor> else 0)
           in if bandwidth \<ge> 2 ^ 64 then None
              else Some (Ok \<lparr>nm_round_trip_latency = average_rtt (pc_smoothing_alpha cfg) rtts * 1000,
                     nm_available_bandwidth = word_of_int bandwidth, nm_measured_at = finish\<rparr>)))"

section \<open>Properties\<close>

lemma word_diff_le: "(c :: u64) < t \<Longrightarrow> t - c \<le> t"
  by (simp add: word_sub_le order.strict_implies_order)

lemma word_half_le: "(t :: u64) div 2 \<le> t"
  by (simp add: word_le_nat_alt unat_div)

text \<open>
  The memory a Linux node reports as available is never more than what it reports as its total, and
  the probe of one answers exactly when the other does.
\<close>

theorem available_ram_within_total:
  "case linux_available_ram fs of None \<Rightarrow> linux_total_ram fs = None
   | Some a \<Rightarrow> (case linux_total_ram fs of None \<Rightarrow> False | Some t \<Rightarrow> a \<le> t)"
  by (auto simp: linux_available_ram_def Let_def word_diff_le word_half_le split: option.splits)

lemma smooth_between:
  assumes "0 \<le> alpha" "alpha \<le> 1" "lo \<le> cur" "cur \<le> hi" "lo \<le> prev" "prev \<le> hi"
  shows "lo \<le> smooth alpha cur prev \<and> smooth alpha cur prev \<le> hi"
proof -
  let ?x = "alpha * of_int cur + (1 - alpha) * of_int prev :: double"
  have c: "of_int lo \<le> (of_int cur :: double)" "of_int cur \<le> (of_int hi :: double)"
    "of_int lo \<le> (of_int prev :: double)" "of_int prev \<le> (of_int hi :: double)"
    using assms by simp_all
  have "alpha * of_int lo + (1 - alpha) * of_int lo \<le> ?x" "?x \<le> alpha * of_int hi + (1 - alpha) * of_int hi"
    using assms(1,2) c by (intro add_mono mult_left_mono; simp)+
  then have "of_int lo \<le> ?x" "?x \<le> of_int hi" by (simp_all add: algebra_simps)
  then have a: "lo \<le> \<lfloor>?x\<rfloor>" and b: "\<lceil>?x\<rceil> \<le> hi" by (simp_all add: le_floor_iff ceiling_le_iff)
  have c: "\<lfloor>?x\<rfloor> \<le> hi" by (rule order_trans [OF floor_le_ceiling b])
  have d: "lo \<le> \<lceil>?x\<rceil>" by (rule order_trans [OF a floor_le_ceiling])
  from a b c d show ?thesis by (simp add: smooth_def Let_def)
qed

lemma fold_smooth_between:
  assumes "0 \<le> alpha" "alpha \<le> 1" "\<forall>r \<in> set rtts. lo \<le> r \<and> r \<le> hi" "lo \<le> a" "a \<le> hi"
  shows "lo \<le> fold (smooth alpha) rtts a \<and> fold (smooth alpha) rtts a \<le> hi"
  using assms(3-5)
proof (induction rtts arbitrary: a)
  case (Cons r rtts)
  have "lo \<le> smooth alpha r a \<and> smooth alpha r a \<le> hi"
    using Cons.prems by (intro smooth_between [OF assms(1,2)]) auto
  with Cons show ?case by simp
qed simp

text \<open>The smoothed round trip time lies between the shortest and the longest of the measured ones.\<close>

theorem average_rtt_between:
  assumes "0 \<le> alpha" "alpha \<le> 1" "rtts \<noteq> []"
  shows "Min (set rtts) \<le> average_rtt alpha rtts \<and> average_rtt alpha rtts \<le> Max (set rtts)"
proof -
  have "set (tl rtts) \<subseteq> set rtts" by (cases rtts) auto
  then have "\<forall>r \<in> set (tl rtts). Min (set rtts) \<le> r \<and> r \<le> Max (set rtts)" by auto
  moreover have "Min (set rtts) \<le> hd rtts" "hd rtts \<le> Max (set rtts)" using assms(3) by simp_all
  ultimately show ?thesis unfolding average_rtt_def using fold_smooth_between [OF assms(1,2)] by blast
qed

lemma probe_loop_bound:
  "probe_loop deadline ps rtts = Ok rtts' \<Longrightarrow> \<exists>qs. rtts' = rtts @ map probe_rtt_us qs \<and> set qs \<subseteq> set ps"
proof (induction deadline ps rtts rule: probe_loop.induct)
  case (2 deadline p ps rtts)
  show ?case
  proof (cases "pr_now p \<ge> deadline")
    case True
    with 2 show ?thesis by (intro exI [of _ "[]"]) (auto split: if_splits)
  next
    case False
    with 2 obtain qs where "rtts' = (rtts @ [probe_rtt_us p]) @ map probe_rtt_us qs" "set qs \<subseteq> set ps"
      by (auto split: if_splits)
    then show ?thesis by (intro exI [of _ "p # qs"]) auto
  qed
qed simp

text \<open>
  Since nothing is sent between the two clock readings of a probe, every round trip takes less than a microsecond; the
  metrics that are measured then are not valid ones.
\<close>

theorem instant_probes_invalid:
  assumes "measure_rtt cfg deadline start readings finish = Some (Ok m)"
    and fast: "\<forall>p \<in> set readings. 0 \<le> pr_end p - pr_start p \<and> pr_end p - pr_start p < 1000"
    and alpha: "0 \<le> pc_smoothing_alpha cfg" "pc_smoothing_alpha cfg \<le> 1"
  shows "\<not> network_metrics_valid m"
proof -
  let ?ps = "take (unat (pc_probe_count cfg)) readings"
  obtain rtts where r: "probe_loop deadline ?ps [] = Ok rtts" "rtts \<noteq> []"
    "nm_round_trip_latency m = average_rtt (pc_smoothing_alpha cfg) rtts * 1000"
    using assms(1) by (auto simp: measure_rtt_def Let_def split: if_splits sum.splits list.splits)
  then obtain qs where q: "rtts = map probe_rtt_us qs" "set qs \<subseteq> set ?ps" using probe_loop_bound by fastforce
  have "probe_rtt_us p = 0" if "p \<in> set qs" for p
    using q(2) fast that set_take_subset [of "unat (pc_probe_count cfg)" readings] by (auto simp: probe_rtt_us_def)
  then have z: "\<forall>r \<in> set rtts. (0 :: int) \<le> r \<and> r \<le> 0" using q(1) by auto
  have "set (tl rtts) \<subseteq> set rtts" "hd rtts \<in> set rtts" using r(2) by (cases rtts; auto)+
  then have "average_rtt (pc_smoothing_alpha cfg) rtts = 0"
    unfolding average_rtt_def using fold_smooth_between [OF alpha, of "tl rtts" 0 0 "hd rtts"] z by force
  then show ?thesis using r(3) by (simp add: network_metrics_valid_def)
qed

text \<open>A profile names every kind of backend at most once, and always the two that run on the CPU.\<close>

theorem inspected_backends:
  "inspect n stop now pf = Ok p \<Longrightarrow>
     distinct (map bc_kind (cp_backends p)) \<and> {kLlamaCpp, kExecuTorchCpu} \<subseteq> set (map bc_kind (cp_backends p)) \<and> \<not> stop"
  by (auto simp: inspect_def make_llama_capability_def make_executorch_capability_def split: if_splits)

section \<open>Examples\<close>

definition demo_probes :: "probe_reading list" where
  "demo_probes = replicate 3 \<lparr>pr_stop = False, pr_now = 5, pr_start = 6, pr_end = 7\<rparr>"

definition demo_probe_config :: probe_config where
  "demo_probe_config = \<lparr>pc_probe_count = 3, pc_probe_payload_bytes = 1024, pc_smoothing_alpha = 3 / 10\<rparr>"

theorem average_rtt_between_witness: "Min {100, 200} \<le> average_rtt (3 / 10) [100, 200] \<and> average_rtt (3 / 10) [100, 200] \<le> Max {100, 200}"
  using average_rtt_between [of "3 / 10" "[100, 200]"] by simp

theorem instant_probes_invalid_witness:
  "\<exists>m. measure_rtt demo_probe_config 100000 0 demo_probes 9000 = Some (Ok m) \<and> \<not> network_metrics_valid m"
proof -
  have "case measure_rtt demo_probe_config 100000 0 demo_probes 9000 of Some (Inr m) \<Rightarrow> True | _ \<Rightarrow> False"
    by code_simp
  then obtain m where m: "measure_rtt demo_probe_config 100000 0 demo_probes 9000 = Some (Ok m)"
    by (auto split: option.splits sum.splits)
  with instant_probes_invalid [OF m] show ?thesis by (simp add: demo_probes_def demo_probe_config_def)
qed

end
