(* ===== verification/Windows.thy ===== *)
theory Windows
  imports Profiler
begin

text \<open>
  \<^verbatim>\<open>src/profiler/platform/windows_profiler.cpp\<close>: the probes of the Windows build. The registry, the graphics adapters, the libraries
  and the memory status are the answers of a host; \<open>None\<close> is the exception of a string of negative length.
\<close>

record windows_host =
  wh_arm64 :: bool
  wh_processor_name :: "string option"
  wh_processors :: u32
  wh_total_phys :: u64
  wh_avail_phys :: u64
  wh_dxgi :: "(string option) option list option"
  wh_registry :: "string \<Rightarrow> bool"
  wh_library :: "string \<Rightarrow> bool"

text \<open>The name is a buffer of 256 bytes read up to the first zero byte.\<close>

definition windows_cpu_model :: "windows_host \<Rightarrow> string" where
  "windows_cpu_model h =
     (case wh_processor_name h of
        Some name \<Rightarrow> takeWhile (\<lambda>c. c \<noteq> CHR 0x00) name
      | None \<Rightarrow> if wh_arm64 h then ''ARM64'' else ''x86_64'')"

definition windows_cpu_count :: "windows_host \<Rightarrow> u32" where
  "windows_cpu_count h = wh_processors h"

definition windows_total_ram :: "windows_host \<Rightarrow> u64" where
  "windows_total_ram h = wh_total_phys h"

definition windows_available_ram :: "windows_host \<Rightarrow> u64" where
  "windows_available_ram h = wh_avail_phys h"

text \<open>
  The loop over the adapters. For one without a description nothing is added; a description that cannot be converted has length zero, and
  the string of \<open>len - 1\<close> characters throws.
\<close>

fun adapter_names :: "(string option) option list \<Rightarrow> string list option" where
  "adapter_names [] = Some []"
| "adapter_names (None # ads) = adapter_names ads"
| "adapter_names (Some None # ads) = None"
| "adapter_names (Some (Some name) # ads) = map_option ((#) (''DXGI GPU: '' @ name)) (adapter_names ads)"

definition windows_accelerators :: "windows_host \<Rightarrow> string list option" where
  "windows_accelerators h =
     map_option (\<lambda>gpus. gpus @
         (if \<not> wh_arm64 h then []
          else (if wh_registry h (''SYSTEM'' @ [CHR 0x5C] @ ''CurrentControlSet'' @ [CHR 0x5C] @ ''Enum'' @ [CHR 0x5C] @ ''QCOM'') then [''Qualcomm NPU (QCOM device node)''] else []) @
            (if wh_registry h (''SOFTWARE'' @ [CHR 0x5C] @ ''Qualcomm'' @ [CHR 0x5C] @ ''AIEngine'') then [''Qualcomm AI Engine (Hexagon NPU + QNN)''] else []) @
            (if wh_library h ''QnnHtp.dll'' then [''Qualcomm QNN HTP (QnnHtp.dll)''] else []) @
            (if wh_library h ''QnnSystem.dll'' then [''Qualcomm QNN System (QnnSystem.dll)''] else []) @
            (if wh_library h ''DirectML.dll'' then [''Windows AI NPU (DirectML)''] else [])))
       (case wh_dxgi h of None \<Rightarrow> Some [] | Some ads \<Rightarrow> adapter_names ads)"

definition windows_os_name :: string where
  "windows_os_name = ''Windows''"

definition windows_qnn_capability :: backend_capability where
  "windows_qnn_capability = \<lparr>bc_kind = kExecuTorchQnn, bc_version = ''2.28.0'',
     bc_quantizations = [quantization_of kFp16, quantization_of kInt8, quantization_with kInt4 kPerChannel kActInt16 32],
     bc_compute_units = [kNpu], bc_allows_cpu_fallback = True\<rparr>"

definition make_litert_capability :: backend_capability where
  "make_litert_capability = \<lparr>bc_kind = kLiteRt, bc_version = ''1.0.0'',
     bc_quantizations = [quantization_of kFp16, quantization_of kInt8, quantization_with kInt4 kPerGroup kActInt16 128],
     bc_compute_units = [kGpu, kNpu], bc_allows_cpu_fallback = True\<rparr>"

definition windows_cpu_capability :: backend_capability where
  "windows_cpu_capability = \<lparr>bc_kind = kExecuTorchCpu, bc_version = ''0.4.0'',
     bc_quantizations = [quantization_of kFp16, quantization_of kInt8], bc_compute_units = [kCpu], bc_allows_cpu_fallback = False\<rparr>"

definition windows_primary_backend :: "bool \<Rightarrow> bool \<Rightarrow> bool \<Rightarrow> backend_capability" where
  "windows_primary_backend arm64 qnn_disabled litert_disabled =
     (if arm64 \<and> \<not> qnn_disabled then windows_qnn_capability
      else if \<not> litert_disabled then make_litert_capability
      else windows_cpu_capability)"

definition windows_platform :: "windows_host \<Rightarrow> bool \<Rightarrow> bool \<Rightarrow> platform_info option" where
  "windows_platform h qnn_disabled litert_disabled =
     map_option (\<lambda>accel. \<lparr>pf_total_ram = windows_total_ram h, pf_available_ram = windows_available_ram h, pf_cpu_model = windows_cpu_model h,
         pf_cpu_count = windows_cpu_count h, pf_accelerators = accel,
         pf_primary = windows_primary_backend (wh_arm64 h) qnn_disabled litert_disabled\<rparr>)
       (windows_accelerators h)"

lemma adapter_names_None: "adapter_names ads = None \<longleftrightarrow> Some None \<in> set ads"
  by (induction ads rule: adapter_names.induct) auto

text \<open>
  The inspection of a Windows machine ends unless an adapter has a description that cannot be converted. Its profile then always has llama.cpp and the
  CPU backend, and a third backend exactly when the build has one for the machine: QNN only on ARM, LiteRT otherwise.
\<close>

theorem windows_inspection:
  "(windows_platform h qnn_disabled litert_disabled = None \<longleftrightarrow> (\<exists>ads. wh_dxgi h = Some ads \<and> Some None \<in> set ads)) \<and>
   (windows_platform h qnn_disabled litert_disabled = Some pf \<longrightarrow>
      (\<exists>p. inspect node False now pf = Ok p \<and> map bc_kind (cp_backends p) = [kLlamaCpp, kExecuTorchCpu] @
        (if wh_arm64 h \<and> \<not> qnn_disabled then [kExecuTorchQnn] else if \<not> litert_disabled then [kLiteRt] else [])))"
proof
  show "windows_platform h qnn_disabled litert_disabled = None \<longleftrightarrow> (\<exists>ads. wh_dxgi h = Some ads \<and> Some None \<in> set ads)"
    by (auto simp: windows_platform_def windows_accelerators_def adapter_names_None split: option.split)
  show "windows_platform h qnn_disabled litert_disabled = Some pf \<longrightarrow>
      (\<exists>p. inspect node False now pf = Ok p \<and> map bc_kind (cp_backends p) = [kLlamaCpp, kExecuTorchCpu] @
        (if wh_arm64 h \<and> \<not> qnn_disabled then [kExecuTorchQnn] else if \<not> litert_disabled then [kLiteRt] else []))"
    by (auto simp: windows_platform_def inspect_def windows_primary_backend_def windows_qnn_capability_def make_litert_capability_def
        windows_cpu_capability_def make_llama_capability_def make_executorch_capability_def)
qed

definition demo_windows :: windows_host where
  "demo_windows = \<lparr>wh_arm64 = False, wh_processor_name = None, wh_processors = 8, wh_total_phys = 100, wh_avail_phys = 50,
     wh_dxgi = Some [Some (Some ''GPU'')], wh_registry = (\<lambda>_. False), wh_library = (\<lambda>_. False)\<rparr>"

theorem windows_inspection_witness:
  "\<exists>pf p. windows_platform demo_windows False False = Some pf \<and> inspect ''n'' False 0 pf = Ok p \<and>
     map bc_kind (cp_backends p) = [kLlamaCpp, kExecuTorchCpu, kLiteRt]"
proof -
  have "windows_platform demo_windows False False \<noteq> None"
    using windows_inspection [of demo_windows False False] by (auto simp: demo_windows_def)
  then obtain pf where pf: "windows_platform demo_windows False False = Some pf" by blast
  with windows_inspection [of demo_windows False False pf "''n''" 0] show ?thesis by (auto simp: demo_windows_def)
qed

end
