(* ===== verification/Printing.thy ===== *)
theory Printing
  imports Json
begin

text \<open>
  Text written piece by piece with the stream operators of C++: numbers, in_quotes names and lists with commas. The C binding
  and the trace recorder write their JSON in this way.
\<close>

section \<open>Numbers\<close>

text \<open>
  \<open>os << x\<close> for a \<open>double\<close>: six significant digits without trailing zeros, in scientific notation
  when the decimal exponent is below -4 or above 5.
\<close>

definition half_even :: "double \<Rightarrow> int" where
  "half_even x = (let f = \<lfloor>x\<rfloor>; d = x - of_int f in if d < 1 / 2 \<or> d = 1 / 2 \<and> even f then f else f + 1)"

definition pow10 :: "int \<Rightarrow> double" where
  "pow10 e = (if 0 \<le> e then 10 ^ nat e else 1 / 10 ^ nat (- e))"

definition dec_exponent :: "double \<Rightarrow> int option" where
  "dec_exponent x = List.find (\<lambda>e. pow10 e \<le> x \<and> x < pow10 (e + 1)) [-324 .. 308]"

definition strip_zeros :: "string \<Rightarrow> string" where
  "strip_zeros s = rev (dropWhile (\<lambda>c. c = CHR ''0'') (rev s))"

definition with_fraction :: "string \<Rightarrow> string \<Rightarrow> string" where
  "with_fraction whole fr = (let f = strip_zeros fr in if f = [] then whole else whole @ ''.'' @ f)"

definition six_digits :: "double \<Rightarrow> int \<Rightarrow> string" where
  "six_digits x e =
     (let m = half_even (x / pow10 (e - 5)); (m', e') = (if m = 10 ^ 6 then (10 ^ 5, e + 1) else (m, e)); ds = dec (nat m')
      in if - 4 \<le> e' \<and> e' < 6
         then if 0 \<le> e' then with_fraction (take (nat e' + 1) ds) (drop (nat e' + 1) ds)
              else with_fraction ''0'' (replicate (nat (- e') - 1) CHR ''0'' @ ds)
         else with_fraction (take 1 ds) (drop 1 ds) @ ''e'' @ (if e' < 0 then ''-'' else ''+'') @
              (if \<bar>e'\<bar> < 10 then ''0'' else []) @ dec (nat \<bar>e'\<bar>))"

definition show_double :: "double \<Rightarrow> string" where
  "show_double x =
     (case dec_exponent \<bar>x\<bar> of
        None \<Rightarrow> ''0''
      | Some e \<Rightarrow> (if x < 0 then ''-'' else []) @ six_digits \<bar>x\<bar> e)"

text \<open>\<open>std::to_string\<close> of a \<open>double\<close> has six digits after the point.\<close>

definition to_string_double :: "double \<Rightarrow> string" where
  "to_string_double x =
     (let m = nat (half_even (\<bar>x\<bar> * 10 ^ 6)); fr = dec (m mod 10 ^ 6)
      in (if x < 0 then ''-'' else []) @ dec (m div 10 ^ 6) @ ''.'' @ replicate (6 - length fr) CHR ''0'' @ fr)"

definition show_bool :: "bool \<Rightarrow> string" where
  "show_bool b = (if b then ''true'' else ''false'')"

section \<open>Lists and names\<close>

text \<open>\<open>for (...) { if (i > 0) os << ","; ... }\<close>.\<close>

fun print_from :: "bool \<Rightarrow> ('a \<Rightarrow> string) \<Rightarrow> 'a list \<Rightarrow> string" where
  "print_from started f [] = []"
| "print_from started f (x # xs) = (if started then '','' else []) @ f x @ print_from True f xs"

definition in_quotes :: "string \<Rightarrow> string" where
  "in_quotes s = [quote] @ s @ [quote]"

definition key_text :: "string \<Rightarrow> string" where
  "key_text name = [quote] @ name @ [quote] @ '':''"

lemma print_from_append: "xs \<noteq> [] \<Longrightarrow> print_from st f (xs @ ys) = print_from st f xs @ print_from True f ys"
  by (induction st f xs rule: print_from.induct) (auto elim: list.exhaust, metis append_Nil print_from.simps(1) list.exhaust)

lemma print_from_map: "print_from st (\<lambda>s. s) (map f xs) = print_from st f xs"
  by (induction st f xs rule: print_from.induct) auto

lemma print_from_cong: "(\<And>x. x \<in> set xs \<Longrightarrow> f x = g x) \<Longrightarrow> print_from st f xs = print_from st g xs"
  by (induction xs arbitrary: st) auto

text \<open>What is printed for an element is part of what is printed for a list.\<close>

lemma print_from_mem: "x \<in> set xs \<Longrightarrow> \<exists>a b. print_from st f xs = a @ f x @ b"
proof (induction xs arbitrary: st)
  case (Cons y ys)
  show ?case
  proof (cases "x = y")
    case True
    then show ?thesis by (intro exI [of _ "if st then '','' else []"] exI [of _ "print_from True f ys"]) simp
  next
    case False
    then have "x \<in> set ys" using Cons.prems by simp
    then obtain a b where "print_from True f ys = a @ f x @ b" using Cons.IH [of True] by blast
    then show ?thesis by (intro exI [of _ "(if st then '','' else []) @ f y @ a"] exI [of _ b]) simp
  qed
qed simp

end
