(* ===== verification/Trace.thy ===== *)
theory Trace
  imports Types Printing "HOL-Library.AList"
begin

text \<open>
  \<^verbatim>\<open>src/trace\<close>: the span recorder of \<^verbatim>\<open>trace_recorder.cpp\<close>, and the spans and the recorder of
  \<^verbatim>\<open>tracing.cpp\<close>, of which only the second file is part of the build. Hash maps are association lists;
  the order in which they are iterated is a parameter of the export.
\<close>

section \<open>The recorder\<close>

record span_record =
  sp_span_id :: string
  sp_parent_span_id :: string
  sp_name :: string
  sp_start_time :: time_point
  sp_end_time :: time_point
  sp_attributes :: attributes
  sp_events :: "(string \<times> time_point) list"
  sp_ended :: bool

record trace_recorder =
  tr_trace_id :: string
  tr_root_start :: time_point
  tr_root_attributes :: attributes
  tr_spans :: "(string \<times> span_record) list"

definition new_trace_recorder :: "string \<Rightarrow> time_point \<Rightarrow> trace_recorder" where
  "new_trace_recorder tid now = \<lparr>tr_trace_id = tid, tr_root_start = now, tr_root_attributes = [], tr_spans = []\<rparr>"

definition set_root_attribute :: "string \<Rightarrow> string \<Rightarrow> trace_recorder \<Rightarrow> trace_recorder" where
  "set_root_attribute k v r = r\<lparr>tr_root_attributes := AList.update k v (tr_root_attributes r)\<rparr>"

definition on_span_start :: "string \<Rightarrow> string \<Rightarrow> time_point \<Rightarrow> trace_recorder \<Rightarrow> trace_recorder" where
  "on_span_start sid name start r = r\<lparr>tr_spans := AList.update sid
     \<lparr>sp_span_id = sid, sp_parent_span_id = [], sp_name = name, sp_start_time = start, sp_end_time = 0, sp_attributes = [],
      sp_events = [], sp_ended = False\<rparr> (tr_spans r)\<rparr>"

text \<open>\<open>auto it = spans_.find(id); if (it != spans_.end()) ...\<close>\<close>

definition on_found_span :: "string \<Rightarrow> (span_record \<Rightarrow> span_record) \<Rightarrow> trace_recorder \<Rightarrow> trace_recorder" where
  "on_found_span sid f r =
     (case map_of (tr_spans r) sid of None \<Rightarrow> r | Some s \<Rightarrow> r\<lparr>tr_spans := AList.update sid (f s) (tr_spans r)\<rparr>)"

definition on_span_end :: "string \<Rightarrow> time_point \<Rightarrow> trace_recorder \<Rightarrow> trace_recorder" where
  "on_span_end sid end' = on_found_span sid (\<lambda>s. s\<lparr>sp_end_time := end', sp_ended := True\<rparr>)"

definition on_span_set_attribute :: "string \<Rightarrow> string \<Rightarrow> string \<Rightarrow> trace_recorder \<Rightarrow> trace_recorder" where
  "on_span_set_attribute sid k v = on_found_span sid (\<lambda>s. s\<lparr>sp_attributes := sp_attributes s @ [(k, v)]\<rparr>)"

definition on_span_add_event :: "string \<Rightarrow> string \<Rightarrow> time_point \<Rightarrow> trace_recorder \<Rightarrow> trace_recorder" where
  "on_span_add_event sid name now = on_found_span sid (\<lambda>s. s\<lparr>sp_events := sp_events s @ [(name, now)]\<rparr>)"

section \<open>The export\<close>

definition nl :: "string \<Rightarrow> string" where
  "nl s = ''\<newline>'' @ s"

definition print_attribute :: "string \<Rightarrow> string \<times> string \<Rightarrow> string" where
  "print_attribute indent kv = nl (indent @ in_quotes (fst kv) @ '': '' @ in_quotes (snd kv))"

definition print_event :: "string \<times> time_point \<Rightarrow> string" where
  "print_event ev = nl (''        {'' @ in_quotes ''name'' @ '': '' @ in_quotes (fst ev) @ '', '' @ in_quotes ''ts_ns'' @ '': '' @
     to_string_int (snd ev) @ ''}'')"

definition print_span :: "span_record \<Rightarrow> string" where
  "print_span s = nl ''    {'' @ nl (''      '' @ in_quotes ''span_id'' @ '': '' @ in_quotes (sp_span_id s) @ '','') @
     nl (''      '' @ in_quotes ''name'' @ '': '' @ in_quotes (sp_name s) @ '','') @
     nl (''      '' @ in_quotes ''start_ns'' @ '': '' @ to_string_int (sp_start_time s) @ '','') @
     nl (''      '' @ in_quotes ''end_ns'' @ '': '' @ to_string_int (sp_end_time s) @ '','') @
     nl (''      '' @ in_quotes ''ended'' @ '': '' @ show_bool (sp_ended s) @ '','') @
     nl (''      '' @ in_quotes ''attributes'' @ '': {'') @ print_from False (print_attribute ''        '') (sp_attributes s) @ nl ''      },'' @
     nl (''      '' @ in_quotes ''events'' @ '': ['') @ print_from False print_event (sp_events s) @ nl ''      ]'' @ nl ''    }''"

definition export_json ::
  "(attributes \<Rightarrow> attributes) \<Rightarrow> ((string \<times> span_record) list \<Rightarrow> (string \<times> span_record) list) \<Rightarrow> time_point
     \<Rightarrow> trace_recorder \<Rightarrow> string" where
  "export_json attribute_order span_order now r =
     ''{'' @ nl (''  '' @ in_quotes ''trace_id'' @ '': '' @ in_quotes (tr_trace_id r) @ '','') @
     nl (''  '' @ in_quotes ''start_time_ns'' @ '': '' @ to_string_int (tr_root_start r) @ '','') @
     nl (''  '' @ in_quotes ''duration_ns'' @ '': '' @ to_string_int (now - tr_root_start r) @ '','') @
     nl (''  '' @ in_quotes ''attributes'' @ '': {'') @ print_from False (print_attribute ''    '') (attribute_order (tr_root_attributes r)) @
     nl ''  },'' @ nl (''  '' @ in_quotes ''spans'' @ '': ['') @
     print_from False (\<lambda>kv. print_span (snd kv)) (span_order (tr_spans r)) @ nl ''  ]'' @ nl ''}'' @ nl []"

section \<open>Spans\<close>

text \<open>The values of \<open>set_attribute\<close>, and the calls that reach a recorder.\<close>

datatype attribute_value = TextValue string | IntValue i64 | DoubleValue double | BoolValue bool

fun attribute_text :: "attribute_value \<Rightarrow> string" where
  "attribute_text (TextValue s) = s"
| "attribute_text (IntValue i) = to_string_int i"
| "attribute_text (DoubleValue x) = to_string_double x"
| "attribute_text (BoolValue b) = show_bool b"

datatype trace_op =
    RootAttribute string string
  | SpanStart string string time_point
  | SpanEnd string time_point
  | SpanAttribute string string string
  | SpanEvent string string time_point

fun tr_perform :: "trace_op \<Rightarrow> trace_recorder \<Rightarrow> trace_recorder" where
  "tr_perform (RootAttribute k v) r = set_root_attribute k v r"
| "tr_perform (SpanStart sid name t) r = on_span_start sid name t r"
| "tr_perform (SpanEnd sid t) r = on_span_end sid t r"
| "tr_perform (SpanAttribute sid k v) r = on_span_set_attribute sid k v r"
| "tr_perform (SpanEvent sid name t) r = on_span_add_event sid name t r"

text \<open>The recorder of the build keeps its trace id and nothing else.\<close>

fun built_perform :: "trace_op \<Rightarrow> string \<Rightarrow> string" where
  "built_perform (RootAttribute k v) tid = tid"
| "built_perform (SpanStart sid name t) tid = tid"
| "built_perform (SpanEnd sid t) tid = tid"
| "built_perform (SpanAttribute sid k v) tid = tid"
| "built_perform (SpanEvent sid name t) tid = tid"

definition make_span_id :: "u64 \<Rightarrow> string" where
  "make_span_id rng = hex (unat rng)"

text \<open>
  A \<open>TraceSpan\<close>: its constructor and its destructor, and the calls in between, attributes and events.
\<close>

fun span_call :: "string \<Rightarrow> (string \<times> attribute_value) + (string \<times> time_point) \<Rightarrow> trace_op" where
  "span_call sid (Inl (k, v)) = SpanAttribute sid k (attribute_text v)"
| "span_call sid (Inr (name, now)) = SpanEvent sid name now"

definition span_life ::
  "u64 \<Rightarrow> string \<Rightarrow> time_point \<Rightarrow> ((string \<times> attribute_value) + (string \<times> time_point)) list \<Rightarrow> time_point \<Rightarrow> trace_op list" where
  "span_life rng name start calls end' =
     SpanStart (make_span_id rng) name start # map (span_call (make_span_id rng)) calls @ [SpanEnd (make_span_id rng) end']"

section \<open>Properties\<close>

fun op_span :: "trace_op \<Rightarrow> string option" where
  "op_span (RootAttribute k v) = None"
| "op_span (SpanStart sid name t) = Some sid"
| "op_span (SpanEnd sid t) = Some sid"
| "op_span (SpanAttribute sid k v) = Some sid"
| "op_span (SpanEvent sid name t) = Some sid"

text \<open>What an operation on a span does to its own record.\<close>

fun span_step :: "trace_op \<Rightarrow> span_record option \<Rightarrow> span_record option" where
  "span_step (RootAttribute k v) s = s"
| "span_step (SpanStart sid name t) s = Some \<lparr>sp_span_id = sid, sp_parent_span_id = [], sp_name = name, sp_start_time = t,
     sp_end_time = 0, sp_attributes = [], sp_events = [], sp_ended = False\<rparr>"
| "span_step (SpanEnd sid t) s = map_option (\<lambda>s. s\<lparr>sp_end_time := t, sp_ended := True\<rparr>) s"
| "span_step (SpanAttribute sid k v) s = map_option (\<lambda>s. s\<lparr>sp_attributes := sp_attributes s @ [(k, v)]\<rparr>) s"
| "span_step (SpanEvent sid name t) s = map_option (\<lambda>s. s\<lparr>sp_events := sp_events s @ [(name, t)]\<rparr>) s"

abbreviation span_of :: "trace_recorder \<Rightarrow> string \<rightharpoonup> span_record" where
  "span_of r \<equiv> map_of (tr_spans r)"

lemma on_found_span_of: "span_of (on_found_span sid f r) = (span_of r)(sid := map_option f (span_of r sid))"
  by (cases "span_of r sid") (simp_all add: on_found_span_def update_conv' fun_upd_idem)

lemma tr_perform_span:
  "span_of (tr_perform op r) sid = (if op_span op = Some sid then span_step op (span_of r sid) else span_of r sid)"
  by (cases op) (simp_all add: set_root_attribute_def on_span_start_def on_span_end_def on_span_set_attribute_def
    on_span_add_event_def on_found_span_of update_conv')

text \<open>
  The record of a span is what the operations on this span, in their order, make of it; operations on
  other spans, however interleaved, do not matter.
\<close>

lemma replay_span:
  "span_of (fold tr_perform ops r) sid = fold span_step (filter (\<lambda>op. op_span op = Some sid) ops) (span_of r sid)"
  by (induction ops arbitrary: r) (simp_all add: tr_perform_span)

text \<open>The attributes and the events among the calls.\<close>

fun call_attributes :: "((string \<times> attribute_value) + (string \<times> time_point)) list \<Rightarrow> attributes" where
  "call_attributes [] = []"
| "call_attributes (Inl (k, v) # cs) = (k, attribute_text v) # call_attributes cs"
| "call_attributes (Inr _ # cs) = call_attributes cs"

fun call_events :: "((string \<times> attribute_value) + (string \<times> time_point)) list \<Rightarrow> (string \<times> time_point) list" where
  "call_events [] = []"
| "call_events (Inr ev # cs) = ev # call_events cs"
| "call_events (Inl _ # cs) = call_events cs"

lemma replay_calls:
  "fold span_step (map (span_call sid) calls) (Some s) =
     Some (s\<lparr>sp_attributes := sp_attributes s @ call_attributes calls, sp_events := sp_events s @ call_events calls\<rparr>)"
proof (induction calls arbitrary: s)
  case (Cons c calls)
  then show ?case by (cases c) auto
qed simp

text \<open>
  Once the object of a span has been destroyed, the record has its name, both times, and all its attributes and events in
  order, whatever other spans did meanwhile; and the record is part of the exported text in whichever order the
  maps are iterated.
\<close>

theorem destroyed_span_is_exported:
  assumes "filter (\<lambda>op. op_span op = Some (make_span_id rng)) ops = span_life rng name start calls end'"
    and order: "\<And>xs. set (span_order xs) = set xs"
  shows "\<exists>s a b. span_of (fold tr_perform ops r) (make_span_id rng) = Some s \<and> sp_name s = name \<and> sp_start_time s = start \<and>
    sp_end_time s = end' \<and> sp_ended s \<and> sp_attributes s = call_attributes calls \<and> sp_events s = call_events calls \<and>
    export_json attribute_order span_order now (fold tr_perform ops r) = a @ print_span s @ b"
proof -
  let ?r = "fold tr_perform ops r"
  obtain s where s: "span_of ?r (make_span_id rng) = Some s" "sp_name s = name" "sp_start_time s = start" "sp_end_time s = end'"
    "sp_ended s" "sp_attributes s = call_attributes calls" "sp_events s = call_events calls"
    by (simp add: replay_span assms(1) span_life_def replay_calls)
  have "(make_span_id rng, s) \<in> set (span_order (tr_spans ?r))" using order map_of_SomeD [OF s(1)] by simp
  from print_from_mem [OF this, of False "\<lambda>kv. print_span (snd kv)"] obtain a b where
    "print_from False (\<lambda>kv. print_span (snd kv)) (span_order (tr_spans ?r)) = a @ print_span s @ b" by auto
  then have "\<exists>a b. export_json attribute_order span_order now ?r = a @ print_span s @ b"
    unfolding export_json_def by (simp only: append_assoc) (metis append_assoc)
  with s show ?thesis by blast
qed

section \<open>Examples\<close>

definition demo_span_calls :: "((string \<times> attribute_value) + (string \<times> time_point)) list" where
  "demo_span_calls = [Inl (''k'', IntValue 5), Inr (''e'', 3)]"

theorem destroyed_span_is_exported_witness:
  "\<exists>s a b. span_of (fold tr_perform (SpanStart ''other'' ''x'' 0 # span_life 10 ''n'' 1 demo_span_calls 9) (new_trace_recorder ''t'' 0)) ''a''
      = Some s \<and> sp_events s = [(''e'', 3)] \<and>
    export_json (\<lambda>xs. xs) rev 9 (fold tr_perform (SpanStart ''other'' ''x'' 0 # span_life 10 ''n'' 1 demo_span_calls 9)
      (new_trace_recorder ''t'' 0)) = a @ print_span s @ b"
proof -
  have sid: "make_span_id 10 = ''a''" by (simp add: make_span_id_def hex.simps hex_digit_def, code_simp)
  have "filter (\<lambda>op. op_span op = Some (make_span_id 10)) (SpanStart ''other'' ''x'' 0 # span_life 10 ''n'' 1 demo_span_calls 9) =
      span_life 10 ''n'' 1 demo_span_calls 9"
    by (simp add: span_life_def demo_span_calls_def sid)
  from destroyed_span_is_exported [OF this, of rev "new_trace_recorder ''t'' 0" "\<lambda>xs. xs" 9] show ?thesis
    unfolding sid by (auto simp: demo_span_calls_def)
qed

end
