(* ===== verification/Binding.thy ===== *)
theory Binding
  imports Runtime
begin

text \<open>
  \<^verbatim>\<open>bindings/c/socrates.cpp\<close>: the C interface of the runtime. The one global \<open>RuntimeState\<close> is a
  record. The generation handles that a C caller holds as bare pointers are addresses of a heap, so that
  a handle can outlive its object; the pipelines of successive starts are numbered, since a handle of
  a queued generation points to the pipeline that made it. \<open>None\<close> is undefined behaviour or the end of
  the process: a null or dangling pointer followed, an exception that leaves a C function.
\<close>

section \<open>Types\<close>

text \<open>What a \<open>const char*\<close> points to: nothing, a string that lives on, or memory that is freed.\<close>

datatype c_string = NullPointer | Literal string | Freed

record socrates_error =
  se_code :: i32
  se_message :: c_string

text \<open>A null pointer is \<open>None\<close>.\<close>

record socrates_config =
  sc_version :: u32
  sc_state_directory :: "string option"
  sc_model_root :: "string option"
  sc_cluster_id :: "string option"
  sc_trust_mode :: i32
  sc_recovery_token_retention :: u32
  sc_tracing_enabled :: bool
  sc_start_as_leech :: bool
  sc_production_mode :: bool
  sc_batching_mode :: i32
  sc_max_batch_size :: u32
  sc_batch_timeout_ms :: u32
  sc_long_context_threshold :: u32
  sc_skip_discovery :: bool

datatype trust_mode = kEphemeralLocalCluster | kPinnedAllowlistMode | kPrivateCertificateAuthority

text \<open>The whole \<open>RuntimeConfig\<close>: the fields the runtime reads, and the others that the binding sets.\<close>

record binding_config =
  bg_runtime :: runtime_config
  bg_local_node :: node_id
  bg_trust_mode :: trust_mode
  bg_recovery_token_retention :: u32
  bg_tracing_enabled :: bool

text \<open>A handle: of a request in the pipeline with the given number, started at once or queued.\<close>

record generation_handle =
  gh_queued :: bool
  gh_request :: nat
  gh_pipeline :: nat

record 'db binding =
  bs_runtime :: "'db runtime option"
  bs_config :: binding_config
  bs_handles :: "(string \<times> nat) list"
  bs_heap :: "(nat \<times> generation_handle) list"
  bs_next :: nat
  bs_pipelines :: nat
  bs_initialized :: bool

record socrates_stream_event =
  cv_request_id :: string
  cv_kind :: i32
  cv_sequence :: u64
  cv_text_delta :: string
  cv_token_id :: i32

text \<open>What a call gives back: the error, the handle it wrote, the events it delivered, the state.\<close>

type_synonym 'db c_outcome = "(socrates_error \<times> 'db binding) option"

definition default_runtime_config :: runtime_config where
  "default_runtime_config = \<lparr>rc_cluster_id = [], rc_state_directory = [], rc_model_root = [], rc_production_mode = False,
     rc_skip_discovery = False, rc_batching = default_batching, rc_start_as_leech = True\<rparr>"

definition g_state :: "'db binding" where
  "g_state = \<lparr>bs_runtime = None,
     bs_config = \<lparr>bg_runtime = default_runtime_config, bg_local_node = [], bg_trust_mode = kEphemeralLocalCluster,
       bg_recovery_token_retention = 0, bg_tracing_enabled = False\<rparr>,
     bs_handles = [], bs_heap = [], bs_next = 0, bs_pipelines = 0, bs_initialized = False\<rparr>"

section \<open>Errors\<close>

fun error_value :: "error_code \<Rightarrow> i32" where
  "error_value kOk = 0"
| "error_value kCancelled = 1"
| "error_value kInvalidArgument = 2"
| "error_value kNotFound = 3"
| "error_value kAlreadyExists = 4"
| "error_value kPermissionDenied = 5"
| "error_value kResourceExhausted = 6"
| "error_value kFailedPrecondition = 7"
| "error_value kUnavailable = 8"
| "error_value kDeadlineExceeded = 9"
| "error_value kDataLoss = 10"
| "error_value kUnauthenticated = 11"
| "error_value kInternal = 12"

lemma error_value_zero: "error_value e = 0 \<longleftrightarrow> e = kOk"
  by (cases e) simp_all

definition make_error :: "i32 \<Rightarrow> c_string \<Rightarrow> socrates_error" where
  "make_error code msg = \<lparr>se_code = code, se_message = msg\<rparr>"

definition make_ok :: socrates_error where
  "make_ok = make_error 0 NullPointer"

text \<open>\<open>make_error(result.error_code(), result.error().what())\<close>: the text belongs to \<open>result\<close>, which the function destroys when it returns.\<close>

definition result_failure :: "runtime_error \<Rightarrow> socrates_error" where
  "result_failure e = make_error (error_value (err_code e)) Freed"

section \<open>Initialisation\<close>

definition text_or :: "string option \<Rightarrow> string \<Rightarrow> string" where
  "text_or p fallback = (case p of None \<Rightarrow> fallback | Some s \<Rightarrow> if s = [] then fallback else s)"

text \<open>
  The cast to the enumeration with the underlying type \<open>uint8_t\<close>. It can make values without a name, which the
  pipeline treats like the last mode.
\<close>

definition batching_mode_of :: "i32 \<Rightarrow> batching_mode" where
  "batching_mode_of m = (if m mod 256 = 0 then kImmediate else if m mod 256 = 1 then kSerial else kAdaptive)"

definition config_of :: "socrates_config \<Rightarrow> binding_config" where
  "config_of config =
     \<lparr>bg_runtime = \<lparr>rc_cluster_id = text_or (sc_cluster_id config) ''default-cluster'',
        rc_state_directory = text_or (sc_state_directory config) ''/tmp/socrates-state'',
        rc_model_root = text_or (sc_model_root config) ''/tmp/socrates-models'',
        rc_production_mode = sc_production_mode config, rc_skip_discovery = sc_skip_discovery config,
        rc_batching = \<lparr>bc_mode = batching_mode_of (sc_batching_mode config), bc_max_batch_size = sc_max_batch_size config,
          bc_batch_timeout = uint (sc_batch_timeout_ms config), bc_long_context_threshold = sc_long_context_threshold config\<rparr>,
        rc_start_as_leech = sc_start_as_leech config\<rparr>,
      bg_local_node = (case sc_cluster_id config of None \<Rightarrow> ''default-node'' | Some s \<Rightarrow> s @ ''-node''),
      bg_trust_mode = (if sc_trust_mode config = 1 then kPinnedAllowlistMode
                       else if sc_trust_mode config = 2 then kPrivateCertificateAuthority else kEphemeralLocalCluster),
      bg_recovery_token_retention = sc_recovery_token_retention config,
      bg_tracing_enabled = sc_tracing_enabled config\<rparr>"

text \<open>The second argument says whether \<open>out_runtime\<close> is a pointer or null.\<close>

definition socrates_init :: "socrates_config \<Rightarrow> bool \<Rightarrow> 'db binding \<Rightarrow> 'db c_outcome" where
  "socrates_init config out_runtime b =
     (if bs_initialized b then if out_runtime then Some (make_ok, b) else None
      else if \<not> out_runtime then Some (make_error 1 (Literal ''out_runtime is null''), b)
      else if sc_version config < 1 then Some (make_error 2 (Literal ''unsupported config version''), b)
      else Some (make_ok, b\<lparr>bs_runtime := Some (new_runtime default_runtime_config), bs_config := config_of config,
                    bs_initialized := True\<rparr>))"

section \<open>Start, stop and join\<close>

text \<open>
  In the calls below the first argument says whether the caller passed the pointer that \<open>socrates_init\<close> gave
  out or null; for any other pointer there is nothing to say.
\<close>

definition set_runtime :: "'db runtime \<Rightarrow> 'db binding \<Rightarrow> 'db binding" where
  "set_runtime rt' b = b\<lparr>bs_runtime := Some rt',
     bs_pipelines := bs_pipelines b + (if Option.bind (bs_runtime b) rt_pipeline = None \<and> rt_pipeline rt' \<noteq> None then 1 else 0)\<rparr>"

definition finish :: "('db, 'a result) runtime_outcome \<Rightarrow> 'db binding \<Rightarrow> 'db c_outcome" where
  "finish m b =
     (case m of
        (Thrown _, _, _) \<Rightarrow> None
      | (Returned (Inl e), rt', _) \<Rightarrow> Some (result_failure e, set_runtime rt' b)
      | (Returned (Inr _), rt', _) \<Rightarrow> Some (make_ok, set_runtime rt' b))"

definition socrates_start :: "('c, 'db) runtime_env \<Rightarrow> 'db start_inputs \<Rightarrow> bool \<Rightarrow> 'db binding \<Rightarrow> 'db c_outcome" where
  "socrates_start env inp runtime b =
     (case (if runtime then bs_runtime b else None) of
        None \<Rightarrow> Some (make_error 9 (Literal ''runtime not initialized''), b)
      | Some rt \<Rightarrow> finish (rt_start env (bg_runtime (bs_config b)) True inp rt) b)"

definition socrates_join_cluster ::
  "('c, 'db) runtime_env \<Rightarrow> manifest_file option \<Rightarrow> u64 \<Rightarrow> time_point \<Rightarrow> bool \<Rightarrow> 'db binding \<Rightarrow> 'db c_outcome" where
  "socrates_join_cluster env mf rng now runtime b =
     (case (if runtime then bs_runtime b else None) of
        None \<Rightarrow> Some (make_error 9 (Literal ''not initialized''), b)
      | Some rt \<Rightarrow> finish (join_cluster env mf rng now False rt) b)"

text \<open>\<open>EdgeRuntime::stop\<close> is \<open>noexcept\<close>.\<close>

definition stop_runtime :: "'db runtime \<Rightarrow> 'db runtime option" where
  "stop_runtime rt = (case rt_stop rt of (Thrown _, _, _) \<Rightarrow> None | (Returned _, rt', _) \<Rightarrow> Some rt')"

definition socrates_stop :: "bool \<Rightarrow> 'db binding \<Rightarrow> 'db c_outcome" where
  "socrates_stop runtime b =
     (case (if runtime then bs_runtime b else None) of
        None \<Rightarrow> Some (make_error 9 (Literal ''not initialized''), b)
      | Some rt \<Rightarrow> map_option (\<lambda>rt'. (make_ok, set_runtime rt' b)) (stop_runtime rt))"

text \<open>Clearing the map of handles deletes them.\<close>

definition socrates_shutdown :: "bool \<Rightarrow> 'db binding \<Rightarrow> 'db c_outcome" where
  "socrates_shutdown runtime b =
     (case (if runtime then bs_runtime b else None) of
        None \<Rightarrow> Some (make_error 9 (Literal ''not initialized''), b)
      | Some rt \<Rightarrow>
          map_option (\<lambda>rt'. (make_ok, b\<lparr>bs_runtime := None, bs_handles := [],
              bs_heap := fold AList.delete (map snd (bs_handles b)) (bs_heap b), bs_initialized := False\<rparr>)) (stop_runtime rt))"

section \<open>Generation\<close>

fun event_kind_value :: "stream_event_kind \<Rightarrow> i32" where
  "event_kind_value kStarted = 0"
| "event_kind_value kToken = 1"
| "event_kind_value kReplanningEvent = 2"
| "event_kind_value kCompleted = 3"
| "event_kind_value kFailed = 4"
| "event_kind_value kQueued = 5"

text \<open>A C string ends at the first zero byte.\<close>

definition c_str :: "string \<Rightarrow> string" where
  "c_str s = takeWhile (\<lambda>c. c \<noteq> CHR 0x00) s"

definition to_c_event :: "stream_event \<Rightarrow> socrates_stream_event" where
  "to_c_event ev = \<lparr>cv_request_id = c_str (ev_request_id ev), cv_kind = event_kind_value (ev_kind ev), cv_sequence = ev_sequence ev,
     cv_text_delta = c_str (ev_text_delta ev), cv_token_id = (case ev_token_id ev of None \<Rightarrow> -1 | Some t \<Rightarrow> t)\<rparr>"

definition c_events :: "bool \<Rightarrow> pipeline_event list \<Rightarrow> socrates_stream_event list" where
  "c_events callback evs = (if callback then map (\<lambda>(k, ev). to_c_event ev) evs else [])"

definition make_request ::
  "string option \<Rightarrow> string option \<Rightarrow> string option \<Rightarrow> u32 \<Rightarrow> double \<Rightarrow> u32 \<Rightarrow> inference_request" where
  "make_request request_id model_id prompt max_new temperature context_window =
     \<lparr>iq_request_id = (case request_id of None \<Rightarrow> ''req'' | Some s \<Rightarrow> s), iq_session_id = ''session-1'',
      iq_model_id = (case model_id of None \<Rightarrow> ''default-model'' | Some s \<Rightarrow> s),
      iq_prompt = (case prompt of None \<Rightarrow> [] | Some s \<Rightarrow> s),
      iq_generation = \<lparr>go_maximum_new_tokens = max_new, go_context_window = context_window, go_temperature = temperature,
        go_top_p = 0, go_seed = None\<rparr>, iq_deadline = 0\<rparr>"

text \<open>
  \<open>handles[key] = std::move(result.value())\<close>: the handle moves into the map, and the one that was there
  under the same key is deleted.
\<close>

definition store_handle :: "string \<Rightarrow> generation_handle \<Rightarrow> 'db binding \<Rightarrow> 'db binding" where
  "store_handle key gh b =
     b\<lparr>bs_heap := (bs_next b, gh) # (case map_of (bs_handles b) key of None \<Rightarrow> bs_heap b | Some old \<Rightarrow> AList.delete old (bs_heap b)),
       bs_handles := AList.update key (bs_next b) (bs_handles b), bs_next := bs_next b + 1\<rparr>"

text \<open>
  The pipeline returns the handle of a request that it started when its mode is immediate, and that of
  a queued one otherwise. The handler that the runtime gets is never empty. The result is the error, the
  handle, the events for the caller and the state.
\<close>

definition socrates_generate ::
  "inference_request \<Rightarrow> bool \<Rightarrow> nat \<Rightarrow> bool \<Rightarrow> 'db binding
     \<Rightarrow> (socrates_error \<times> nat option \<times> socrates_stream_event list \<times> 'db binding) option" where
  "socrates_generate req callback token runtime b =
     (case (if runtime then bs_runtime b else None) of
        None \<Rightarrow> Some (make_error 9 (Literal ''runtime not initialized''), None, [], b)
      | Some rt \<Rightarrow>
          (case rt_generate req True token rt of
             None \<Rightarrow> None
           | Some (Inl e, rt', evs) \<Rightarrow> Some (result_failure e, None, c_events callback evs, set_runtime rt' b)
           | Some (Inr k, rt', evs) \<Rightarrow>
               (let queued = (case rt_pipeline rt of None \<Rightarrow> False | Some p \<Rightarrow> bc_mode (pi_batching p) \<noteq> kImmediate);
                    gh = \<lparr>gh_queued = queued, gh_request = k, gh_pipeline = bs_pipelines b\<rparr>
                in Some (make_ok, Some (bs_next b), c_events callback evs,
                     store_handle (iq_request_id req) gh (set_runtime rt' b)))))"

text \<open>
  \<open>cancel\<close> of a handle. The request it names belongs to the pipeline of its number; the request of an
  earlier pipeline is an object that nobody else looks at. The handle of a queued generation goes to its
  pipeline, which may be gone.
\<close>

definition has_pipeline :: "generation_handle \<Rightarrow> 'db binding \<Rightarrow> bool" where
  "has_pipeline gh b \<longleftrightarrow> gh_pipeline gh = bs_pipelines b \<and> Option.bind (bs_runtime b) rt_pipeline \<noteq> None"

definition handle_cancel :: "generation_handle \<Rightarrow> 'db binding \<Rightarrow> 'db binding option" where
  "handle_cancel gh b =
     (if \<not> has_pipeline gh b then if gh_queued gh then None else Some b
      else case bs_runtime b of
        None \<Rightarrow> None
      | Some rt \<Rightarrow>
          (case rt_pipeline rt of
             None \<Rightarrow> None
           | Some p \<Rightarrow>
               map_option (\<lambda>(p', evs). set_runtime (rt\<lparr>rt_pipeline := Some p'\<rparr>) b)
                 (pi_perform (if gh_queued gh then CancelQueued (gh_request gh) else Cancel (gh_request gh)) p)))"

definition socrates_cancel :: "nat option \<Rightarrow> 'db binding \<Rightarrow> 'db c_outcome" where
  "socrates_cancel handle b =
     (case handle of
        None \<Rightarrow> Some (make_error 2 (Literal ''null handle''), b)
      | Some a \<Rightarrow>
          (case map_of (bs_heap b) a of
             None \<Rightarrow> None
           | Some gh \<Rightarrow> map_option (\<lambda>b'. (make_ok, b')) (handle_cancel gh b)))"

definition socrates_cancel_by_id :: "bool \<Rightarrow> string option \<Rightarrow> 'db binding \<Rightarrow> 'db c_outcome" where
  "socrates_cancel_by_id runtime generation_id b =
     (if \<not> runtime then Some (make_error 9 (Literal ''runtime not initialized''), b)
      else let key = (case generation_id of None \<Rightarrow> [] | Some s \<Rightarrow> s) in
        case map_of (bs_handles b) key of
          None \<Rightarrow> Some (make_error 3 (Literal ''not found''), b)
        | Some a \<Rightarrow>
            (case map_of (bs_heap b) a of
               None \<Rightarrow> None
             | Some gh \<Rightarrow>
                 map_option (\<lambda>b'. (make_ok, b'\<lparr>bs_handles := AList.delete key (bs_handles b'), bs_heap := AList.delete a (bs_heap b')\<rparr>))
                   (handle_cancel gh b)))"

section \<open>Runs\<close>

text \<open>
  The calls of a C program and, between them, what the threads of the runtime do: discovery and
  liveness, the heartbeat, dispatcher and workers of the pipeline.
\<close>

datatype 'db c_call =
    CInit socrates_config bool
  | CStart "'db start_inputs" bool
  | CJoin "manifest_file option" u64 time_point bool
  | CGenerate inference_request bool nat bool
  | CCancel "nat option"
  | CCancelById bool "string option"
  | CStop bool
  | CShutdown bool
  | CBackground "'db runtime_call"

fun is_background :: "'db runtime_call \<Rightarrow> bool" where
  "is_background (RtDiscovery now ev) = True"
| "is_background (RtLiveness now) = True"
| "is_background (RtHeartbeat now) = True"
| "is_background (RtPipeline c) = True"
| "is_background _ = False"

fun c_perform :: "('c, 'db) runtime_env \<Rightarrow> 'db c_call \<Rightarrow> 'db binding \<Rightarrow> 'db binding option" where
  "c_perform env (CInit config out) b = map_option snd (socrates_init config out b)"
| "c_perform env (CStart inp runtime) b = map_option snd (socrates_start env inp runtime b)"
| "c_perform env (CJoin mf rng now runtime) b = map_option snd (socrates_join_cluster env mf rng now runtime b)"
| "c_perform env (CGenerate req cb token runtime) b =
     map_option (\<lambda>(err, h, evs, b'). b') (socrates_generate req cb token runtime b)"
| "c_perform env (CCancel h) b = map_option snd (socrates_cancel h b)"
| "c_perform env (CCancelById runtime gid) b = map_option snd (socrates_cancel_by_id runtime gid b)"
| "c_perform env (CStop runtime) b = map_option snd (socrates_stop runtime b)"
| "c_perform env (CShutdown runtime) b = map_option snd (socrates_shutdown runtime b)"
| "c_perform env (CBackground rc) b =
     (case bs_runtime b of
        None \<Rightarrow> Some b
      | Some rt \<Rightarrow> if is_background rc then map_option (\<lambda>rt'. set_runtime rt' b) (rt_perform env rc rt) else Some b)"

inductive c_reachable :: "('c, 'db) runtime_env \<Rightarrow> 'db binding \<Rightarrow> bool" for env where
  c_initial: "c_reachable env g_state"
| c_step: "c_reachable env b \<Longrightarrow> c_perform env c b = Some b' \<Longrightarrow> c_reachable env b'"

section \<open>The runtime inside the binding\<close>

text \<open>The runtime of the binding, if any, is one that a run of the runtime produces.\<close>

definition runs_runtime :: "('c, 'db) runtime_env \<Rightarrow> 'db binding \<Rightarrow> bool" where
  "runs_runtime env b \<longleftrightarrow> (\<forall>rt. bs_runtime b = Some rt \<longrightarrow> rt_reachable env rt)"

lemma set_runtime_runtime [simp]: "bs_runtime (set_runtime rt b) = Some rt"
  by (simp add: set_runtime_def)

lemma runs_set_runtime [simp]: "runs_runtime env (set_runtime rt b) \<longleftrightarrow> rt_reachable env rt"
  by (simp add: runs_runtime_def)

lemma stop_runtime_reachable:
  assumes "rt_reachable env rt" "stop_runtime rt = Some rt'"
  shows "rt_reachable env rt'"
proof (cases "stop_begin False rt")
  case None
  then show ?thesis using assms by (simp add: stop_runtime_def rt_stop_def)
next
  case (Some rt1)
  have r1: "rt_reachable env rt1"
    using reach_step [OF assms(1), of "RtStopBegin False" rt1] Some by simp
  have "rt_state rt1 = kStopping" using Some by (auto simp: stop_begin_def Let_def split: if_splits)
  moreover have "outcome_runtime (stop_end rt1) = rt'"
    using assms(2) Some by (auto simp: stop_runtime_def rt_stop_def outcome_runtime_def split: prod.splits completion.splits)
  ultimately show ?thesis using reach_step [OF r1, of RtStopEnd rt'] by simp
qed

lemma finish_reachable:
  assumes "rt_reachable env (outcome_runtime m)" "finish m b = Some (err, b')"
  shows "runs_runtime env b'"
  using assms by (auto simp: finish_def outcome_runtime_def split: prod.splits completion.splits sum.splits)

lemma handle_cancel_runtime:
  assumes "handle_cancel gh b = Some b'"
  shows "b' = b \<or> (\<exists>rt c rt'. bs_runtime b = Some rt \<and> rt_perform env (RtPipeline c) rt = Some rt' \<and> b' = set_runtime rt' b)"
proof (cases "has_pipeline gh b")
  case False
  with assms show ?thesis by (simp add: handle_cancel_def split: if_splits)
next
  case True
  then obtain rt p where o: "bs_runtime b = Some rt" "rt_pipeline rt = Some p"
    by (auto simp: has_pipeline_def bind_eq_Some_conv)
  let ?c = "if gh_queued gh then CancelQueued (gh_request gh) else Cancel (gh_request gh)"
  obtain p' evs where p': "pi_perform ?c p = Some (p', evs)" "b' = set_runtime (rt\<lparr>rt_pipeline := Some p'\<rparr>) b"
    using assms True o by (auto simp: handle_cancel_def split del: if_split)
  then have "rt_perform env (RtPipeline ?c) rt = Some (rt\<lparr>rt_pipeline := Some p'\<rparr>)"
    using o by (simp split del: if_split)
  with o p' show ?thesis by blast
qed

lemma handle_cancel_reachable:
  assumes "runs_runtime env b" "handle_cancel gh b = Some b'"
  shows "runs_runtime env b'"
  using handle_cancel_runtime [OF assms(2), of env] assms(1) reach_step by (fastforce simp: runs_runtime_def)

lemma store_handle_runtime [simp]: "bs_runtime (store_handle key gh b) = bs_runtime b"
  by (simp add: store_handle_def)

lemma c_perform_runs:
  assumes "runs_runtime env b" "c_perform env c b = Some b'"
  shows "runs_runtime env b'"
proof (cases c)
  case (CInit config out)
  then show ?thesis using assms reach_new
    by (auto simp: socrates_init_def runs_runtime_def split: if_splits)
next
  case (CStart inp runtime)
  have "rt_reachable env (outcome_runtime (rt_start env cfg True inp rt))" if "bs_runtime b = Some rt" for rt cfg
    using assms(1) that reach_step [of env rt "RtStart cfg True inp"] by (simp add: runs_runtime_def)
  then show ?thesis using assms CStart
    by (auto simp: socrates_start_def split: option.splits if_splits intro: finish_reachable)
next
  case (CJoin mf rng now runtime)
  have "rt_reachable env (outcome_runtime (join_cluster env mf rng now False rt))" if "bs_runtime b = Some rt" for rt
    using assms(1) that reach_step [of env rt "RtJoin mf rng now False"] by (simp add: runs_runtime_def)
  then show ?thesis using assms CJoin
    by (auto simp: socrates_join_cluster_def split: option.splits if_splits intro: finish_reachable)
next
  case (CGenerate req cb token runtime)
  have "rt_reachable env rt'" if "bs_runtime b = Some rt" "rt_generate req True token rt = Some (r, rt', evs)" for rt r rt' evs
    using assms(1) that reach_step [of env rt "RtGenerate req True token"] by (simp add: runs_runtime_def)
  then show ?thesis using assms CGenerate
    by (auto simp: socrates_generate_def runs_runtime_def Let_def split: option.splits if_splits sum.splits)
next
  case (CCancel h)
  then show ?thesis using assms
    by (auto simp: socrates_cancel_def split: option.splits intro: handle_cancel_reachable)
next
  case (CCancelById runtime gid)
  then show ?thesis using assms handle_cancel_reachable [OF assms(1)]
    by (auto simp: socrates_cancel_by_id_def runs_runtime_def Let_def split: option.splits if_splits)
next
  case (CStop runtime)
  then show ?thesis using assms stop_runtime_reachable
    by (auto simp: socrates_stop_def runs_runtime_def split: option.splits if_splits)
next
  case (CShutdown runtime)
  then show ?thesis using assms by (auto simp: socrates_shutdown_def runs_runtime_def split: option.splits if_splits)
next
  case (CBackground rc)
  then show ?thesis using assms reach_step
    by (auto simp: runs_runtime_def split: option.splits if_splits)
qed

lemma reachable_runs: "c_reachable env b \<Longrightarrow> runs_runtime env b"
proof (induction rule: c_reachable.induct)
  case c_initial
  show ?case by (simp add: runs_runtime_def g_state_def)
next
  case (c_step b c b')
  then show ?case using c_perform_runs by blast
qed

section \<open>Handles and their memory\<close>

abbreviation handle_map :: "'db binding \<Rightarrow> string \<rightharpoonup> nat" where
  "handle_map b \<equiv> map_of (bs_handles b)"

abbreviation heap_map :: "'db binding \<Rightarrow> nat \<rightharpoonup> generation_handle" where
  "heap_map b \<equiv> map_of (bs_heap b)"

text \<open>
  The table owns the heap: the live objects are exactly the handles in the table, each under one key, none made by a
  pipeline that does not exist yet. Without a runtime there is no handle.
\<close>

definition owned :: "(string \<rightharpoonup> nat) \<Rightarrow> (nat \<rightharpoonup> generation_handle) \<Rightarrow> nat \<Rightarrow> bool" where
  "owned H M n \<longleftrightarrow> inj_on H (dom H) \<and> dom M = ran H \<and> (\<forall>a \<in> ran H. a < n)"

definition bs_wf :: "'db binding \<Rightarrow> bool" where
  "bs_wf b \<longleftrightarrow> owned (handle_map b) (heap_map b) (bs_next b) \<and> (\<forall>gh \<in> ran (heap_map b). gh_pipeline gh \<le> bs_pipelines b) \<and>
     (bs_initialized b \<longleftrightarrow> bs_runtime b \<noteq> None) \<and> (bs_runtime b = None \<longrightarrow> bs_handles b = [])"

lemma ran_del_inj: "inj_on H (dom H) \<Longrightarrow> H k = Some a \<Longrightarrow> ran (H(k := None)) = ran H - {a}"
proof (rule set_eqI)
  fix x
  assume inj: "inj_on H (dom H)" and a: "H k = Some a"
  show "x \<in> ran (H(k := None)) \<longleftrightarrow> x \<in> ran H - {a}"
  proof
    assume "x \<in> ran (H(k := None))"
    then obtain j where "j \<noteq> k" "H j = Some x" by (auto simp: ran_def split: if_splits)
    then show "x \<in> ran H - {a}" using inj a by (auto simp: ran_def inj_on_def dom_def)
  next
    assume "x \<in> ran H - {a}"
    then obtain j where "H j = Some x" "x \<noteq> a" by (auto simp: ran_def)
    then have "(H(k := None)) j = Some x" using a by auto
    then show "x \<in> ran (H(k := None))" by (rule ranI)
  qed
qed

lemma inj_del: "inj_on H (dom H) \<Longrightarrow> inj_on (H(k := None)) (dom (H(k := None)))"
  by (auto simp: inj_on_def dom_def)

lemma owned_delete:
  assumes "owned H M n" "H k = Some a"
  shows "owned (H(k := None)) (M(a := None)) n"
  using assms ran_del_inj [of H k a] inj_del [of H k] by (auto simp: owned_def)

lemma owned_insert:
  assumes "owned H M n" "H k = None"
  shows "owned (H(k \<mapsto> n)) (M(n \<mapsto> gh)) (Suc n)"
proof -
  have fresh: "n \<notin> ran H" using assms(1) by (auto simp: owned_def)
  then have "inj_on (H(k \<mapsto> n)) (dom (H(k \<mapsto> n)))"
    using assms by (auto simp: owned_def inj_on_def dom_def ran_def)
  moreover have "ran (H(k \<mapsto> n)) = insert n (ran H)" using assms(2) by (rule ran_map_upd)
  ultimately show ?thesis using assms(1) by (auto simp: owned_def)
qed

lemma owned_replace:
  assumes "owned H M n"
  shows "owned (H(k \<mapsto> n)) ((case H k of None \<Rightarrow> M | Some a \<Rightarrow> M(a := None))(n \<mapsto> gh)) (Suc n)"
proof (cases "H k")
  case None
  then show ?thesis using owned_insert [OF assms] by simp
next
  case (Some a)
  from owned_insert [OF owned_delete [OF assms Some], of k gh] Some show ?thesis by simp
qed

lemma owned_live: "owned H M n \<Longrightarrow> M a \<noteq> None \<longleftrightarrow> (\<exists>k. H k = Some a)"
  by (auto simp: owned_def ran_def dom_def)

lemma map_of_fold_delete: "map_of (fold AList.delete ks al) = (\<lambda>k. if k \<in> set ks then None else map_of al k)"
  by (induction ks arbitrary: al) (auto simp: delete_conv' fun_eq_iff)

lemma set_runtime_simps [simp]:
  "bs_handles (set_runtime rt b) = bs_handles b" "bs_heap (set_runtime rt b) = bs_heap b" "bs_next (set_runtime rt b) = bs_next b"
  "bs_initialized (set_runtime rt b) = bs_initialized b" "bs_config (set_runtime rt b) = bs_config b"
  "bs_pipelines b \<le> bs_pipelines (set_runtime rt b)"
  by (simp_all add: set_runtime_def)

lemma wf_set_runtime: "bs_wf b \<Longrightarrow> bs_runtime b \<noteq> None \<Longrightarrow> bs_wf (set_runtime rt b)"
  using set_runtime_simps(6) [of b rt] by (fastforce simp: bs_wf_def simp del: set_runtime_simps(6))

lemma ran_delete_subset: "ran (M(a := None)) \<subseteq> ran M"
  by (auto simp: ran_def split: if_splits)

lemma wf_store_handle:
  assumes "bs_wf b" "bs_runtime b \<noteq> None" "gh_pipeline gh \<le> bs_pipelines b"
  shows "bs_wf (store_handle key gh b)"
proof -
  let ?M = "case handle_map b key of None \<Rightarrow> heap_map b | Some a \<Rightarrow> (heap_map b)(a := None)"
  have M: "heap_map (store_handle key gh b) = ?M(bs_next b \<mapsto> gh)"
    by (auto simp: store_handle_def delete_conv' fun_eq_iff split: option.split)
  have H: "handle_map (store_handle key gh b) = (handle_map b)(key \<mapsto> bs_next b)"
    by (simp add: store_handle_def update_conv')
  have "owned (handle_map (store_handle key gh b)) (heap_map (store_handle key gh b)) (bs_next (store_handle key gh b))"
    unfolding H M using owned_replace [of "handle_map b" "heap_map b" "bs_next b" key gh] assms(1)
    by (simp add: bs_wf_def store_handle_def)
  moreover have "ran (?M(bs_next b \<mapsto> gh)) \<subseteq> insert gh (ran (heap_map b))"
    using ran_delete_subset [of "heap_map b"] by (auto simp: ran_def split: option.splits if_splits)
  then have "\<forall>g \<in> ran (heap_map (store_handle key gh b)). gh_pipeline g \<le> bs_pipelines (store_handle key gh b)"
    unfolding M using assms by (auto simp: bs_wf_def store_handle_def)
  ultimately show ?thesis using assms(1,2) by (simp add: bs_wf_def store_handle_def)
qed

lemma wf_finish: "bs_wf b \<Longrightarrow> bs_runtime b \<noteq> None \<Longrightarrow> finish m b = Some (err, b') \<Longrightarrow> bs_wf b'"
  by (auto simp: finish_def intro: wf_set_runtime split: prod.splits completion.splits sum.splits)

lemma wf_handle_cancel:
  assumes "bs_wf b" "handle_cancel gh b = Some b'"
  shows "bs_wf b' \<and> bs_handles b' = bs_handles b \<and> bs_heap b' = bs_heap b"
  using handle_cancel_runtime [OF assms(2), of undefined] wf_set_runtime [OF assms(1)] assms(1) by auto

lemma wf_delete:
  assumes "bs_wf b" "handle_map b key = Some a"
  shows "bs_wf (b\<lparr>bs_handles := AList.delete key (bs_handles b), bs_heap := AList.delete a (bs_heap b)\<rparr>)"
proof -
  have "owned ((handle_map b)(key := None)) ((heap_map b)(a := None)) (bs_next b)"
    using owned_delete assms by (auto simp: bs_wf_def)
  then show ?thesis
    using assms ran_delete_subset [of "heap_map b" a] by (auto simp: bs_wf_def delete_conv')
qed

lemma owned_empty: "owned Map.empty Map.empty n"
  by (simp add: owned_def)

lemma wf_shutdown_heap:
  assumes "bs_wf b"
  shows "map_of (fold AList.delete (map snd (bs_handles b)) (bs_heap b)) = Map.empty"
proof -
  have "ran (handle_map b) \<subseteq> set (map snd (bs_handles b))" by (force simp: ran_def dest: map_of_SomeD)
  moreover have "dom (heap_map b) = ran (handle_map b)" using assms by (simp add: bs_wf_def owned_def)
  ultimately have "a \<notin> set (map snd (bs_handles b)) \<Longrightarrow> heap_map b a = None" for a by blast
  then show ?thesis by (auto simp: map_of_fold_delete fun_eq_iff)
qed

lemma c_perform_wf:
  assumes "bs_wf b" "c_perform env c b = Some b'"
  shows "bs_wf b'"
proof (cases c)
  case (CInit config out)
  then show ?thesis using assms by (auto simp: socrates_init_def bs_wf_def split: if_splits)
next
  case (CStart inp runtime)
  then show ?thesis using assms
    by (auto simp: socrates_start_def split: option.splits if_splits intro: wf_finish [OF assms(1)])
next
  case (CJoin mf rng now runtime)
  then show ?thesis using assms
    by (auto simp: socrates_join_cluster_def split: option.splits if_splits intro: wf_finish [OF assms(1)])
next
  case (CGenerate req cb token runtime)
  have "bs_wf (store_handle key \<lparr>gh_queued = q, gh_request = k, gh_pipeline = bs_pipelines b\<rparr> (set_runtime rt' b))"
    if "bs_runtime b \<noteq> None" for key q k rt'
    using wf_set_runtime [OF assms(1) that] by (intro wf_store_handle) simp_all
  then show ?thesis using assms CGenerate wf_set_runtime [OF assms(1)]
    by (auto simp: socrates_generate_def Let_def split: option.splits if_splits sum.splits)
next
  case (CCancel h)
  then show ?thesis using assms wf_handle_cancel by (auto simp: socrates_cancel_def split: option.splits)
next
  case (CCancelById runtime gid)
  have "bs_wf (b1\<lparr>bs_handles := AList.delete key (bs_handles b1), bs_heap := AList.delete a (bs_heap b1)\<rparr>)"
    if "handle_map b key = Some a" "handle_cancel gh b = Some b1" for key a gh b1
    using wf_handle_cancel [OF assms(1) that(2)] that(1) by (intro wf_delete) simp_all
  then show ?thesis using assms CCancelById
    by (auto simp: socrates_cancel_by_id_def Let_def split: option.splits if_splits)
next
  case (CStop runtime)
  then show ?thesis using assms wf_set_runtime [OF assms(1)]
    by (auto simp: socrates_stop_def split: option.splits if_splits)
next
  case (CShutdown runtime)
  then show ?thesis using assms wf_shutdown_heap [OF assms(1)] owned_empty
    by (auto simp: socrates_shutdown_def bs_wf_def split: option.splits if_splits)
next
  case (CBackground rc)
  then show ?thesis using assms wf_set_runtime [OF assms(1)] by (auto split: option.splits if_splits)
qed

lemma reachable_wf: "c_reachable env b \<Longrightarrow> bs_wf b"
proof (induction rule: c_reachable.induct)
  case c_initial
  show ?case by (simp add: bs_wf_def g_state_def owned_empty)
next
  case (c_step b c b')
  then show ?case using c_perform_wf by blast
qed

section \<open>Properties\<close>

lemma cancel_performs: "\<exists>p' evs. pi_perform (if q then CancelQueued k else Cancel k) p = Some (p', evs)"
  by (cases "cancel_queued_handle k p") simp

lemma handle_cancel_None: "handle_cancel gh b = None \<longleftrightarrow> gh_queued gh \<and> \<not> has_pipeline gh b"
proof (cases "has_pipeline gh b")
  case True
  then obtain rt p where o: "bs_runtime b = Some rt" "rt_pipeline rt = Some p"
    by (auto simp: has_pipeline_def bind_eq_Some_conv)
  obtain p' evs where "pi_perform (if gh_queued gh then CancelQueued (gh_request gh) else Cancel (gh_request gh)) p = Some (p', evs)"
    using cancel_performs by blast
  with True o show ?thesis by (simp add: handle_cancel_def split del: if_split)
qed (simp add: handle_cancel_def)

text \<open>
  C7. The table owns the handles: over every run of the interface the objects that live are the handles in the table,
  each under one request id, and an initialised binding is one with a runtime, whose state a run of the runtime explains.
\<close>

theorem binding_well_formed:
  assumes "c_reachable env b"
  shows "bs_wf b \<and> (case bs_runtime b of None \<Rightarrow> heap_map b = Map.empty | Some rt \<Rightarrow> rt_reachable env rt)"
proof -
  note wf = reachable_wf [OF assms] and runs = reachable_runs [OF assms]
  show ?thesis
  proof (cases "bs_runtime b")
    case None
    then have "dom (heap_map b) = {}" using wf by (simp add: bs_wf_def owned_def)
    with None wf show ?thesis by simp
  next
    case (Some rt)
    with wf runs show ?thesis by (simp add: runs_runtime_def)
  qed
qed

text \<open>
  C9. When a caller may cancel: cancelling through a handle is undefined exactly when no table entry has this
  handle any more, or it belongs to a queued generation of a pipeline that was stopped. Cancelling by id, which finds only
  handles in the table, is undefined exactly in the second case.
\<close>

theorem cancel_undefined_iff:
  assumes "c_reachable env b"
  shows "(socrates_cancel (Some a) b = None \<longleftrightarrow>
      (\<nexists>key. handle_map b key = Some a) \<or> (\<exists>gh. heap_map b a = Some gh \<and> gh_queued gh \<and> \<not> has_pipeline gh b)) \<and>
    (socrates_cancel_by_id True (Some key) b = None \<longleftrightarrow>
      (\<exists>a gh. handle_map b key = Some a \<and> heap_map b a = Some gh \<and> gh_queued gh \<and> \<not> has_pipeline gh b))"
proof
  have live: "heap_map b x \<noteq> None \<longleftrightarrow> (\<exists>k. handle_map b k = Some x)" for x
    using owned_live reachable_wf [OF assms] by (fastforce simp: bs_wf_def)
  show "socrates_cancel (Some a) b = None \<longleftrightarrow>
      (\<nexists>key. handle_map b key = Some a) \<or> (\<exists>gh. heap_map b a = Some gh \<and> gh_queued gh \<and> \<not> has_pipeline gh b)"
    using live [of a] handle_cancel_None by (auto simp: socrates_cancel_def split: option.splits)
  show "socrates_cancel_by_id True (Some key) b = None \<longleftrightarrow>
      (\<exists>a gh. handle_map b key = Some a \<and> heap_map b a = Some gh \<and> gh_queued gh \<and> \<not> has_pipeline gh b)"
  proof (cases "handle_map b key")
    case None
    then show ?thesis by (simp add: socrates_cancel_by_id_def)
  next
    case (Some x)
    then obtain gh where "heap_map b x = Some gh" using live [of x] by auto
    with Some show ?thesis by (simp add: socrates_cancel_by_id_def handle_cancel_None)
  qed
qed

text \<open>
  Stopping the runtime is enough to make the second case true of every generation that was queued: the
  table keeps its handle, and cancelling it by its id then follows a pointer to a pipeline that is gone.
\<close>

theorem stop_leaves_dangling_handles:
  assumes "c_reachable env b" "socrates_stop True b = Some (err, b')" "bs_runtime b \<noteq> None"
    and "Option.map_option rt_state (bs_runtime b) \<noteq> Some kStopping"
    and h: "handle_map b key = Some a" "heap_map b a = Some gh" "gh_queued gh"
  shows "err = make_ok \<and> handle_map b' key = Some a \<and> socrates_cancel_by_id True (Some key) b' = None"
proof -
  obtain rt rt' where rt: "bs_runtime b = Some rt" "stop_runtime rt = Some rt'" "b' = set_runtime rt' b" "err = make_ok"
    using assms(2,3) by (auto simp: socrates_stop_def)
  have inv: "rt_inv rt" using reachable_runs [OF assms(1)] rt(1) by (simp add: runs_runtime_def reachable_inv)
  have "rt_pipeline rt' = None"
  proof (cases "rt_state rt = kStopped")
    case True
    then have "rt' = rt" using rt(2) by (simp add: stop_runtime_def rt_stop_def stop_begin_def)
    with True inv show ?thesis by (simp add: rt_inv_def)
  next
    case False
    then have "rt_stop rt = stop_end (rt\<lparr>rt_state := kStopping\<rparr>)"
      using assms(4) rt(1) by (simp add: rt_stop_def stop_begin_def Let_def)
    then show ?thesis using rt(2)
      by (auto simp: stop_runtime_def stop_end_def rt_emit_snapshot_def split: prod.splits completion.splits if_splits sum.splits)
  qed
  then have gone: "\<not> has_pipeline gh b'" using rt by (simp add: has_pipeline_def)
  with rt h show ?thesis by (simp add: socrates_cancel_by_id_def handle_cancel_None)
qed

text \<open>
  A generation under a request id that is still in the table deletes the handle that the caller got for the first one.
\<close>

theorem reused_id_frees_handle:
  assumes "c_reachable env b" "socrates_generate req cb token True b = Some (err, Some a', evs, b')"
    and "handle_map b (iq_request_id req) = Some a"
  shows "a' \<noteq> a \<and> socrates_cancel (Some a) b' = None"
proof -
  have own: "owned (handle_map b) (heap_map b) (bs_next b)" using reachable_wf [OF assms(1)] by (simp add: bs_wf_def)
  then have a: "a < bs_next b" using assms(3) by (auto simp: owned_def ran_def)
  obtain rt rt' k gh where g: "b' = store_handle (iq_request_id req) gh (set_runtime rt' b)" "a' = bs_next b"
    using assms(2) by (auto simp: socrates_generate_def Let_def split: option.splits if_splits sum.splits)
  have "heap_map b' a = None" using g(1) a assms(3) by (simp add: store_handle_def delete_conv')
  then show ?thesis using g(2) a by (simp add: socrates_cancel_def)
qed

text \<open>Every error that comes from the runtime reaches the C caller with a message that is already freed.\<close>

theorem runtime_error_messages_freed:
  assumes "bs_runtime b \<noteq> None"
  shows "(socrates_start env inp True b = Some (err, b') \<longrightarrow> err \<noteq> make_ok \<longrightarrow> se_message err = Freed) \<and>
    (socrates_join_cluster env mf rng now True b = Some (err, b') \<longrightarrow> err \<noteq> make_ok \<longrightarrow> se_message err = Freed) \<and>
    (socrates_generate req cb token True b = Some (err, h, evs, b') \<longrightarrow> err \<noteq> make_ok \<longrightarrow> se_message err = Freed)"
  using assms
  by (auto simp: socrates_start_def socrates_join_cluster_def socrates_generate_def finish_def result_failure_def make_error_def
    Let_def split: prod.splits completion.splits sum.splits option.splits)

text \<open>
  The trust mode that a C caller asks for has no effect: whatever it is, a runtime that is ready accepts every peer
  that names an id.
\<close>

theorem trust_mode_ignored:
  assumes "c_reachable env b" "bs_runtime b = Some rt" "rt_state rt = kReady"
  shows "is_ok (rt_authenticate env rt peer cert)"
proof -
  have "rt_inv rt" using reachable_runs [OF assms(1)] assms(2) by (simp add: runs_runtime_def reachable_inv)
  then have "open_cluster rt" using assms(3) by (simp add: rt_inv_def)
  then show ?thesis by (auto simp: open_cluster_def rt_authenticate_def authenticate_def Let_def)
qed

section \<open>Examples\<close>

fun c_run :: "('c, 'db) runtime_env \<Rightarrow> 'db c_call list \<Rightarrow> 'db binding \<Rightarrow> 'db binding option" where
  "c_run env [] b = Some b"
| "c_run env (c # cs) b = (case c_perform env c b of None \<Rightarrow> None | Some b' \<Rightarrow> c_run env cs b')"

lemma c_run_reachable: "c_reachable env b \<Longrightarrow> c_run env cs b = Some b' \<Longrightarrow> c_reachable env b'"
  by (induction env cs b rule: c_run.induct) (auto split: option.splits intro: c_step)

definition demo_c_config :: socrates_config where
  "demo_c_config = \<lparr>sc_version = 2, sc_state_directory = None, sc_model_root = None, sc_cluster_id = None, sc_trust_mode = 2,
     sc_recovery_token_retention = 0, sc_tracing_enabled = False, sc_start_as_leech = True, sc_production_mode = False,
     sc_batching_mode = 2, sc_max_batch_size = 4, sc_batch_timeout_ms = 5, sc_long_context_threshold = 4096, sc_skip_discovery = True\<rparr>"

definition demo_calls :: "memory_db c_call list" where
  "demo_calls = [CInit demo_c_config True, CStart demo_inputs True, CJoin None 1 1 True,
     CGenerate (example_request ''r'' 3) True 0 True]"

definition demo_binding :: "memory_db binding" where
  "demo_binding = (case c_run demo_env demo_calls g_state of None \<Rightarrow> g_state | Some b \<Rightarrow> b)"

lemma demo_binding_reachable: "c_reachable demo_env demo_binding"
  using c_run_reachable [OF c_initial [of demo_env]] c_initial [of demo_env]
  by (auto simp: demo_binding_def split: option.split)

lemma demo_binding_handles: "bs_handles demo_binding = [(''r'', 0)] \<and> map_option gh_queued (heap_map demo_binding 0) = Some True"
  by code_simp

lemma demo_binding_runtime: "map_option rt_state (bs_runtime demo_binding) = Some kReady"
  by code_simp

lemma demo_binding_obtain:
  obtains rt gh where "bs_runtime demo_binding = Some rt" "rt_state rt = kReady"
    "handle_map demo_binding ''r'' = Some 0" "heap_map demo_binding 0 = Some gh" "gh_queued gh"
  using demo_binding_handles demo_binding_runtime by (auto simp: map_option_eq_Some)

theorem binding_well_formed_witness:
  "bs_wf demo_binding \<and> (\<exists>rt. bs_runtime demo_binding = Some rt \<and> rt_reachable demo_env rt)"
  by (rule demo_binding_obtain) (use binding_well_formed [OF demo_binding_reachable] in simp)

theorem cancel_undefined_iff_witness:
  "socrates_cancel (Some 7) demo_binding = None \<and> socrates_cancel_by_id True (Some ''r'') demo_binding \<noteq> None"
proof -
  have gh: "case heap_map demo_binding 0 of None \<Rightarrow> False | Some gh \<Rightarrow> has_pipeline gh demo_binding" by code_simp
  have "handle_map demo_binding key \<noteq> Some 7" for key using demo_binding_handles by simp
  then show ?thesis
    using cancel_undefined_iff [OF demo_binding_reachable, of 7 "''r''"] demo_binding_handles gh by (auto split: option.splits)
qed

theorem stop_leaves_dangling_handles_witness:
  "\<exists>b'. socrates_stop True demo_binding = Some (make_ok, b') \<and> socrates_cancel_by_id True (Some ''r'') b' = None"
proof -
  have "socrates_stop True demo_binding \<noteq> None" by code_simp
  then obtain err b' where s: "socrates_stop True demo_binding = Some (err, b')" by auto
  show ?thesis
  proof (rule demo_binding_obtain)
    fix rt gh
    assume d: "bs_runtime demo_binding = Some rt" "rt_state rt = kReady" "handle_map demo_binding ''r'' = Some 0"
      "heap_map demo_binding 0 = Some gh" "gh_queued gh"
    then have "bs_runtime demo_binding \<noteq> None" "map_option rt_state (bs_runtime demo_binding) \<noteq> Some kStopping" by simp_all
    from stop_leaves_dangling_handles [OF demo_binding_reachable s this d(3-5)] s show ?thesis by blast
  qed
qed

theorem reused_id_frees_handle_witness:
  "\<exists>err a evs b'. socrates_generate (example_request ''r'' 3) True 1 True demo_binding = Some (err, Some a, evs, b') \<and>
    socrates_cancel (Some 0) b' = None"
proof -
  have "case socrates_generate (example_request ''r'' 3) True 1 True demo_binding of Some (err, Some a, evs, b') \<Rightarrow> True | _ \<Rightarrow> False"
    by code_simp
  then obtain err a evs b' where g: "socrates_generate (example_request ''r'' 3) True 1 True demo_binding = Some (err, Some a, evs, b')"
    by (auto split: option.splits)
  have "handle_map demo_binding (iq_request_id (example_request ''r'' 3)) = Some 0"
    using demo_binding_handles by (simp add: example_request_def)
  from reused_id_frees_handle [OF demo_binding_reachable g this] g show ?thesis by blast
qed

theorem runtime_error_messages_freed_witness:
  "\<exists>err b'. socrates_start demo_env demo_inputs True demo_binding = Some (err, b') \<and> se_code err = 7 \<and> se_message err = Freed"
proof -
  have r: "bs_runtime demo_binding \<noteq> None" by (rule demo_binding_obtain) simp
  have "case socrates_start demo_env demo_inputs True demo_binding of None \<Rightarrow> False | Some (err, b') \<Rightarrow> se_code err = 7" by code_simp
  then obtain err b' where s: "socrates_start demo_env demo_inputs True demo_binding = Some (err, b')" "se_code err = 7"
    by (auto split: option.splits)
  then have "err \<noteq> make_ok" by (auto simp: make_ok_def make_error_def)
  then show ?thesis using runtime_error_messages_freed [OF r, of demo_env demo_inputs err b'] s by blast
qed

theorem trust_mode_ignored_witness:
  "bg_trust_mode (bs_config demo_binding) = kPrivateCertificateAuthority \<and>
   (\<exists>rt. bs_runtime demo_binding = Some rt \<and> is_ok (rt_authenticate demo_env rt default_peer ''x''))"
proof
  show "bg_trust_mode (bs_config demo_binding) = kPrivateCertificateAuthority" by code_simp
  show "\<exists>rt. bs_runtime demo_binding = Some rt \<and> is_ok (rt_authenticate demo_env rt default_peer ''x'')"
    by (rule demo_binding_obtain) (use trust_mode_ignored [OF demo_binding_reachable] in blast)
qed

end
