(* ===== verification/Binding_Json.thy ===== *)
theory Binding_Json
  imports Binding Printing
begin

text \<open>
  The functions of \<^verbatim>\<open>bindings/c/socrates.cpp\<close> that answer with JSON text. They write the text piece by piece
  and quote names as they are; the reference is a tree of values and its rendering, which escapes them.
  The copy that \<open>strdup_c\<close> returns is what a C program reads of it, up to the first zero byte;
  \<open>malloc\<close> is taken to succeed.
\<close>

section \<open>Values\<close>

text \<open>Infinity is \<open>None\<close>.\<close>

definition show_double_or_inf :: "double option \<Rightarrow> string" where
  "show_double_or_inf x = (case x of None \<Rightarrow> ''inf'' | Some v \<Rightarrow> show_double v)"

fun runtime_state_value :: "runtime_state \<Rightarrow> int" where
  "runtime_state_value kStarting = 0"
| "runtime_state_value kDiscovering = 1"
| "runtime_state_value kRtJoining = 2"
| "runtime_state_value kElecting = 3"
| "runtime_state_value kReady = 4"
| "runtime_state_value kReplanning = 5"
| "runtime_state_value kDegraded = 6"
| "runtime_state_value kStopping = 7"
| "runtime_state_value kStopped = 8"

fun node_role_value :: "node_role \<Rightarrow> int" where
  "node_role_value kLeech = 0"
| "node_role_value kParticipant = 1"

fun member_state_value :: "member_state \<Rightarrow> int" where
  "member_state_value kJoining = 0"
| "member_state_value kAlive = 1"
| "member_state_value kSuspect = 2"
| "member_state_value kLeft = 3"
| "member_state_value kRemoved = 4"

fun backend_value :: "backend_kind \<Rightarrow> int" where
  "backend_value kLlamaCpp = 0"
| "backend_value kExecuTorchQnn = 1"
| "backend_value kExecuTorchCpu = 2"
| "backend_value kMlx = 3"
| "backend_value kLiteRt = 4"

fun tier_value :: "model_tier \<Rightarrow> int" where
  "tier_value kComfortable = 0"
| "tier_value kFair = 1"
| "tier_value kMedium = 2"
| "tier_value kTight = 3"
| "tier_value kDebug = 4"

section \<open>The printers\<close>

definition strdup_c :: "string \<Rightarrow> string" where
  "strdup_c s = c_str s"

definition print_presence :: "model_presence \<Rightarrow> string" where
  "print_presence m = ''{'' @ key_text ''model_id'' @ in_quotes (mp_model_id m) @ '','' @ key_text ''ready'' @ show_bool (mp_ready m) @
     '','' @ key_text ''downloaded'' @ to_string (mp_downloaded_bytes m) @ '','' @ key_text ''total'' @ to_string (mp_total_bytes m) @ ''}''"

definition socrates_model_progress_json :: "bool \<Rightarrow> 'db binding \<Rightarrow> string" where
  "socrates_model_progress_json runtime b =
     (case (if runtime then bs_runtime b else None) of
        None \<Rightarrow> strdup_c ''[]''
      | Some rt \<Rightarrow> strdup_c (''['' @ print_from False print_presence (model_download_progress rt) @ '']''))"

text \<open>The tier of an entry that names none is not initialised (\<open>None\<close>): reading it is undefined.\<close>

definition print_entry :: "model_catalog_entry \<Rightarrow> model_tier \<Rightarrow> string" where
  "print_entry m tier = ''{'' @ key_text ''model_id'' @ in_quotes (ce_model_id m) @ '','' @ key_text ''display_name'' @ in_quotes (ce_display_name m) @
     '','' @ key_text ''family'' @ in_quotes (ce_family m) @ '','' @ key_text ''params'' @ in_quotes (ce_total_params m) @
     '','' @ key_text ''size_gb'' @ show_double (ce_size_gb_int4 m) @ '','' @ key_text ''context_max'' @ to_string (ce_context_window_max m) @
     '','' @ key_text ''default_context'' @ to_string (ce_default_context m) @ '','' @ key_text ''tier'' @ to_string_int (tier_value tier) @
     '','' @ key_text ''is_profiler'' @ show_bool (ce_is_profiler m) @ ''}''"

definition socrates_available_models_json :: "('c, 'db) runtime_env \<Rightarrow> bool \<Rightarrow> 'db binding \<Rightarrow> string option" where
  "socrates_available_models_json env runtime b =
     (case (if runtime then bs_runtime b else None) of
        None \<Rightarrow> Some (strdup_c ''[]'')
      | Some rt \<Rightarrow>
          (case rt_available_models env rt of
             Thrown _ \<Rightarrow> None
           | Returned models \<Rightarrow>
               if \<exists>m \<in> set models. ce_tier m = None then None
               else Some (strdup_c (''['' @ print_from False (\<lambda>m. print_entry m (the (ce_tier m))) models @ '']''))))"

definition print_capability :: "capability_profile option \<Rightarrow> string" where
  "print_capability cap =
     (case cap of None \<Rightarrow> []
      | Some c \<Rightarrow> '','' @ key_text ''ram_mb'' @ to_string (cp_total_memory_bytes c div (1024 * 1024)) @ '','' @ key_text ''cpu'' @
          in_quotes (cp_cpu_model c) @ '','' @ key_text ''cores'' @ to_string (cp_logical_cpu_count c))"

definition print_member :: "member \<Rightarrow> string" where
  "print_member m = ''{'' @ key_text ''node_id'' @ in_quotes (pa_node_id (mb_peer m)) @ '','' @ key_text ''state'' @
     to_string_int (member_state_value (mb_state m)) @ '','' @ key_text ''role'' @ to_string_int (node_role_value (mb_role m)) @
     print_capability (mb_capability m) @
     '','' @ key_text ''models_ready'' @ dec (if mb_models m = [] then 0 else length (filter mp_ready (mb_models m))) @ ''}''"

definition print_stage :: "stage_assignment \<Rightarrow> string" where
  "print_stage s = ''{'' @ key_text ''ordinal'' @ to_string (sa_ordinal s) @ '','' @ key_text ''node_id'' @ in_quotes (sa_node_id s) @
     '','' @ key_text ''backend'' @ to_string_int (backend_value (sa_backend s)) @
     '','' @ key_text ''layers'' @ ''['' @ to_string (case sa_layers s of None \<Rightarrow> 0 | Some r \<Rightarrow> lr_start r) @
     '','' @ to_string (case sa_layers s of None \<Rightarrow> 0 | Some r \<Rightarrow> lr_end_exclusive r) @ '']}''"

definition print_snapshot :: "runtime_snapshot \<Rightarrow> string" where
  "print_snapshot snap = ''{'' @ key_text ''revision'' @ in_quotes (to_string (snap_revision (rs_membership snap))) @
     '','' @ key_text ''state'' @ to_string_int (runtime_state_value (rs_state snap)) @
     '','' @ key_text ''local_role'' @ to_string_int (node_role_value (rs_local_role snap)) @
     (case ls_leader_id (rs_leadership snap) of None \<Rightarrow> []
      | Some l \<Rightarrow> '','' @ key_text ''leader_id'' @ in_quotes l @ '','' @ key_text ''term'' @ to_string (lf_term (ls_fence (rs_leadership snap)))) @
     '','' @ key_text ''devices'' @ ''['' @ print_from False print_member (snap_members (rs_membership snap)) @ '']'' @
     (case rs_active_plan snap of None \<Rightarrow> []
      | Some plan \<Rightarrow> '','' @ key_text ''stages'' @ ''['' @ print_from False print_stage (pp_stages plan) @ '']'') @ ''}''"

definition socrates_cluster_snapshot_json :: "bool \<Rightarrow> 'db binding \<Rightarrow> string option" where
  "socrates_cluster_snapshot_json runtime b =
     (case (if runtime then bs_runtime b else None) of
        None \<Rightarrow> Some (strdup_c ''{}'')
      | Some rt \<Rightarrow>
          (case rt_snapshot rt of
             Thrown _ \<Rightarrow> None
           | Returned (Inl _) \<Rightarrow> Some (strdup_c ''{}'')
           | Returned (Inr snap) \<Rightarrow> Some (strdup_c (print_snapshot snap))))"

definition print_profile_stage :: "stage_profile \<Rightarrow> string" where
  "print_profile_stage s = ''{'' @ key_text ''stage'' @ in_quotes (sf_stage_id s) @ '','' @ key_text ''node'' @ in_quotes (sf_node_id s) @
     '','' @ key_text ''gpu_miss'' @ show_double (sf_gpu_miss_rate s) @ '','' @ key_text ''npu_miss'' @ show_double (sf_npu_miss_rate s) @
     '','' @ key_text ''cpu_fallback'' @ show_double (sf_cpu_fallback_rate s) @
     '','' @ key_text ''avg_latency_us'' @ to_string_int (sf_avg_latency_us s) @
     '','' @ key_text ''p99_latency_us'' @ to_string_int (sf_p99_latency_us s) @
     '','' @ key_text ''mem_mb'' @ to_string (sf_peak_memory_bytes s div (1024 * 1024)) @
     '','' @ key_text ''kv_hits'' @ to_string (sf_kv_cache_hit_count s) @ '','' @ key_text ''kv_misses'' @ to_string (sf_kv_cache_miss_count s) @
     '','' @ key_text ''network_bytes'' @ to_string (sf_network_transfer_bytes s) @ ''}''"

definition print_profile :: "cluster_profile \<Rightarrow> string" where
  "print_profile p = ''{'' @ key_text ''healthy'' @ show_bool (cl_all_stages_healthy p) @
     '','' @ key_text ''tokens_per_sec'' @ show_double_or_inf (cl_total_tokens_per_second p) @
     '','' @ key_text ''latency_us'' @ to_string_int (cl_end_to_end_latency_us p) @
     '','' @ key_text ''stages'' @ ''['' @ print_from False print_profile_stage (cl_stages p) @ '']}''"

definition socrates_run_profiler_json :: "bool \<Rightarrow> 'db binding \<Rightarrow> string option" where
  "socrates_run_profiler_json runtime b =
     (case (if runtime then bs_runtime b else None) of
        None \<Rightarrow> Some (strdup_c ''{}'')
      | Some rt \<Rightarrow>
          (case run_profiler False rt of
             Thrown _ \<Rightarrow> None
           | Returned (Inl _) \<Rightarrow> Some (strdup_c ''{}'')
           | Returned (Inr p) \<Rightarrow> Some (strdup_c (print_profile p))))"

definition print_estimate :: "context_window_estimate \<Rightarrow> string \<Rightarrow> u32 \<Rightarrow> string" where
  "print_estimate est model_id batch_size = ''{'' @ key_text ''max_tokens'' @ to_string (cw_max_tokens est) @
     '','' @ key_text ''recommended'' @ to_string (cw_recommended_tokens est) @
     '','' @ key_text ''limiting_factor'' @ in_quotes (cw_limiting_factor est) @ '','' @ key_text ''detail'' @ in_quotes (cw_detail est) @
     '','' @ key_text ''model'' @ in_quotes model_id @ '','' @ key_text ''batch'' @ to_string batch_size @ ''}''"

definition socrates_estimate_context_json ::
  "('c, 'db) runtime_env \<Rightarrow> bool \<Rightarrow> string option \<Rightarrow> u32 \<Rightarrow> 'db binding \<Rightarrow> string option" where
  "socrates_estimate_context_json env runtime model_id batch_size b =
     (case (if runtime then bs_runtime b else None) of
        None \<Rightarrow> Some (strdup_c ''{}'')
      | Some rt \<Rightarrow>
          (case rt_snapshot rt of
             Thrown _ \<Rightarrow> None
           | Returned (Inl _) \<Rightarrow> Some (strdup_c ''{}'')
           | Returned (Inr snap) \<Rightarrow>
               (case model_catalog_all (re_catalog_files env) of
                  None \<Rightarrow> None
                | Some models \<Rightarrow>
                    let name = (case model_id of None \<Rightarrow> [] | Some s \<Rightarrow> s) in
                    case List.find (\<lambda>m. ce_model_id m = name) models of
                      None \<Rightarrow> Some (strdup_c (''{'' @ key_text ''error'' @ in_quotes ''model not found'' @ ''}''))
                    | Some model \<Rightarrow>
                        let bcfg = default_batching\<lparr>bc_mode := (if batch_size > 1 then kAdaptive else kImmediate),
                                     bc_max_batch_size := (if batch_size > 0 then batch_size else 1)\<rparr>
                        in map_option (\<lambda>est. strdup_c (print_estimate est name batch_size))
                             (estimate_context_window (rs_membership snap) model bcfg))))"

section \<open>The reference\<close>

datatype json_tree = TRaw string | TText string | TArray "json_tree list" | TObject "(string \<times> json_tree) list"

definition commas :: "string list \<Rightarrow> string" where
  "commas ss = print_from False (\<lambda>s. s) ss"

fun render :: "json_tree \<Rightarrow> string" where
  "render (TRaw s) = s"
| "render (TText s) = in_quotes (json_escape s)"
| "render (TArray xs) = ''['' @ commas (map render xs) @ '']''"
| "render (TObject kvs) = ''{'' @ commas (map (\<lambda>(k, v). key_text k @ render v) kvs) @ ''}''"

definition num :: "'a::len word \<Rightarrow> json_tree" where
  "num w = TRaw (to_string w)"

definition int_value :: "int \<Rightarrow> json_tree" where
  "int_value i = TRaw (to_string_int i)"

definition member_tree :: "member \<Rightarrow> json_tree" where
  "member_tree m = TObject ([(''node_id'', TText (pa_node_id (mb_peer m))),
     (''state'', int_value (member_state_value (mb_state m))), (''role'', int_value (node_role_value (mb_role m)))] @
     (case mb_capability m of None \<Rightarrow> []
      | Some c \<Rightarrow> [(''ram_mb'', num (cp_total_memory_bytes c div (1024 * 1024))), (''cpu'', TText (cp_cpu_model c)),
          (''cores'', num (cp_logical_cpu_count c))]) @
     [(''models_ready'', TRaw (dec (length (filter mp_ready (mb_models m)))))])"

definition stage_tree :: "stage_assignment \<Rightarrow> json_tree" where
  "stage_tree s = TObject [(''ordinal'', num (sa_ordinal s)), (''node_id'', TText (sa_node_id s)),
     (''backend'', int_value (backend_value (sa_backend s))),
     (''layers'', TArray (case sa_layers s of None \<Rightarrow> [num (0 :: u32), num (0 :: u32)] | Some r \<Rightarrow> [num (lr_start r), num (lr_end_exclusive r)]))]"

definition snapshot_tree :: "runtime_snapshot \<Rightarrow> json_tree" where
  "snapshot_tree snap = TObject ([(''revision'', TText (to_string (snap_revision (rs_membership snap)))),
     (''state'', int_value (runtime_state_value (rs_state snap))), (''local_role'', int_value (node_role_value (rs_local_role snap)))] @
     (case ls_leader_id (rs_leadership snap) of None \<Rightarrow> []
      | Some l \<Rightarrow> [(''leader_id'', TText l), (''term'', num (lf_term (ls_fence (rs_leadership snap))))]) @
     [(''devices'', TArray (map member_tree (snap_members (rs_membership snap))))] @
     (case rs_active_plan snap of None \<Rightarrow> [] | Some plan \<Rightarrow> [(''stages'', TArray (map stage_tree (pp_stages plan)))]))"

definition presence_tree :: "model_presence \<Rightarrow> json_tree" where
  "presence_tree m = TObject [(''model_id'', TText (mp_model_id m)), (''ready'', TRaw (show_bool (mp_ready m))),
     (''downloaded'', num (mp_downloaded_bytes m)), (''total'', num (mp_total_bytes m))]"

definition entry_tree :: "model_catalog_entry \<Rightarrow> model_tier \<Rightarrow> json_tree" where
  "entry_tree m tier = TObject [(''model_id'', TText (ce_model_id m)), (''display_name'', TText (ce_display_name m)),
     (''family'', TText (ce_family m)), (''params'', TText (ce_total_params m)), (''size_gb'', TRaw (show_double (ce_size_gb_int4 m))),
     (''context_max'', num (ce_context_window_max m)), (''default_context'', num (ce_default_context m)),
     (''tier'', int_value (tier_value tier)), (''is_profiler'', TRaw (show_bool (ce_is_profiler m)))]"

definition estimate_tree :: "context_window_estimate \<Rightarrow> string \<Rightarrow> u32 \<Rightarrow> json_tree" where
  "estimate_tree est name batch = TObject [(''max_tokens'', num (cw_max_tokens est)), (''recommended'', num (cw_recommended_tokens est)),
     (''limiting_factor'', TText (cw_limiting_factor est)), (''detail'', TText (cw_detail est)), (''model'', TText name), (''batch'', num batch)]"

lemma clean_to_string [simp]: "json_escape (to_string w) = to_string w"
proof (rule json_escape_clean)
  show "clean_text (to_string w)"
    using dec_digits [of quote "unat w"] dec_digits [of "CHR 0x5C" "unat w"] dec_digits [of "CHR 0x0A" "unat w"]
    by (auto simp: clean_text_def to_string_def is_digit_def)
qed

lemma render_array: "render (TArray (map tree xs)) = ''['' @ print_from False (\<lambda>x. render (tree x)) xs @ '']''"
  by (simp add: commas_def print_from_map [of False "\<lambda>x. render (tree x)" xs, symmetric] comp_def)

lemmas render_simps = render.simps(1,2,4) commas_def print_from.simps num_def int_value_def json_escape_clean

lemma print_member_tree:
  assumes "clean_text (pa_node_id (mb_peer m))" "\<forall>c. mb_capability m = Some c \<longrightarrow> clean_text (cp_cpu_model c)"
  shows "print_member m = render (member_tree m)"
  using assms by (cases "mb_capability m") (simp_all add: print_member_def member_tree_def print_capability_def render_simps)

lemma print_stage_tree: "clean_text (sa_node_id s) \<Longrightarrow> print_stage s = render (stage_tree s)"
  by (cases "sa_layers s") (simp_all add: print_stage_def stage_tree_def render_simps)

text \<open>
  The names in a snapshot that need no escape: those of the members and their processors, of the leader and of the nodes of the plan.
\<close>

definition clean_snapshot :: "runtime_snapshot \<Rightarrow> bool" where
  "clean_snapshot snap \<longleftrightarrow>
     (\<forall>m \<in> set (snap_members (rs_membership snap)). clean_text (pa_node_id (mb_peer m)) \<and>
        (case mb_capability m of None \<Rightarrow> True | Some c \<Rightarrow> clean_text (cp_cpu_model c))) \<and>
     (case ls_leader_id (rs_leadership snap) of None \<Rightarrow> True | Some l \<Rightarrow> clean_text l) \<and>
     (case rs_active_plan snap of None \<Rightarrow> True | Some plan \<Rightarrow> (\<forall>s \<in> set (pp_stages plan). clean_text (sa_node_id s)))"

lemma devices_tree:
  assumes "clean_snapshot snap"
  shows "print_from False print_member (snap_members (rs_membership snap)) =
    print_from False (\<lambda>m. render (member_tree m)) (snap_members (rs_membership snap))"
  using assms by (intro print_from_cong print_member_tree) (auto simp: clean_snapshot_def split: option.splits)

lemma stages_tree:
  assumes "clean_snapshot snap" "rs_active_plan snap = Some plan"
  shows "print_from False print_stage (pp_stages plan) = print_from False (\<lambda>s. render (stage_tree s)) (pp_stages plan)"
  using assms by (intro print_from_cong print_stage_tree) (auto simp: clean_snapshot_def)

text \<open>
  C35. The text of a cluster snapshot is the rendering of its tree of values whenever no name in it needs an escape.
\<close>

theorem snapshot_json_is_rendering:
  assumes "bs_runtime b = Some rt" "rt_snapshot rt = Returned (Ok snap)" "clean_snapshot snap"
  shows "socrates_cluster_snapshot_json True b = Some (c_str (render (snapshot_tree snap)))"
proof -
  have leader: "\<And>l. ls_leader_id (rs_leadership snap) = Some l \<Longrightarrow> clean_text l"
    using assms(3) by (auto simp: clean_snapshot_def)
  have "print_snapshot snap = render (snapshot_tree snap)"
    using leader
    by (cases "ls_leader_id (rs_leadership snap)"; cases "rs_active_plan snap")
       (simp_all add: print_snapshot_def snapshot_tree_def render_simps render_array devices_tree [OF assms(3)]
          stages_tree [OF assms(3)] del: render.simps(3))
  with assms show ?thesis by (simp add: socrates_cluster_snapshot_json_def strdup_c_def)
qed

lemma print_presence_tree: "clean_text (mp_model_id m) \<Longrightarrow> print_presence m = render (presence_tree m)"
  by (simp add: print_presence_def presence_tree_def render_simps)

lemma print_entry_tree:
  "list_all clean_text [ce_model_id m, ce_display_name m, ce_family m, ce_total_params m] \<Longrightarrow> print_entry m t = render (entry_tree m t)"
  by (simp add: print_entry_def entry_tree_def render_simps)

lemma print_estimate_tree:
  "list_all clean_text [cw_limiting_factor est, cw_detail est, name] \<Longrightarrow> print_estimate est name n = render (estimate_tree est name n)"
  by (simp add: print_estimate_def estimate_tree_def render_simps)

text \<open>
  With nobody alive the profiler answers with a number that JSON does not have.
\<close>

theorem profiler_json_infinite:
  assumes "bs_runtime b = Some rt" "rt_membership rt = Some s" "ms_running s" "\<forall>m \<in> set (ms_members s). mb_state m \<noteq> kAlive"
  shows "socrates_run_profiler_json True b =
    Some (''{'' @ key_text ''healthy'' @ ''true,'' @ key_text ''tokens_per_sec'' @ ''inf,'' @ key_text ''latency_us'' @ ''0,'' @ key_text ''stages'' @ ''[]}'')"
proof -
  have none: "filter (\<lambda>m. mb_state m = kAlive) (ms_members s) = []" using assms(4) by (simp add: filter_empty_conv)
  have "run_profiler False rt = Returned (Ok \<lparr>cl_config_name = ''current'', cl_profiler_model_id = ''socrates-debug-profiler'',
      cl_stages = [], cl_total_tokens_per_second = None, cl_end_to_end_latency_us = 0, cl_all_stages_healthy = True\<rparr>)"
    using assms by (simp add: run_profiler_def Let_def snapshot_def build_snapshot_def none)
  moreover have "to_string_int 0 = ''0''" by code_simp
  ultimately show ?thesis using assms(1)
    by (simp add: socrates_run_profiler_json_def print_profile_def show_bool_def show_double_or_inf_def strdup_c_def c_str_def key_text_def)
qed

section \<open>Examples\<close>

lemma demo_snapshot:
  obtains rt snap where "bs_runtime demo_binding = Some rt" "rt_snapshot rt = Returned (Ok snap)" "clean_snapshot snap"
proof -
  have "case bs_runtime demo_binding of None \<Rightarrow> False | Some rt \<Rightarrow>
      (case rt_snapshot rt of Returned (Inr snap) \<Rightarrow> clean_snapshot snap | _ \<Rightarrow> False)" by code_simp
  then show ?thesis using that by (auto split: option.splits completion.splits sum.splits)
qed

theorem snapshot_json_is_rendering_witness:
  "\<exists>snap. socrates_cluster_snapshot_json True demo_binding = Some (c_str (render (snapshot_tree snap)))"
  by (rule demo_snapshot) (use snapshot_json_is_rendering in blast)

end
