(* ===== verification/Tls.thy ===== *)
theory Tls
  imports Transport "HOL-Library.AList" "HOL-Library.Multiset"
begin

text \<open>
  The TLS layer of \<^verbatim>\<open>src/transport/grpc_transport.cpp\<close> (the build with OpenSSL): the connection and the server objects with the
  descriptors and SSL objects that they own, the contexts with which both sides shake hands, the loop that serves an accepted
  connection, and the transport that holds all of them. The operating system is the list of what is open; descriptors and
  objects are numbered in the order in which they are made. What sockets and handshakes answer are inputs.
\<close>

section \<open>Connections\<close>

record net_os =
  no_fds :: "nat list"
  no_ssl :: "nat list"
  no_ctx :: "nat list"
  no_next :: nat

record tls_connection =
  tl_fd :: "nat option"
  tl_ssl :: "nat option"
  tl_connected :: bool

definition new_connection :: tls_connection where
  "new_connection = \<lparr>tl_fd = None, tl_ssl = None, tl_connected = False\<rparr>"

fun forget :: "nat option \<Rightarrow> nat list \<Rightarrow> nat list" where
  "forget None xs = xs"
| "forget (Some x) xs = remove1 x xs"

definition tls_close :: "tls_connection \<Rightarrow> net_os \<Rightarrow> tls_connection \<times> net_os" where
  "tls_close c os = (new_connection, os\<lparr>no_ssl := forget (tl_ssl c) (no_ssl os), no_fds := forget (tl_fd c) (no_fds os)\<rparr>)"

text \<open>For one address: \<open>socket\<close> fails, \<open>connect\<close> fails, or the handshake has a result.\<close>

datatype attempt = NoSocket | Refused | Handshake bool

fun connect_loop :: "attempt list \<Rightarrow> tls_connection \<Rightarrow> net_os \<Rightarrow> bool \<times> tls_connection \<times> net_os" where
  "connect_loop [] c os = (False, c, os)"
| "connect_loop (NoSocket # as) c os = connect_loop as (c\<lparr>tl_fd := None\<rparr>) os"
| "connect_loop (Refused # as) c os = connect_loop as (c\<lparr>tl_fd := None\<rparr>) (os\<lparr>no_next := Suc (no_next os)\<rparr>)"
| "connect_loop (Handshake ok # as) c os =
     (let n = no_next os; c1 = c\<lparr>tl_fd := Some n, tl_ssl := Some (Suc n)\<rparr>;
          os1 = os\<lparr>no_fds := n # no_fds os, no_ssl := Suc n # no_ssl os, no_next := Suc (Suc n)\<rparr>
      in if ok then (True, c1\<lparr>tl_connected := True\<rparr>, os1)
         else (case tls_close c1 os1 of (c2, os2) \<Rightarrow> (False, c2, os2)))"

text \<open>\<open>addresses\<close> is what \<open>getaddrinfo\<close> finds, if anything.\<close>

definition tls_connect :: "attempt list option \<Rightarrow> tls_connection \<Rightarrow> net_os \<Rightarrow> bool \<times> tls_connection \<times> net_os" where
  "tls_connect addresses c os = (case addresses of None \<Rightarrow> (False, c, os) | Some as \<Rightarrow> connect_loop as c os)"

text \<open>\<open>written\<close> is the result of \<open>SSL_write\<close>, compared as a \<open>size_t\<close>.\<close>

definition send_frame :: "int \<Rightarrow> nat \<Rightarrow> tls_connection \<Rightarrow> bool" where
  "send_frame written len c \<longleftrightarrow> tl_connected c \<and> word_of_int written = (of_nat len :: u64)"

definition from_accepted :: "nat \<Rightarrow> nat \<Rightarrow> tls_connection" where
  "from_accepted ssl fd = \<lparr>tl_fd = Some fd, tl_ssl = Some ssl, tl_connected = True\<rparr>"

section \<open>Contexts\<close>

record ssl_context =
  cx_tls13_only :: bool
  cx_verify_peer :: bool
  cx_fail_if_no_peer_cert :: bool
  cx_certificate :: "string option"
  cx_private_key :: "string option"
  cx_trusted :: "string list"

definition new_context :: ssl_context where
  "new_context = \<lparr>cx_tls13_only = False, cx_verify_peer = False, cx_fail_if_no_peer_cert = False, cx_certificate = None,
     cx_private_key = None, cx_trusted = []\<rparr>"

text \<open>\<open>PEM_read_bio_X509\<close> and \<open>PEM_read_bio_PrivateKey\<close> are parameters; a text that they refuse leaves the context without.\<close>

definition server_context :: "(string \<Rightarrow> string option) \<Rightarrow> (string \<Rightarrow> string option) \<Rightarrow> string \<Rightarrow> string \<Rightarrow> ssl_context" where
  "server_context read_x509 read_key cert_pem key_pem =
     new_context\<lparr>cx_tls13_only := True, cx_certificate := read_x509 cert_pem, cx_private_key := read_key key_pem,
       cx_verify_peer := True, cx_fail_if_no_peer_cert := True\<rparr>"

definition client_ssl_ctx :: ssl_context where
  "client_ssl_ctx = new_context\<lparr>cx_tls13_only := True, cx_verify_peer := True\<rparr>"

section \<open>The server\<close>

record tls_server =
  sv_listen_fd :: "nat option"
  sv_listen_port :: u16
  sv_ssl_ctx :: "nat option"
  sv_running :: bool

definition new_server :: tls_server where
  "new_server = \<lparr>sv_listen_fd = None, sv_listen_port = 0, sv_ssl_ctx = None, sv_running = False\<rparr>"

datatype listen_result = NoContext | NoListenSocket | BindFails | Listens

definition server_start :: "listen_result \<Rightarrow> tls_server \<Rightarrow> net_os \<Rightarrow> bool \<times> tls_server \<times> net_os" where
  "server_start res s os =
     (if res = NoContext then (False, s\<lparr>sv_ssl_ctx := None\<rparr>, os)
      else
        let n = no_next os; s1 = s\<lparr>sv_ssl_ctx := Some n\<rparr>; os1 = os\<lparr>no_ctx := n # no_ctx os, no_next := Suc n\<rparr> in
        if res = NoListenSocket then (False, s1\<lparr>sv_listen_fd := None\<rparr>, os1)
        else
          let s2 = s1\<lparr>sv_listen_fd := Some (Suc n)\<rparr>; os2 = os1\<lparr>no_fds := Suc n # no_fds os1, no_next := Suc (Suc n)\<rparr> in
          if res = BindFails then (False, s2, os2) else (True, s2\<lparr>sv_running := True\<rparr>, os2))"

definition server_stop :: "tls_server \<Rightarrow> net_os \<Rightarrow> tls_server \<times> net_os" where
  "server_stop s os =
     (s\<lparr>sv_running := False, sv_listen_fd := None, sv_ssl_ctx := None\<rparr>,
      os\<lparr>no_fds := forget (sv_listen_fd s) (no_fds os), no_ctx := forget (sv_ssl_ctx s) (no_ctx os)\<rparr>)"

text \<open>One pass of the accept loop: \<open>accept\<close> fails, or the handshake of the client has a result.\<close>

definition accept_pass :: "bool option \<Rightarrow> tls_server \<Rightarrow> net_os \<Rightarrow> tls_connection option \<times> net_os" where
  "accept_pass answer s os =
     (if \<not> sv_running s then (None, os)
      else case answer of
        None \<Rightarrow> (None, os)
      | Some ok \<Rightarrow>
          (let n = no_next os in
           if ok then (Some (from_accepted (Suc n) n),
             os\<lparr>no_fds := n # no_fds os, no_ssl := Suc n # no_ssl os, no_next := Suc (Suc n)\<rparr>)
           else (None, os\<lparr>no_next := Suc (Suc n)\<rparr>)))"

section \<open>Serving a connection\<close>

lemma read_exact_length: "read_exact n chunks = (r, rest) \<Longrightarrow>
    length (concat rest) + (case r of None \<Rightarrow> 0 | Some bs \<Rightarrow> n) \<le> length (concat chunks)"
proof (induction n chunks arbitrary: r rest rule: read_exact.induct)
  case (3 n c cs)
  then show ?case by (auto split: if_splits prod.splits option.splits)
qed auto

lemma recv_frame_length: "recv_frame chunks = (Some f, rest) \<Longrightarrow> length (concat rest) < length (concat chunks)"
  by (auto simp: recv_frame_def Let_def kFrameHeaderSize_def split: prod.splits option.splits if_splits dest!: read_exact_length)

text \<open>
  The loop of the thread that serves an accepted connection, until \<open>recv_frame\<close> fails or the transport stops. \<open>clock\<close> and
  \<open>running\<close> give the time and the flag when so many bytes are still to come.
\<close>

function serve_incoming ::
  "(nat \<Rightarrow> time_point) \<Rightarrow> (nat \<Rightarrow> bool) \<Rightarrow> transport \<Rightarrow> bytes list \<Rightarrow> incoming_effect list option" where
  "serve_incoming clock running t chunks =
     (if \<not> running (length (concat chunks)) then Some []
      else case recv_frame chunks of
        (None, _) \<Rightarrow> Some []
      | (Some f, rest) \<Rightarrow>
          Option.bind (handle_frame (clock (length (concat chunks))) (tr_config t) (tr_unary_handlers t) (tr_stream_handlers t) f)
            (\<lambda>effs. map_option ((@) effs) (serve_incoming clock running t rest)))"
  by pat_completeness auto
termination
  by (relation "measure (\<lambda>(clock, running, t, chunks). length (concat chunks))") (auto dest: recv_frame_length [OF sym])

declare serve_incoming.simps [simp del]

text \<open>
  The writer that \<open>open_stream\<close> returns, in the build with OpenSSL and in the other one. The parameters are those of \<open>send_unary\<close>.
\<close>

definition stream_write ::
  "(string \<Rightarrow> bool) \<Rightarrow> bool \<Rightarrow> string \<Rightarrow> stream_frame \<Rightarrow> transport \<Rightarrow> (bool result \<times> transport) option" where
  "stream_write connects sends target fr t =
     (case parse_target (tr_config t) target of
        None \<Rightarrow> Some (Err kInternal ''stoi'', t)
      | Some (host, port) \<Rightarrow>
          (case get_or_create_connection connects host port t of
             (None, t1) \<Rightarrow> Some (Err kUnavailable ''stream connection lost'', t1)
           | (Some key, t1) \<Rightarrow>
               Option.bind (prefix_payload (sf_stream_id fr) (sf_payload fr)) (\<lambda>payload.
               Option.bind (encode_frame kStreamFrame (sf_sequence_number fr) 0 payload) (\<lambda>wire.
               Some (if \<not> sends then Err kUnavailable ''stream write failed'' else Ok True, t1)))))"

definition stream_write_loopback :: "stream_frame \<Rightarrow> stream_frame list" where
  "stream_write_loopback fr = [fr]"

text \<open>\<open>broadcast\<close> in the build with OpenSSL; \<open>answers\<close> are the network's when so many members are left. The exception of a malformed port leaves it.\<close>

fun broadcast_tls ::
  "(string \<Rightarrow> bool) \<Rightarrow> (nat \<Rightarrow> bool \<times> bytes list \<times> time_point) \<Rightarrow> string list \<Rightarrow> unary_request \<Rightarrow> transport
     \<Rightarrow> (unary_response list result \<times> transport) option" where
  "broadcast_tls connects answers [] request t = Some (Ok [], t)"
| "broadcast_tls connects answers (addr # addrs) request t =
     (case answers (length addrs) of (sends, incoming, now) \<Rightarrow>
        Option.bind (send_unary connects sends incoming now addr request t) (\<lambda>(r, t1).
          if r = Err kInternal ''stoi'' then Some (Err kInternal ''stoi'', t1)
          else map_option (\<lambda>(rs, t2). (case rs of Inl e \<Rightarrow> Inl e | Inr resps \<Rightarrow> Ok ((case r of Inl _ \<Rightarrow> [] | Inr resp \<Rightarrow> [resp]) @ resps), t2))
            (broadcast_tls connects answers addrs request t1)))"

section \<open>The transport and what it owns\<close>

record tls_state =
  tx_os :: net_os
  tx_running :: bool
  tx_server :: "tls_server option"
  tx_connections :: "(string \<times> tls_connection) list"
  tx_incoming :: "tls_connection list"
  tx_client_ctx :: "nat option"

definition new_tls_state :: tls_state where
  "new_tls_state = \<lparr>tx_os = \<lparr>no_fds = [], no_ssl = [], no_ctx = [], no_next = 0\<rparr>, tx_running = False, tx_server = None,
     tx_connections = [], tx_incoming = [], tx_client_ctx = None\<rparr>"

text \<open>
  \<open>start\<close>, with the result of the server if there is one to start. A server object that is still there is destroyed, which closes nothing.
\<close>

definition tls_start :: "listen_result option \<Rightarrow> tls_state \<Rightarrow> bool \<times> tls_state" where
  "tls_start listen st =
     (if tx_running st then (False, st)
      else case listen of
        None \<Rightarrow> (True, st\<lparr>tx_running := True\<rparr>)
      | Some res \<Rightarrow>
          (case server_start res new_server (tx_os st) of
             (ok, s, os) \<Rightarrow> (ok, st\<lparr>tx_os := os, tx_server := Some s, tx_running := ok\<rparr>)))"

text \<open>\<open>get_or_create_connection\<close> with \<open>client_ssl_ctx\<close>: whether there is a connection.\<close>

definition tls_get_connection :: "string \<Rightarrow> attempt list option \<Rightarrow> tls_state \<Rightarrow> bool \<times> tls_state" where
  "tls_get_connection key addresses st =
     (if (case map_of (tx_connections st) key of None \<Rightarrow> False | Some c \<Rightarrow> tl_connected c) then (True, st)
      else
        let st1 = (case tx_client_ctx st of
                     Some _ \<Rightarrow> st
                   | None \<Rightarrow> let n = no_next (tx_os st) in
                       st\<lparr>tx_client_ctx := Some n, tx_os := (tx_os st)\<lparr>no_ctx := n # no_ctx (tx_os st), no_next := Suc n\<rparr>\<rparr>)
        in case tls_connect addresses new_connection (tx_os st1) of
             (ok, c, os) \<Rightarrow>
               if ok then
                 (let os' = (case map_of (tx_connections st1) key of None \<Rightarrow> os | Some old \<Rightarrow> snd (tls_close old os))
                  in (True, st1\<lparr>tx_os := os', tx_connections := AList.update key c (tx_connections st1)\<rparr>))
               else (False, st1\<lparr>tx_os := snd (tls_close c os)\<rparr>))"

text \<open>A pass of the accept loop hands a connection to \<open>handle_incoming\<close>; the thread that serves it closes it when it ends.\<close>

definition tls_accept :: "bool option \<Rightarrow> tls_state \<Rightarrow> tls_state" where
  "tls_accept answer st =
     (case tx_server st of
        None \<Rightarrow> st
      | Some s \<Rightarrow>
          (case accept_pass answer s (tx_os st) of
             (None, os) \<Rightarrow> st\<lparr>tx_os := os\<rparr>
           | (Some c, os) \<Rightarrow> st\<lparr>tx_os := os, tx_incoming := tx_incoming st @ [c]\<rparr>))"

definition incoming_ends :: "nat \<Rightarrow> tls_state \<Rightarrow> tls_state" where
  "incoming_ends i st =
     (if i < length (tx_incoming st)
      then st\<lparr>tx_os := snd (tls_close (tx_incoming st ! i) (tx_os st)),
              tx_incoming := take i (tx_incoming st) @ drop (Suc i) (tx_incoming st)\<rparr>
      else st)"

definition close_all :: "tls_connection list \<Rightarrow> net_os \<Rightarrow> net_os" where
  "close_all cs os = fold (\<lambda>c os. snd (tls_close c os)) cs os"

text \<open>
  \<open>stop\<close> waits for the threads of incoming connections, each of which closes its connection when it ends. It is taken to return: a thread
  reads without a timeout, so that the wait can be as long as a peer keeps a connection open.
\<close>

definition tls_stop :: "tls_state \<Rightarrow> tls_state" where
  "tls_stop st =
     (let os1 = (case tx_server st of None \<Rightarrow> tx_os st | Some s \<Rightarrow> snd (server_stop s (tx_os st)));
          os2 = close_all (tx_incoming st) os1;
          os3 = close_all (map snd (tx_connections st)) os2
      in st\<lparr>tx_os := os3, tx_running := False, tx_server := None, tx_incoming := [], tx_connections := []\<rparr>)"

datatype tls_call =
    TlsStart "listen_result option"
  | TlsGetConnection string "attempt list option"
  | TlsAccept "bool option"
  | TlsIncomingEnds nat
  | TlsStop

fun tls_perform :: "tls_call \<Rightarrow> tls_state \<Rightarrow> tls_state" where
  "tls_perform (TlsStart listen) st = snd (tls_start listen st)"
| "tls_perform (TlsGetConnection key addresses) st = snd (tls_get_connection key addresses st)"
| "tls_perform (TlsAccept answer) st = tls_accept answer st"
| "tls_perform (TlsIncomingEnds i) st = incoming_ends i st"
| "tls_perform TlsStop st = tls_stop st"

text \<open>A start that would drop a server object whose own start has failed.\<close>

fun drops_server :: "tls_call \<Rightarrow> tls_state \<Rightarrow> bool" where
  "drops_server (TlsStart (Some _)) st \<longleftrightarrow> \<not> tx_running st \<and> tx_server st \<noteq> None"
| "drops_server _ st \<longleftrightarrow> False"

inductive tls_reachable :: "tls_state \<Rightarrow> bool" where
  tls_initial: "tls_reachable new_tls_state"
| tls_step: "tls_reachable st \<Longrightarrow> \<not> drops_server c st \<Longrightarrow> tls_reachable (tls_perform c st)"


section \<open>Ownership\<close>

definition listed :: "nat option \<Rightarrow> nat multiset" where
  "listed x = (case x of None \<Rightarrow> {#} | Some n \<Rightarrow> {#n#})"

lemma listed_simps [simp]: "listed None = {#}" "listed (Some n) = {#n#}"
  by (simp_all add: listed_def)

lemma mset_forget [simp]: "mset (forget x xs) = mset xs - listed x"
  by (cases x) simp_all

definition conn_fds :: "tls_connection list \<Rightarrow> nat multiset" where
  "conn_fds cs = sum_list (map (\<lambda>c. listed (tl_fd c)) cs)"

definition conn_ssl :: "tls_connection list \<Rightarrow> nat multiset" where
  "conn_ssl cs = sum_list (map (\<lambda>c. listed (tl_ssl c)) cs)"

lemma conn_simps [simp]:
  "conn_fds [] = {#}" "conn_fds (c # cs) = listed (tl_fd c) + conn_fds cs" "conn_fds (cs @ ds) = conn_fds cs + conn_fds ds"
  "conn_ssl [] = {#}" "conn_ssl (c # cs) = listed (tl_ssl c) + conn_ssl cs" "conn_ssl (cs @ ds) = conn_ssl cs + conn_ssl ds"
  by (simp_all add: conn_fds_def conn_ssl_def)

text \<open>The descriptors, SSL objects and contexts that the transport still refers to.\<close>

definition owned_fds :: "tls_state \<Rightarrow> nat multiset" where
  "owned_fds st = listed (Option.bind (tx_server st) sv_listen_fd) + conn_fds (map snd (tx_connections st)) + conn_fds (tx_incoming st)"

definition owned_ssl :: "tls_state \<Rightarrow> nat multiset" where
  "owned_ssl st = conn_ssl (map snd (tx_connections st)) + conn_ssl (tx_incoming st)"

definition owned_ctx :: "tls_state \<Rightarrow> nat multiset" where
  "owned_ctx st = listed (Option.bind (tx_server st) sv_ssl_ctx) + listed (tx_client_ctx st)"

definition tls_inv :: "tls_state \<Rightarrow> bool" where
  "tls_inv st \<longleftrightarrow> mset (no_fds (tx_os st)) = owned_fds st \<and> mset (no_ssl (tx_os st)) = owned_ssl st \<and> mset (no_ctx (tx_os st)) = owned_ctx st \<and>
     (\<forall>c \<in> set (map snd (tx_connections st)) \<union> set (tx_incoming st). tl_connected c)"

lemmas owned_defs = owned_fds_def owned_ssl_def owned_ctx_def

lemma tls_close_os [simp]:
  "mset (no_fds (snd (tls_close c os))) = mset (no_fds os) - listed (tl_fd c)"
  "mset (no_ssl (snd (tls_close c os))) = mset (no_ssl os) - listed (tl_ssl c)"
  "no_ctx (snd (tls_close c os)) = no_ctx os"
  by (simp_all add: tls_close_def)

lemma close_all_os:
  "mset (no_fds (close_all cs os)) = mset (no_fds os) - conn_fds cs" "mset (no_ssl (close_all cs os)) = mset (no_ssl os) - conn_ssl cs"
  "no_ctx (close_all cs os) = no_ctx os"
  by (induction cs arbitrary: os) (simp_all add: close_all_def)

lemma connect_loop_os:
  assumes "connect_loop as c os = (ok, c', os')" "tl_fd c = None" "tl_ssl c = None" "\<not> tl_connected c"
  shows "mset (no_fds os') = listed (tl_fd c') + mset (no_fds os)" "mset (no_ssl os') = listed (tl_ssl c') + mset (no_ssl os)"
    "no_ctx os' = no_ctx os" "tl_connected c' = ok" "\<not> ok \<Longrightarrow> tl_fd c' = None \<and> tl_ssl c' = None"
  using assms
  by (induction "as" c os rule: connect_loop.induct) (auto simp: Let_def tls_close_def new_connection_def split: if_splits)

lemma connect_os:
  assumes "tls_connect addresses new_connection os = (ok, c', os')"
  shows "mset (no_fds os') = listed (tl_fd c') + mset (no_fds os)" "mset (no_ssl os') = listed (tl_ssl c') + mset (no_ssl os)"
    "no_ctx os' = no_ctx os" "tl_connected c' = ok" "\<not> ok \<Longrightarrow> tl_fd c' = None \<and> tl_ssl c' = None"
proof -
  have new: "tl_fd new_connection = None" "tl_ssl new_connection = None" "\<not> tl_connected new_connection" by (simp_all add: new_connection_def)
  have "connect_loop (case addresses of None \<Rightarrow> [] | Some as \<Rightarrow> as) new_connection os = (ok, c', os')"
    using assms by (cases addresses) (simp_all add: tls_connect_def)
  note l = connect_loop_os [OF this new]
  show "mset (no_fds os') = listed (tl_fd c') + mset (no_fds os)" "mset (no_ssl os') = listed (tl_ssl c') + mset (no_ssl os)"
    "no_ctx os' = no_ctx os" "tl_connected c' = ok" "\<not> ok \<Longrightarrow> tl_fd c' = None \<and> tl_ssl c' = None"
    by (fact l)+
qed

lemma update_new: "map_of al k = None \<Longrightarrow> AList.update k v al = al @ [(k, v)]"
  by (induction al) (auto split: if_splits)

lemma take_drop_conns:
  assumes "i < length cs"
  shows "conn_fds cs = listed (tl_fd (cs ! i)) + conn_fds (take i cs @ drop (Suc i) cs)"
    "conn_ssl cs = listed (tl_ssl (cs ! i)) + conn_ssl (take i cs @ drop (Suc i) cs)"
proof -
  have "cs = take i cs @ cs ! i # drop (Suc i) cs" using assms by (simp add: id_take_nth_drop)
  then have "conn_fds cs = conn_fds (take i cs @ cs ! i # drop (Suc i) cs)" "conn_ssl cs = conn_ssl (take i cs @ cs ! i # drop (Suc i) cs)" by simp_all
  then show "conn_fds cs = listed (tl_fd (cs ! i)) + conn_fds (take i cs @ drop (Suc i) cs)"
    "conn_ssl cs = listed (tl_ssl (cs ! i)) + conn_ssl (take i cs @ drop (Suc i) cs)" by (simp_all add: ac_simps)
qed

lemma inv_start: "tls_inv st \<Longrightarrow> \<not> drops_server (TlsStart listen) st \<Longrightarrow> tls_inv (snd (tls_start listen st))"
  by (cases listen) (auto simp: tls_inv_def tls_start_def owned_defs server_start_def new_server_def Let_def)

lemma inv_get_connection:
  assumes "tls_inv st"
  shows "tls_inv (snd (tls_get_connection key addresses st))"
proof (cases "map_of (tx_connections st) key")
  case (Some c)
  then have "c \<in> set (map snd (tx_connections st))" by (metis map_of_SomeD image_eqI list.set_map snd_conv)
  with assms Some show ?thesis by (simp add: tls_get_connection_def tls_inv_def)
next
  case None
  define st1 where "st1 = (case tx_client_ctx st of Some _ \<Rightarrow> st
     | None \<Rightarrow> let n = no_next (tx_os st) in
         st\<lparr>tx_client_ctx := Some n, tx_os := (tx_os st)\<lparr>no_ctx := n # no_ctx (tx_os st), no_next := Suc n\<rparr>\<rparr>)"
  have st1: "tls_inv st1" "tx_connections st1 = tx_connections st"
    using assms by (auto simp: st1_def tls_inv_def owned_defs Let_def split: option.split)
  obtain ok c os where c: "tls_connect addresses new_connection (tx_os st1) = (ok, c, os)" by (metis prod_cases3)
  note os = connect_os [OF c]
  have get: "snd (tls_get_connection key addresses st) = (if ok then st1\<lparr>tx_os := os, tx_connections := tx_connections st1 @ [(key, c)]\<rparr>
      else st1\<lparr>tx_os := snd (tls_close c os)\<rparr>)"
    using None c st1(2) by (simp add: tls_get_connection_def st1_def [symmetric] Let_def update_new)
  show ?thesis
  proof (cases ok)
    case True
    then show ?thesis using st1(1) os(1-4) unfolding get by (simp add: tls_inv_def owned_defs ac_simps)
  next
    case False
    then show ?thesis using st1(1) os unfolding get by (simp add: tls_inv_def owned_defs)
  qed
qed

lemma inv_accept: "tls_inv st \<Longrightarrow> tls_inv (tls_accept answer st)"
  by (auto simp: tls_inv_def tls_accept_def accept_pass_def from_accepted_def owned_defs Let_def ac_simps split: option.split)

lemma inv_incoming_ends:
  assumes "tls_inv st"
  shows "tls_inv (incoming_ends i st)"
proof (cases "i < length (tx_incoming st)")
  case True
  have "c \<in> set (tx_incoming st)" if "c \<in> set (take i (tx_incoming st)) \<or> c \<in> set (drop (Suc i) (tx_incoming st))" for c
    using that by (auto dest: in_set_takeD in_set_dropD)
  then show ?thesis using assms True
    by (auto simp: tls_inv_def incoming_ends_def owned_defs take_drop_conns [OF True] simp del: conn_simps(3,6))
qed (use assms in \<open>simp add: incoming_ends_def\<close>)

lemma inv_stop: "tls_inv st \<Longrightarrow> tls_inv (tls_stop st)"
  by (cases "tx_server st") (simp_all add: tls_inv_def tls_stop_def owned_defs close_all_os server_stop_def Let_def ac_simps)

lemma tls_reachable_inv: "tls_reachable st \<Longrightarrow> tls_inv st"
proof (induction rule: tls_reachable.induct)
  case tls_initial
  show ?case by (simp add: tls_inv_def new_tls_state_def owned_defs)
next
  case (tls_step st c)
  then show ?case
    by (cases c) (auto simp del: drops_server.simps intro: inv_start inv_get_connection inv_accept inv_incoming_ends inv_stop)
qed


section \<open>Frames on a connection\<close>

lemma read_exact_nonempty: "[] \<notin> set chunks \<Longrightarrow> read_exact n chunks = (r, rest) \<Longrightarrow> [] \<notin> set rest"
  by (rule read_exact_spec [of chunks n]) auto

lemma recv_frame_nonempty: "[] \<notin> set chunks \<Longrightarrow> [] \<notin> set (snd (recv_frame chunks))"
  by (auto simp: recv_frame_def Let_def split: prod.splits option.splits) (metis read_exact_nonempty)+

lemma word_of_le_bytes:
  "of_nat (le_value (le_bytes 4 (unat v))) = (v :: u32)" "of_nat (le_value (le_bytes 8 (unat w))) = (w :: u64)"
proof -
  have "unat v < 256 ^ 4" "unat w < 256 ^ 8"
    using unsigned_less [where 'a = nat, of v] unsigned_less [where 'a = nat, of w] by simp_all
  then show "of_nat (le_value (le_bytes 4 (unat v))) = v" "of_nat (le_value (le_bytes 8 (unat w))) = w"
    by (simp_all add: le_value_le_bytes)
qed

lemma read_fields:
  "read_uint32 0 (frame_header mtype seq d payload @ rest) = Some kWireMagic"
  "read_uint32 8 (frame_header mtype seq d payload @ rest) = Some (wire_type_code mtype)"
  "read_uint64 12 (frame_header mtype seq d payload @ rest) = Some seq"
  "28 + length payload < 2 ^ 32 \<Longrightarrow> read_uint32 4 (frame_header mtype seq d payload @ rest) = Some (of_nat (28 + length payload))"
proof -
  show "read_uint32 0 (frame_header mtype seq d payload @ rest) = Some kWireMagic"
    "read_uint32 8 (frame_header mtype seq d payload @ rest) = Some (wire_type_code mtype)"
    "read_uint64 12 (frame_header mtype seq d payload @ rest) = Some seq"
    by (simp_all add: read_uint32_value read_uint64_value frame_header_def word_of_le_bytes del: le_bytes.simps)
  assume "28 + length payload < 2 ^ 32"
  then have "le_value (le_bytes 4 (28 + length payload)) = 28 + length payload" by (simp add: le_value_le_bytes)
  then show "read_uint32 4 (frame_header mtype seq d payload @ rest) = Some (of_nat (28 + length payload))"
    by (simp add: read_uint32_value frame_header_def)
qed

lemma handle_stream_frame:
  assumes "28 + length payload < 2 ^ 32"
  shows "handle_frame now cfg uh sh (frame_header kStreamFrame seq d payload @ payload) = handle_stream sh seq payload"
proof -
  have len: "unat (of_nat (28 + length payload) :: u32) = 28 + length payload" using assms unfolding unat_of_nat by simp
  have "peek 28 (length payload) (frame_header kStreamFrame seq d payload @ payload) = Some payload" by (simp add: peek_def)
  then show ?thesis
    unfolding handle_frame_def read_fields(1-3) read_fields(4) [OF assms] by (simp add: len [simplified] kFrameHeaderSize_def Let_def)
qed

text \<open>The bytes of a stream frame, as the format describes them.\<close>

definition stream_payload :: "stream_frame \<Rightarrow> bytes" where
  "stream_payload fr = le_bytes 4 (length (sf_stream_id fr)) @ string_bytes (sf_stream_id fr) @ sf_payload fr"

definition stream_wire :: "stream_frame \<Rightarrow> bytes" where
  "stream_wire fr = wire_frame kStreamFrame (sf_sequence_number fr) 0 (stream_payload fr)"

text \<open>A frame that fits, for a stream with a handler; the mark of the last frame is not part of the format.\<close>

definition deliverable :: "transport \<Rightarrow> stream_frame \<Rightarrow> bool" where
  "deliverable t fr \<longleftrightarrow> 28 + length (stream_payload fr) \<le> kMaxFrameSize \<and> tr_stream_handlers t (sf_stream_id fr) \<and> \<not> sf_is_last fr"

lemma handle_stream_delivers:
  assumes "deliverable t fr"
  shows "handle_stream (tr_stream_handlers t) (sf_sequence_number fr) (stream_payload fr) = Some [CalledStream fr]"
proof -
  have "4 + length (sf_stream_id fr) < 2 ^ 32" using assms by (simp add: deliverable_def stream_payload_def kMaxFrameSize_def)
  then show ?thesis using assms by (cases fr) (simp add: handle_stream_def stream_payload_def split_prefixed deliverable_def)
qed

section \<open>Properties\<close>


text \<open>
  C12. Nothing leaks in the TLS layer as long as a start that failed is followed by a stop: what is open is what the transport refers to, and a stop
  closes everything except the context of the client side.
\<close>

theorem tls_resources_owned:
  assumes "tls_reachable st"
  shows "mset (no_fds (tx_os st)) = owned_fds st \<and> mset (no_ssl (tx_os st)) = owned_ssl st \<and> mset (no_ctx (tx_os st)) = owned_ctx st \<and>
    no_fds (tx_os (tls_stop st)) = [] \<and> no_ssl (tx_os (tls_stop st)) = [] \<and> mset (no_ctx (tx_os (tls_stop st))) = listed (tx_client_ctx st)"
proof -
  have "tls_inv (tls_stop st)" using tls_reachable_inv [OF assms] by (rule inv_stop)
  then have "mset (no_fds (tx_os (tls_stop st))) = {#} \<and> mset (no_ssl (tx_os (tls_stop st))) = {#} \<and>
      mset (no_ctx (tx_os (tls_stop st))) = listed (tx_client_ctx st)"
    by (simp add: tls_inv_def owned_defs tls_stop_def Let_def)
  then show ?thesis using tls_reachable_inv [OF assms] by (simp add: tls_inv_def)
qed

text \<open>
  A connection is never replaced: once there is one to a host, every later request for that host gets it, whatever has become of it.
\<close>

theorem connection_never_replaced:
  assumes "tls_reachable st" "map_of (tx_connections st) key = Some c"
  shows "tls_get_connection key addresses st = (True, st)"
proof -
  have "c \<in> set (map snd (tx_connections st))" using assms(2) by (metis map_of_SomeD image_eqI list.set_map snd_conv)
  then have "tl_connected c" using tls_reachable_inv [OF assms(1)] by (simp add: tls_inv_def)
  then show ?thesis using assms(2) by (simp add: tls_get_connection_def)
qed

text \<open>
  What OpenSSL documents about a handshake: a server that demands a certificate refuses a client without one, and a client
  that verifies the server refuses it when it trusts nobody.
\<close>

definition demands_certificate :: "(ssl_context \<Rightarrow> ssl_context \<Rightarrow> bool \<times> bool) \<Rightarrow> bool" where
  "demands_certificate shake \<longleftrightarrow> (\<forall>client server. cx_verify_peer server \<and> cx_fail_if_no_peer_cert server \<and> cx_certificate client = None \<longrightarrow> \<not> snd (shake client server))"

definition verifies_server :: "(ssl_context \<Rightarrow> ssl_context \<Rightarrow> bool \<times> bool) \<Rightarrow> bool" where
  "verifies_server shake \<longleftrightarrow> (\<forall>client server. cx_verify_peer client \<and> cx_trusted client = [] \<longrightarrow> \<not> fst (shake client server))"

text \<open>
  Two transports never connect, whatever certificates they are configured with: the connection attempt of the client fails on every address
  and leaves nothing open, and the server hands no connection on.
\<close>

theorem transports_never_connect:
  assumes "demands_certificate shake" "verifies_server shake"
    and "\<forall>a \<in> set attempts. a = NoSocket \<or> a = Refused \<or> a = Handshake (fst (shake client_ssl_ctx (server_context x509 pkey cert key)))"
  shows "\<exists>c os'. tls_connect (Some attempts) new_connection os = (False, c, os') \<and> mset (no_fds os') = mset (no_fds os) \<and> mset (no_ssl os') = mset (no_ssl os) \<and>
    fst (accept_pass (Some (snd (shake client_ssl_ctx (server_context x509 pkey cert key)))) s os) = None"
proof -
  let ?sh = "shake client_ssl_ctx (server_context x509 pkey cert key)"
  have sh: "\<not> fst ?sh" "\<not> snd ?sh"
    using assms(1,2) by (simp_all add: demands_certificate_def verifies_server_def client_ssl_ctx_def server_context_def new_context_def)
  obtain ok c os' where c: "tls_connect (Some attempts) new_connection os = (ok, c, os')" by (metis prod_cases3)
  have fails: "fst (connect_loop as c0 os0) = False" if "\<forall>a \<in> set as. a \<noteq> Handshake True" for "as" c0 os0
    using that by (induction "as" c0 os0 rule: connect_loop.induct) (auto simp: Let_def split: prod.split)
  have "\<forall>a \<in> set attempts. a \<noteq> Handshake True" using assms(3) sh(1) by auto
  then have "\<not> ok" using fails [of attempts new_connection os] c by (simp add: tls_connect_def)
  then show ?thesis using c connect_os [OF c] sh(2) by (simp add: accept_pass_def Let_def)
qed

text \<open>
  A start that fails to bind and is tried again leaves its socket and its context open for good.
\<close>

theorem failed_start_leaks:
  "let st = tls_stop (snd (tls_start (Some Listens) (snd (tls_start (Some BindFails) new_tls_state))))
   in length (no_fds (tx_os st)) = 1 \<and> length (no_ctx (tx_os st)) = 1 \<and> owned_fds st = {#} \<and> owned_ctx st = {#}"
  by (simp add: tls_start_def server_start_def new_server_def new_tls_state_def tls_stop_def server_stop_def close_all_def owned_defs Let_def)

text \<open>No writer of a stream ever succeeds: the encoder of frames writes behind its buffer.\<close>

theorem stream_write_never_succeeds: "stream_write connects sends target fr t \<noteq> Some (Ok v, t')"
  by (auto simp: stream_write_def encode_frame_def encode_frame_body_eq write_uint32_le poke_def kFrameHeaderSize_def Err_def
      split: option.splits prod.splits)


section \<open>Examples\<close>

definition demo_frame :: "u64 \<Rightarrow> stream_frame" where
  "demo_frame n = \<lparr>sf_stream_id = ''s'', sf_sequence_number = n, sf_payload = [7], sf_is_last = False\<rparr>"

definition demo_transport :: transport where
  "demo_transport = new_transport\<lparr>tr_stream_handlers := (\<lambda>_. True)\<rparr>"


definition demo_tls :: tls_state where
  "demo_tls = tls_perform (TlsAccept (Some True)) (tls_perform (TlsGetConnection ''h:1'' (Some [Refused, Handshake True]))
     (tls_perform (TlsStart (Some Listens)) new_tls_state))"

lemma demo_tls_reachable: "tls_reachable demo_tls"
  unfolding demo_tls_def by (intro tls_step tls_initial) (simp_all add: new_tls_state_def)

theorem tls_resources_owned_witness: "length (no_fds (tx_os demo_tls)) = 3 \<and> no_fds (tx_os (tls_stop demo_tls)) = []"
proof -
  have "length (no_fds (tx_os demo_tls)) = 3" by code_simp
  with tls_resources_owned [OF demo_tls_reachable] show ?thesis by blast
qed

theorem connection_never_replaced_witness: "tls_get_connection ''h:1'' None demo_tls = (True, demo_tls)"
proof -
  have "map_of (tx_connections demo_tls) ''h:1'' \<noteq> None" by code_simp
  then obtain c where "map_of (tx_connections demo_tls) ''h:1'' = Some c" by blast
  from connection_never_replaced [OF demo_tls_reachable this] show ?thesis .
qed

text \<open>A handshake that succeeds on each side exactly when what the other shows is trusted or not asked for.\<close>

definition demo_shake :: "ssl_context \<Rightarrow> ssl_context \<Rightarrow> bool \<times> bool" where
  "demo_shake client server =
     (cx_verify_peer client \<longrightarrow> cx_certificate server \<in> Some ` set (cx_trusted client),
      cx_verify_peer server \<longrightarrow> (case cx_certificate client of None \<Rightarrow> \<not> cx_fail_if_no_peer_cert server | Some c \<Rightarrow> c \<in> set (cx_trusted server)))"

theorem transports_never_connect_witness:
  "\<exists>c os'. tls_connect (Some [Handshake (fst (demo_shake client_ssl_ctx (server_context Some Some ''c'' ''k'')))]) new_connection
     (tx_os new_tls_state) = (False, c, os')"
proof -
  have "demands_certificate demo_shake" "verifies_server demo_shake"
    by (auto simp: demands_certificate_def verifies_server_def demo_shake_def)
  from transports_never_connect [OF this,
      of "[Handshake (fst (demo_shake client_ssl_ctx (server_context Some Some ''c'' ''k'')))]" Some Some "''c''" "''k''" "tx_os new_tls_state" new_server]
  show ?thesis by auto
qed

end
