(* ===== verification/Support.thy ===== *)
theory Support
  imports Types
begin

text \<open>
  \<^verbatim>\<open>include/socrates/cancellation.h\<close> and \<^verbatim>\<open>include/socrates/logging.h\<close>: cancellation tokens, which share a flag with
  their copies, and the line that the logger writes.
\<close>

section \<open>Cancellation\<close>

text \<open>The flags that exist; a token is the number of its flag, so that a copy is the same token.\<close>

type_synonym cancel_flags = "bool list"

definition new_token :: "cancel_flags \<Rightarrow> nat \<times> cancel_flags" where
  "new_token flags = (length flags, flags @ [False])"

definition stop_requested :: "nat \<Rightarrow> cancel_flags \<Rightarrow> bool" where
  "stop_requested token flags \<longleftrightarrow> token < length flags \<and> flags ! token"

definition request_stop :: "nat \<Rightarrow> cancel_flags \<Rightarrow> cancel_flags" where
  "request_stop token flags = flags[token := True]"

datatype token_call = NewToken | RequestStop nat

fun token_perform :: "token_call \<Rightarrow> cancel_flags \<Rightarrow> cancel_flags" where
  "token_perform NewToken flags = snd (new_token flags)"
| "token_perform (RequestStop token) flags = request_stop token flags"

text \<open>A flag that is set stays set.\<close>

definition flag_of :: "nat \<Rightarrow> cancel_flags \<Rightarrow> unit option" where
  "flag_of token flags = (if stop_requested token flags then Some () else None)"

lemma flag_kept: "flag_of k flags = Some v \<Longrightarrow> flag_of k (token_perform c flags) = Some v"
proof (cases c)
  case (RequestStop token)
  assume "flag_of k flags = Some v"
  with RequestStop show ?thesis
    by (cases "token = k") (simp_all add: flag_of_def stop_requested_def request_stop_def split: if_splits)
qed (auto simp: flag_of_def stop_requested_def new_token_def nth_append split: if_splits)

interpretation cancel_flags: write_once token_perform flag_of
  by unfold_locales (rule flag_kept)

lemma stop_requested_run: "stop_requested k flags \<Longrightarrow> stop_requested k (fold token_perform cs flags)"
  using cancel_flags.run_keeps [of k flags "()" cs] by (simp add: flag_of_def split: if_splits)

lemma stop_requested_asked:
  assumes "stop_requested k (fold token_perform cs flags)" "k < length flags" "\<not> stop_requested k flags"
  shows "RequestStop k \<in> set cs"
  using assms
proof (induction cs arbitrary: flags)
  case (Cons c cs)
  show ?case
  proof (cases "c = RequestStop k")
    case False
    have "k < length (token_perform c flags)" "\<not> stop_requested k (token_perform c flags)"
      using Cons.prems(2,3) False
      by (cases c; auto simp: new_token_def stop_requested_def request_stop_def nth_append nth_list_update)+
    then show ?thesis using Cons.IH [of "token_perform c flags"] Cons.prems(1) by simp
  qed simp
qed simp

text \<open>
  A token is stopped exactly when a stop was requested through it or one of its copies; later calls never take it back, and
  a token made afresh is not stopped.
\<close>

theorem token_stopped_iff:
  assumes "new_token flags = (k, flags')"
  shows "stop_requested k (fold token_perform cs flags') \<longleftrightarrow> RequestStop k \<in> set cs"
proof
  have k: "k < length flags'" "\<not> stop_requested k flags'" using assms by (auto simp: new_token_def stop_requested_def)
  then show "stop_requested k (fold token_perform cs flags') \<Longrightarrow> RequestStop k \<in> set cs" using stop_requested_asked by blast
  assume "RequestStop k \<in> set cs"
  then obtain as bs where cs: "cs = as @ RequestStop k # bs" by (meson split_list)
  have "length flags1 \<le> length (fold token_perform ds flags1)" for ds flags1
  proof (induction ds arbitrary: flags1)
    case (Cons d ds)
    have "length flags1 \<le> length (token_perform d flags1)" by (cases d) (simp_all add: new_token_def request_stop_def)
    with Cons [of "token_perform d flags1"] show ?case by simp
  qed simp
  from this [of flags' "as"] k(1) have "stop_requested k (request_stop k (fold token_perform as flags'))"
    by (simp add: stop_requested_def request_stop_def)
  then show "stop_requested k (fold token_perform cs flags')" using stop_requested_run cs by simp
qed

theorem token_stopped_iff_witness:
  "stop_requested 0 (fold token_perform [NewToken, RequestStop 0, NewToken] [False]) \<and> \<not> stop_requested 0 (fold token_perform [NewToken] [False])"
  using token_stopped_iff [of "[]" 0 "[False]" "[NewToken, RequestStop 0, NewToken]"] token_stopped_iff [of "[]" 0 "[False]" "[NewToken]"]
  by (simp add: new_token_def)

section \<open>Logging\<close>

datatype severity = kTrace | kDebugLevel | kInfo | kWarn | kErrorLevel | kFatal

record log_context =
  lc_subsystem :: string
  lc_node_id :: string
  lc_request_id :: string
  lc_trace_id :: string
  lc_plan_id :: string
  lc_term :: u64

definition make_log_context :: "string \<Rightarrow> log_context" where
  "make_log_context subsystem = \<lparr>lc_subsystem = subsystem, lc_node_id = [], lc_request_id = [], lc_trace_id = [], lc_plan_id = [], lc_term = 0\<rparr>"

definition with_node_id :: "node_id \<Rightarrow> log_context \<Rightarrow> log_context" where
  "with_node_id v c = c\<lparr>lc_node_id := v\<rparr>"

definition with_request_id :: "request_id \<Rightarrow> log_context \<Rightarrow> log_context" where
  "with_request_id v c = c\<lparr>lc_request_id := v\<rparr>"

definition with_trace_id :: "string \<Rightarrow> log_context \<Rightarrow> log_context" where
  "with_trace_id v c = c\<lparr>lc_trace_id := v\<rparr>"

definition with_term :: "u64 \<Rightarrow> log_context \<Rightarrow> log_context" where
  "with_term v c = c\<lparr>lc_term := v\<rparr>"

definition with_plan_id :: "string \<Rightarrow> log_context \<Rightarrow> log_context" where
  "with_plan_id v c = c\<lparr>lc_plan_id := v\<rparr>"

fun level_text :: "severity \<Rightarrow> string" where
  "level_text kTrace = ''TRC''"
| "level_text kDebugLevel = ''DBG''"
| "level_text kInfo = ''INF''"
| "level_text kWarn = ''WRN''"
| "level_text kErrorLevel = ''ERR''"
| "level_text kFatal = ''FTL''"

definition context_text :: "log_context \<Rightarrow> string" where
  "context_text c =
     (if lc_node_id c = [] then [] else '' node='' @ lc_node_id c) @ (if lc_request_id c = [] then [] else '' req='' @ lc_request_id c) @
     (if lc_trace_id c = [] then [] else '' trace='' @ lc_trace_id c) @ (if lc_term c = 0 then [] else '' term='' @ to_string (lc_term c)) @
     (if lc_plan_id c = [] then [] else '' plan='' @ lc_plan_id c)"

definition log_line :: "severity \<Rightarrow> string \<Rightarrow> log_context \<Rightarrow> string" where
  "log_line severity msg c = ''['' @ level_text severity @ ''] '' @ lc_subsystem c @ '' '' @ msg @ context_text c @ [CHR 0x0A]"

text \<open>The level, the message and the term can be read off a line that the same subsystem and the same names wrote.\<close>

theorem log_line_tells:
  assumes "log_line s1 msg1 c1 = log_line s2 msg2 c2" "lc_subsystem c1 = lc_subsystem c2" "context_text c1 = context_text c2"
  shows "s1 = s2 \<and> msg1 = msg2"
proof -
  have len: "length (level_text s) = 3" for s by (cases s) simp_all
  then have "level_text s1 = level_text s2" "msg1 = msg2" using assms by (simp_all add: log_line_def len)
  moreover have "level_text s1 = level_text s2 \<Longrightarrow> s1 = s2" by (cases s1; cases s2) simp_all
  ultimately show ?thesis by blast
qed

theorem log_line_tells_witness: "log_line kInfo ''a'' (make_log_context ''x'') \<noteq> log_line kWarn ''a'' (make_log_context ''x'')"
  using log_line_tells [of kInfo "''a''" "make_log_context ''x''" kWarn "''a''" "make_log_context ''x''"] by auto

end
