(* ===== verification/Master.thy ===== *)
theory Master
  imports Binding_Json
begin

text \<open>
  \<^verbatim>\<open>tools/master_cli.cpp\<close>: the HTTP server of the master over the C interface. A client is the text that it
  sends; the answer is the text written to its socket. A generation answers in pieces: the callback appends to the
  context that the thread of the client frees once it has seen the end. \<open>None\<close> is the end of the process
  or undefined behaviour: an exception that leaves a thread, a message or a context that is freed. How much of
  the body one \<open>read\<close> returns, and what joining the cluster reads from outside, are inputs. Writes to
  a socket that the client has closed are left out.
\<close>

section \<open>Requests\<close>

abbreviation crlf :: string where
  "crlf \<equiv> [CHR 0x0D, CHR 0x0A]"

text \<open>The line up to the next line feed or the end, without carriage returns, and what is left.\<close>

fun read_line :: "string \<Rightarrow> string \<times> string" where
  "read_line [] = ([], [])"
| "read_line (c # cs) =
     (if c = CHR 0x0A then ([], cs)
      else let (line, rest) = read_line cs in (if c = CHR 0x0D then line else c # line, rest))"

text \<open>\<open>iss >> word\<close>.\<close>

definition next_word :: "string \<Rightarrow> string \<times> string" where
  "next_word s = (let t = dropWhile is_space_char s
     in (takeWhile (\<lambda>c. \<not> is_space_char c) t, dropWhile (\<lambda>c. \<not> is_space_char c) t))"

definition request_line :: "string \<Rightarrow> string \<times> string" where
  "request_line line = (let (m, rest) = next_word line in (m, fst (next_word rest)))"

lemma read_line_length: "length (snd (read_line s)) + length (fst (read_line s)) \<le> length s"
  by (induction s) (auto simp: Let_def split: prod.splits)

lemma read_line_less: "read_line s = (line, rest) \<Longrightarrow> line \<noteq> [] \<Longrightarrow> length rest < length s"
  using read_line_length [of s] by (cases line) auto

function read_headers :: "i32 \<Rightarrow> string \<Rightarrow> (i32 \<times> string) option" where
  "read_headers content_len input =
     (let (line, rest) = read_line input in
      if line = [] then Some (content_len, rest)
      else if starts_with line ''Content-Length:''
      then (case stoi (drop 15 line) of None \<Rightarrow> None | Some n \<Rightarrow> read_headers n rest)
      else read_headers content_len rest)"
  by pat_completeness auto
termination
  by (relation "measure (\<lambda>(n, s). length s)") (auto dest: read_line_less [OF sym])

declare read_headers.simps [simp del]

text \<open>
  \<open>std::string body(content_len, 0)\<close>, which throws for a negative length, filled by a single \<open>read\<close> that
  returns at most \<open>got\<close> bytes.
\<close>

definition read_body :: "nat \<Rightarrow> i32 \<Rightarrow> string \<Rightarrow> string option" where
  "read_body got content_len input =
     (if content_len < 0 then None
      else let bs = take (min got (nat content_len)) input in Some (bs @ replicate (nat content_len - length bs) CHR 0x00))"

record http_request =
  hr_method :: string
  hr_path :: string
  hr_body :: string

definition parse_request :: "nat \<Rightarrow> string \<Rightarrow> http_request option" where
  "parse_request got input =
     (let (line, rest) = read_line input; (m, p) = request_line line in
      case read_headers 0 rest of
        None \<Rightarrow> None
      | Some (n, rest') \<Rightarrow> map_option (\<lambda>bd. \<lparr>hr_method = m, hr_path = p, hr_body = bd\<rparr>) (read_body got n rest'))"

text \<open>The fields of the body of \<open>/generate\<close>. The number throws when there is none after the key.\<close>

definition extract_text :: "string \<Rightarrow> string \<Rightarrow> string" where
  "extract_text body key =
     (case str_find body (key_text key) 0 of
        None \<Rightarrow> []
      | Some p \<Rightarrow>
          (case str_find body [quote] (p + length key + 3) of
             None \<Rightarrow> []
           | Some q \<Rightarrow>
               (case str_find body [quote] (q + 1) of
                  None \<Rightarrow> drop (q + 1) body
                | Some e \<Rightarrow> substr body (q + 1) (e - q - 1))))"

definition extract_int :: "string \<Rightarrow> string \<Rightarrow> i32 option" where
  "extract_int body key =
     (case str_find body (key_text key) 0 of None \<Rightarrow> Some 0 | Some p \<Rightarrow> stoi (drop (p + length key + 3) body))"

text \<open>The constant \<open>0.7f\<close> is the nearest single-precision number.\<close>

definition generate_request :: "string \<Rightarrow> inference_request option" where
  "generate_request body =
     (let model_id = extract_text body ''model_id''; prompt = extract_text body ''prompt'' in
      map_option (\<lambda>n. make_request (Some ''http-req'') (Some (c_str (if model_id = [] then ''qwen3-1.8b'' else model_id)))
          (Some (c_str (if prompt = [] then ''Hello'' else prompt))) (word_of_int (if n = 0 then 50 else n))
          (11744051 / 16777216) 2048)
        (extract_int body ''max_tokens''))"

definition cancel_id :: "string \<Rightarrow> string option" where
  "cancel_id body =
     (case str_find body (key_text ''generation_id'' @ [quote]) 0 of
        None \<Rightarrow> None
      | Some p \<Rightarrow>
          (case str_find body [quote] (p + 17) of
             None \<Rightarrow> Some (drop (p + 17) body)
           | Some e \<Rightarrow> Some (substr body (p + 17) (e - (p + 17)))))"

section \<open>Answers\<close>

definition send_response :: "i32 \<Rightarrow> string \<Rightarrow> string \<Rightarrow> string" where
  "send_response code type body =
     ''HTTP/1.1 '' @ to_string_int code @ '' OK'' @ crlf @ ''Content-Type: '' @ type @ crlf @
     ''Content-Length: '' @ dec (length body) @ crlf @ ''Access-Control-Allow-Origin: *'' @ crlf @
     ''Connection: close'' @ crlf @ crlf @ body"

definition send_json :: "i32 \<Rightarrow> string \<Rightarrow> string" where
  "send_json code body = send_response code ''application/json'' body"

definition send_sse :: "string \<Rightarrow> string" where
  "send_sse data = ''data: '' @ data @ [CHR 0x0A, CHR 0x0A]"

definition sse_header :: string where
  "sse_header = ''HTTP/1.1 200 OK'' @ crlf @ ''Content-Type: text/event-stream'' @ crlf @ ''Access-Control-Allow-Origin: *'' @ crlf @
     ''Cache-Control: no-cache'' @ crlf @ ''Connection: keep-alive'' @ crlf @ crlf"

text \<open>\<open>snprintf\<close> into a buffer of 512 characters.\<close>

definition snprintf :: "string \<Rightarrow> string" where
  "snprintf s = take 511 s"

definition done_text :: string where
  "done_text = ''{'' @ key_text ''done'' @ ''true}''"

text \<open>What the callback works on: the text that the client has got and the flag that its thread waits for.\<close>

record http_ctx =
  hc_sent :: string
  hc_done :: bool

text \<open>The callback for one event, with \<open>None\<close> for a context that is freed; only some kinds touch the context.\<close>

definition generate_callback :: "socrates_stream_event \<Rightarrow> http_ctx option \<Rightarrow> http_ctx option option" where
  "generate_callback ev ctx =
     (if cv_kind ev = 1 then
        map_option (\<lambda>c. Some (c\<lparr>hc_sent := hc_sent c @ send_sse (snprintf (''{'' @ key_text ''token'' @ in_quotes (cv_text_delta ev) @
            '','' @ key_text ''seq'' @ to_string (cv_sequence ev) @ ''}''))\<rparr>)) ctx
      else if cv_kind ev = 3 then
        map_option (\<lambda>c. Some (c\<lparr>hc_sent := hc_sent c @ send_sse done_text, hc_done := True\<rparr>)) ctx
      else if cv_kind ev = 4 then
        map_option (\<lambda>c. Some (c\<lparr>hc_sent := hc_sent c @ send_sse (''{'' @ key_text ''error'' @ in_quotes ''generation failed'' @ ''}''),
            hc_done := True\<rparr>)) ctx
      else Some ctx)"

fun callbacks :: "socrates_stream_event list \<Rightarrow> http_ctx option \<Rightarrow> http_ctx option option" where
  "callbacks [] ctx = Some ctx"
| "callbacks (ev # evs) ctx = (case generate_callback ev ctx of None \<Rightarrow> None | Some ctx' \<Rightarrow> callbacks evs ctx')"

text \<open>The text for a generation that was refused reads the message of the error.\<close>

definition generate_failed :: "socrates_error \<Rightarrow> string option" where
  "generate_failed err =
     map_option (\<lambda>msg. send_sse (snprintf (''{'' @ key_text ''error'' @ in_quotes (''['' @ to_string_int (se_code err) @ ''] '' @ msg) @ ''}'')) @
         send_sse done_text)
       (case se_message err of NullPointer \<Rightarrow> Some ''unknown error'' | Literal s \<Rightarrow> Some s | Freed \<Rightarrow> None)"

section \<open>Handling a client\<close>

text \<open>
  The outcome for the client: answered, with the whole text, or waiting for the events of a generation.
\<close>

datatype client = Answered string | Streaming http_ctx

record http_inputs =
  hi_read :: nat
  hi_manifest :: "manifest_file option"
  hi_random :: u64
  hi_now :: time_point
  hi_token :: nat

definition handle_generate :: "http_inputs \<Rightarrow> string \<Rightarrow> 'db binding \<Rightarrow> (client \<times> 'db binding) option" where
  "handle_generate hi body b =
     (case generate_request body of
        None \<Rightarrow> None
      | Some rq \<Rightarrow>
          (case socrates_generate rq True (hi_token hi) True b of
             None \<Rightarrow> None
           | Some (err, h, evs, b') \<Rightarrow>
               (case callbacks evs (Some \<lparr>hc_sent = sse_header, hc_done = False\<rparr>) of
                  Some (Some ctx) \<Rightarrow>
                    (if se_code err \<noteq> 0
                     then map_option (\<lambda>t. (Answered (hc_sent ctx @ t), b')) (generate_failed err)
                     else Some (Streaming ctx, b'))
                | _ \<Rightarrow> None)))"

definition handle_request ::
  "('c, 'db) runtime_env \<Rightarrow> http_inputs \<Rightarrow> http_request \<Rightarrow> 'db binding \<Rightarrow> (client \<times> 'db binding) option" where
  "handle_request env hi rq b =
     (let path = hr_path rq; post = (hr_method rq = ''POST'') in
      if path = ''/health'' then
        Some (Answered (send_json 200 (''{'' @ key_text ''status'' @ in_quotes ''running'' @ '','' @ key_text ''version'' @ in_quotes ''0.2.0'' @ ''}'')), b)
      else if path = ''/cluster'' then
        map_option (\<lambda>json. (Answered (send_json 200 json), b)) (socrates_cluster_snapshot_json True b)
      else if path = ''/models'' then
        map_option (\<lambda>json. (Answered (send_json 200 json), b)) (socrates_available_models_json env True b)
      else if path = ''/join'' \<and> post then
        map_option (\<lambda>(err, b'). (Answered (send_json (if se_code err = 0 then 200 else 500)
              (''{'' @ key_text ''ok'' @ show_bool (se_code err = 0) @ ''}'')), b'))
          (socrates_join_cluster env (hi_manifest hi) (hi_random hi) (hi_now hi) True b)
      else if path = ''/generate'' \<and> post then handle_generate hi (hr_body rq) b
      else if path = ''/cancel'' \<and> post then
        map_option (\<lambda>b'. (Answered (send_json 200 (''{'' @ key_text ''ok'' @ ''true}'')), b'))
          (case cancel_id (hr_body rq) of
             None \<Rightarrow> Some b
           | Some gid \<Rightarrow> map_option snd (socrates_cancel_by_id True (Some (c_str gid)) b))
      else Some (Answered (send_json 404 (''{'' @ key_text ''error'' @ in_quotes ''not found'' @ ''}'')), b))"

definition handle_client ::
  "('c, 'db) runtime_env \<Rightarrow> http_inputs \<Rightarrow> string \<Rightarrow> 'db binding \<Rightarrow> (client \<times> 'db binding) option" where
  "handle_client env hi input b =
     (case parse_request (hi_read hi) input of None \<Rightarrow> None | Some rq \<Rightarrow> handle_request env hi rq b)"

text \<open>
  While a client waits, events arrive and its thread looks at the flag; once it is set the thread frees the context.
\<close>

datatype client_action = Deliver stream_event | Poll

fun client_act :: "client_action \<Rightarrow> http_ctx option \<Rightarrow> http_ctx option option" where
  "client_act (Deliver ev) ctx = generate_callback (to_c_event ev) ctx"
| "client_act Poll ctx = Some (case ctx of None \<Rightarrow> None | Some c \<Rightarrow> if hc_done c then None else Some c)"

fun client_run :: "client_action list \<Rightarrow> http_ctx option \<Rightarrow> http_ctx option option" where
  "client_run [] ctx = Some ctx"
| "client_run (a # as) ctx = (case client_act a ctx of None \<Rightarrow> None | Some ctx' \<Rightarrow> client_run as ctx')"

fun delivered :: "client_action list \<Rightarrow> stream_event list" where
  "delivered [] = []"
| "delivered (Deliver ev # as) = ev # delivered as"
| "delivered (Poll # as) = delivered as"

section \<open>The program\<close>

text \<open>The configuration leaves \<open>recovery_token_retention\<close> unset: it has some value.\<close>

definition master_config :: "bool \<Rightarrow> u32 \<Rightarrow> socrates_config" where
  "master_config no_discovery unset = \<lparr>sc_version = 2, sc_state_directory = Some ''/tmp/socrates-master'',
     sc_model_root = Some ''/tmp/socrates-master/models'', sc_cluster_id = Some ''socrates-cluster'', sc_trust_mode = 0,
     sc_recovery_token_retention = unset, sc_tracing_enabled = False, sc_start_as_leech = False, sc_production_mode = False,
     sc_batching_mode = 0, sc_max_batch_size = 4, sc_batch_timeout_ms = 5, sc_long_context_threshold = 4096,
     sc_skip_discovery = no_discovery\<rparr>"

text \<open>\<open>main\<close> up to the server: the exit code, or the state in which the server starts.\<close>

definition master_main ::
  "('c, 'db) runtime_env \<Rightarrow> string list \<Rightarrow> u32 \<Rightarrow> 'db start_inputs \<Rightarrow> http_inputs \<Rightarrow> 'db binding \<Rightarrow> (int + 'db binding) option" where
  "master_main env args unset inp hi b =
     (case socrates_init (master_config (''--no-discovery'' \<in> set args) unset) True b of
        None \<Rightarrow> None
      | Some (err, b1) \<Rightarrow>
          if se_code err \<noteq> 0 then Some (Inl 1)
          else (case socrates_start env inp True b1 of
             None \<Rightarrow> None
           | Some (err2, b2) \<Rightarrow>
               if se_code err2 \<noteq> 0 then Some (Inl 1)
               else map_option (\<lambda>(err3, b3). Inr b3)
                 (socrates_join_cluster env (hi_manifest hi) (hi_random hi) (hi_now hi) True b2)))"


section \<open>Reading a request\<close>

lemma read_line_crlf: "CHR 0x0A \<notin> set l \<Longrightarrow> CHR 0x0D \<notin> set l \<Longrightarrow> read_line (l @ crlf @ rest) = (l, rest)"
  by (induction l) auto

lemma read_headers_end: "read_headers n (crlf @ rest) = Some (n, rest)"
  by (subst read_headers.simps) simp

lemma take_drop_word:
  assumes "\<forall>c \<in> set w. \<not> is_space_char c" "w \<noteq> []"
  shows "next_word (w @ CHR '' '' # rest) = (w, CHR '' '' # rest)" "next_word (CHR '' '' # w @ CHR '' '' # rest) = (w, CHR '' '' # rest)"
proof -
  have sp: "is_space_char CHR '' ''" by (simp add: is_space_char_def)
  have "dropWhile is_space_char (w @ CHR '' '' # rest) = w @ CHR '' '' # rest"
    using assms by (cases w) simp_all
  moreover have "takeWhile (\<lambda>c. \<not> is_space_char c) (w @ CHR '' '' # rest) = w" "dropWhile (\<lambda>c. \<not> is_space_char c) (w @ CHR '' '' # rest) = CHR '' '' # rest"
    using assms(1) sp by (simp_all add: takeWhile_append dropWhile_append)
  ultimately show "next_word (w @ CHR '' '' # rest) = (w, CHR '' '' # rest)" "next_word (CHR '' '' # w @ CHR '' '' # rest) = (w, CHR '' '' # rest)"
    using sp by (simp_all add: next_word_def Let_def)
qed

lemma request_line_words:
  assumes "\<forall>c \<in> set m. \<not> is_space_char c" "m \<noteq> []" "\<forall>c \<in> set p. \<not> is_space_char c" "p \<noteq> []"
  shows "request_line (m @ CHR '' '' # p @ CHR '' '' # rest) = (m, p)"
  using take_drop_word [OF assms(1,2)] take_drop_word [OF assms(3,4)] by (simp add: request_line_def)

lemma stoi_dec_end: "n < 2 ^ 31 \<Longrightarrow> stoi (CHR '' '' # dec n) = Some (int n)"
proof -
  assume n: "n < 2 ^ 31"
  obtain d ds where d: "dec n = d # ds" "is_digit d" using dec_head by blast
  have "takeWhile is_digit (dec n) = dec n" using dec_digits by (simp add: takeWhile_eq_all_conv)
  moreover have "dropWhile is_space_char (CHR '' '' # dec n) = dec n"
    using d digit_not_space [OF d(2)] by (auto simp: is_space_char_def)
  moreover have "strip_sign (dec n) = (False, dec n)"
    using d digit_not_space [OF d(2)] by (simp add: strip_sign_def)
  moreover have "dec n \<noteq> []" using d by simp
  ultimately have "parse_number (CHR '' '' # dec n) = Some (False, n)"
    unfolding parse_number_def by (simp add: digits_val_dec del: dropWhile.simps takeWhile_eq_all_conv)
  moreover have "int n < 2 ^ 31" using n by (metis of_nat_less_numeral_power_cancel_iff)
  ultimately show ?thesis by (simp add: stoi_def)
qed

text \<open>A request as clients send it.\<close>

definition http_text :: "string \<Rightarrow> string \<Rightarrow> string \<Rightarrow> string" where
  "http_text m p body = m @ '' '' @ p @ '' HTTP/1.1'' @ crlf @ ''Content-Length: '' @ dec (length body) @ crlf @ crlf @ body"

definition plain_word :: "string \<Rightarrow> bool" where
  "plain_word w \<longleftrightarrow> w \<noteq> [] \<and> (\<forall>c \<in> set w. \<not> is_space_char c)"

lemma plain_no_break: "plain_word w \<Longrightarrow> CHR 0x0A \<notin> set w \<and> CHR 0x0D \<notin> set w"
  by (auto simp: plain_word_def is_space_char_def)

lemma dec_no_break: "CHR 0x0A \<notin> set (dec n) \<and> CHR 0x0D \<notin> set (dec n)"
  using dec_digits [of _ n] by (fastforce simp: is_digit_def)

lemma starts_with_append: "pat \<noteq> [] \<Longrightarrow> starts_with (pat @ s) pat"
  by (simp add: starts_with_def str_find_Some occurs_at_def)

lemma read_headers_length:
  assumes "n < 2 ^ 31"
  shows "read_headers m (''Content-Length: '' @ dec n @ crlf @ crlf @ rest) = Some (int n, rest)"
proof -
  have "read_line (''Content-Length: '' @ dec n @ crlf @ crlf @ rest) = (''Content-Length: '' @ dec n, crlf @ rest)"
    using read_line_crlf [of "''Content-Length: '' @ dec n" "crlf @ rest"] dec_no_break [of n] by simp
  moreover have "starts_with (''Content-Length: '' @ dec n) ''Content-Length:''"
    using starts_with_append [of "''Content-Length:''" "'' '' @ dec n"] by simp
  ultimately show ?thesis
    using stoi_dec_end [OF assms] read_headers_end [of "int n" rest] by (subst read_headers.simps) simp
qed

text \<open>
  A request comes back as it was sent when one read returns its whole body; when the read returns only the
  first bytes the rest of the body is zero bytes.
\<close>

theorem request_roundtrip:
  assumes "plain_word m" "plain_word p" "length body < 2 ^ 31"
  shows "parse_request got (http_text m p body) =
    Some \<lparr>hr_method = m, hr_path = p, hr_body = take got body @ replicate (length body - got) CHR 0x00\<rparr>"
proof -
  let ?l = "m @ CHR '' '' # p @ CHR '' '' # ''HTTP/1.1''"
  have "read_line (http_text m p body) = (?l, ''Content-Length: '' @ dec (length body) @ crlf @ crlf @ body)"
    using read_line_crlf [of ?l] plain_no_break [OF assms(1)] plain_no_break [OF assms(2)] by (simp add: http_text_def)
  moreover have "request_line ?l = (m, p)"
    using assms request_line_words [of m p "''HTTP/1.1''"] by (simp add: plain_word_def)
  ultimately show ?thesis
    using read_headers_length [OF assms(3)] by (simp add: parse_request_def read_body_def min_def)
qed


text \<open>The header lines of a request and the lengths that they announce.\<close>

function header_lines :: "string \<Rightarrow> string list" where
  "header_lines input = (let (line, rest) = read_line input in if line = [] then [] else line # header_lines rest)"
  by pat_completeness auto
termination
  by (relation "measure length") (auto dest: read_line_less [OF sym])

declare header_lines.simps [simp del]

definition announced :: "string list \<Rightarrow> i32 option list" where
  "announced ls = map (\<lambda>l. stoi (drop 15 l)) (filter (\<lambda>l. starts_with l ''Content-Length:'') ls)"

lemma announced_simps [simp]:
  "announced [] = []"
  "announced (l # ls) = (if starts_with l ''Content-Length:'' then stoi (drop 15 l) # announced ls else announced ls)"
  by (simp_all add: announced_def)

lemma read_headers_spec:
  "map_option fst (read_headers n input) =
     (if None \<in> set (announced (header_lines input)) then None else last (Some n # announced (header_lines input)))"
proof (induction n input rule: read_headers.induct)
  case (1 n input)
  obtain line rest where l: "read_line input = (line, rest)" by fastforce
  show ?case
  proof (cases "line = []")
    case True
    with l show ?thesis by (simp add: read_headers.simps header_lines.simps)
  next
    case False
    from l False have h: "header_lines input = line # header_lines rest" by (subst header_lines.simps) simp
    show ?thesis
    proof (cases "starts_with line ''Content-Length:''")
      case True
      with 1(1) [OF l [symmetric] refl False True] l False h show ?thesis
        by (subst read_headers.simps) (cases "stoi (drop 15 line)"; simp split: if_splits)
    next
      case no: False
      with 1(2) [OF l [symmetric] refl False no] l False h show ?thesis
        by (subst read_headers.simps) simp
    qed
  qed
qed


section \<open>The context of a generation\<close>

definition sse_of :: "stream_event \<Rightarrow> string" where
  "sse_of ev = (case generate_callback (to_c_event ev) (Some \<lparr>hc_sent = [], hc_done = False\<rparr>) of
     Some (Some c) \<Rightarrow> hc_sent c | _ \<Rightarrow> [])"

lemma kind_values: "event_kind_value k = 1 \<longleftrightarrow> k = kToken" "event_kind_value k = 3 \<longleftrightarrow> k = kCompleted" "event_kind_value k = 4 \<longleftrightarrow> k = kFailed"
  by (cases k; simp)+

lemma callback_live:
  "generate_callback (to_c_event ev) (Some c) =
     Some (Some \<lparr>hc_sent = hc_sent c @ sse_of ev, hc_done = (hc_done c \<or> terminal_kind (ev_kind ev))\<rparr>)"
  by (cases "ev_kind ev") (simp_all add: generate_callback_def sse_of_def to_c_event_def)

lemma callback_freed: "generate_callback ev None = None \<longleftrightarrow> cv_kind ev \<in> {1, 3, 4}"
  by (simp add: generate_callback_def)

lemma callback_freed_silent: "ev_kind ev = kReplanningEvent \<Longrightarrow> generate_callback (to_c_event ev) None = Some None"
  by (simp add: generate_callback_def to_c_event_def)

lemma advance_closed: "advance Closed ev = Some ph \<Longrightarrow> ev_kind ev = kReplanningEvent \<and> ph = Closed"
  by (cases "ev_kind ev") (auto split: if_splits)

lemma advance_terminal: "advance ph ev = Some ph' \<Longrightarrow> ph' = Closed \<longleftrightarrow> ph = Closed \<or> terminal_kind (ev_kind ev)"
  by (cases "ev_kind ev") (auto split: if_splits phase.splits)

definition ctx_ended :: "http_ctx option \<Rightarrow> bool" where
  "ctx_ended ctx = (case ctx of None \<Rightarrow> True | Some c \<Rightarrow> hc_done c)"

lemma client_run_phase:
  assumes "advance_all ph (delivered as) = Some ph'" "ctx_ended ctx \<longleftrightarrow> ph = Closed"
  shows "\<exists>ctx'. client_run as ctx = Some ctx' \<and> (ctx_ended ctx' \<longleftrightarrow> ph' = Closed)"
  using assms
proof (induction "as" arbitrary: ph ctx)
  case (Cons a as)
  show ?case
  proof (cases a)
    case Poll
    have "ctx_ended (case ctx of None \<Rightarrow> None | Some c \<Rightarrow> if hc_done c then None else Some c) = ctx_ended ctx"
      by (simp add: ctx_ended_def split: option.split)
    with Cons Poll show ?thesis by simp
  next
    case (Deliver ev)
    then obtain ph1 where ph1: "advance ph ev = Some ph1" "advance_all ph1 (delivered as) = Some ph'"
      using Cons.prems(1) by (auto split: option.splits)
    show ?thesis
    proof (cases ctx)
      case None
      then have "ph = Closed" using Cons.prems(2) by (simp add: ctx_ended_def)
      with ph1 advance_closed have "ev_kind ev = kReplanningEvent" "ph1 = Closed" by blast+
      then show ?thesis using Deliver None ph1 Cons.IH [of Closed None] callback_freed_silent by (simp add: ctx_ended_def)
    next
      case (Some c)
      let ?c = "\<lparr>hc_sent = hc_sent c @ sse_of ev, hc_done = (hc_done c \<or> terminal_kind (ev_kind ev))\<rparr>"
      have "ctx_ended (Some ?c) \<longleftrightarrow> ph1 = Closed"
        using Cons.prems(2) Some advance_terminal [OF ph1(1)] by (simp add: ctx_ended_def)
      from Cons.IH [OF ph1(2) this] Deliver Some show ?thesis by (simp add: callback_live)
    qed
  qed
qed simp

lemma client_run_text:
  "client_run as (Some c) = Some (Some c') \<Longrightarrow> hc_sent c' = hc_sent c @ concat (map sse_of (delivered as))"
proof (induction "as" arbitrary: c)
  case (Cons a as)
  have freed: "client_run bs None \<noteq> Some (Some x)" for bs x
  proof (induction bs)
    case (Cons b bs)
    have "client_act b None \<in> {None, Some None}" by (cases b) (simp_all add: generate_callback_def)
    with Cons show ?case by auto
  qed simp
  from Cons freed show ?case
    by (cases a) (auto simp: callback_live split: if_splits)
qed simp



section \<open>Generations\<close>

lemma handle_request_reachable:
  assumes "c_reachable env b" "handle_request env hi rq b = Some (cl, b')"
  shows "c_reachable env b'"
proof -
  have step: "c_reachable env b'" if "c_perform env c b = Some b'" for c using c_step [OF assms(1) that] .
  have "b' = b \<or> c_perform env (CJoin (hi_manifest hi) (hi_random hi) (hi_now hi) True) b = Some b'
      \<or> (\<exists>r. c_perform env (CGenerate r True (hi_token hi) True) b = Some b') \<or> (\<exists>gid. c_perform env (CCancelById True gid) b = Some b')"
    using assms(2) by (auto simp: handle_request_def handle_generate_def Let_def map_option_eq_Some split: if_splits option.splits) blast+
  with step assms(1) show ?thesis by blast
qed

text \<open>
  Serving clients keeps the state of the C interface well formed.
\<close>

theorem clients_keep_binding:
  assumes "c_reachable env b" "handle_client env hi input b = Some (cl, b')"
  shows "c_reachable env b'"
  using assms by (auto simp: handle_client_def intro: handle_request_reachable split: option.splits)

lemma rt_generate_error: "rt_generate rq cb tok rt = Some (Inl e, rt', evs) \<Longrightarrow> err_code e \<noteq> kOk"
  by (auto simp: rt_generate_def generate_def Err_def Let_def split: if_splits option.splits)

text \<open>
  The server has an answer for a generation only when the runtime accepts it: the text of a refusal is memory that is freed.
\<close>

theorem refused_generation_undefined:
  assumes "bs_runtime b = Some rt" "handle_generate hi body b = Some (cl, b')"
  shows "\<exists>rq k rt' evs ctx. generate_request body = Some rq \<and> rt_generate rq True (hi_token hi) rt = Some (Ok k, rt', evs) \<and>
    cl = Streaming ctx \<and> bs_runtime b' = Some rt'"
proof -
  obtain rq err h evs b1 where g: "generate_request body = Some rq" "socrates_generate rq True (hi_token hi) True b = Some (err, h, evs, b1)"
    using assms(2) by (auto simp: handle_generate_def split: option.splits)
  obtain r rt' pevs where r: "rt_generate rq True (hi_token hi) rt = Some (r, rt', pevs)"
    using g assms(1) by (auto simp: socrates_generate_def split: option.splits)
  show ?thesis
  proof (cases r)
    case (Inl e)
    then have "err = result_failure e" using r g assms(1) by (simp add: socrates_generate_def)
    moreover have "err_code e \<noteq> kOk" using rt_generate_error r Inl by blast
    ultimately show ?thesis using assms(2) g
      by (auto simp: handle_generate_def result_failure_def make_error_def generate_failed_def error_value_zero split: option.splits)
  next
    case (Inr k)
    then have "err = make_ok" "bs_runtime b1 = Some rt'"
      using r g assms(1) by (auto simp: socrates_generate_def Let_def)
    then show ?thesis using assms(2) g r Inr
      by (auto simp: handle_generate_def make_ok_def make_error_def split: option.splits)
  qed
qed

lemma generate_request_id: "generate_request body = Some rq \<Longrightarrow> iq_request_id rq = ''http-req''"
  by (auto simp: generate_request_def make_request_def Let_def)

lemma immediate_generate:
  assumes "generate rq plan cb tok p = Some (Ok k, p', evs)" "bc_mode (pi_batching p) = kImmediate"
  shows "map_of (pi_workers p') (iq_request_id rq) \<noteq> None" "pi_batching p' = pi_batching p" "pp_stages plan \<noteq> []"
    "pi_production_mode p' = pi_production_mode p" "pi_distributed p' = pi_distributed p"
  using assms by (auto simp: generate_def launch_worker_def Let_def Err_def update_conv' split: if_splits)

lemma second_generate:
  assumes "bc_mode (pi_batching p) = kImmediate" "map_of (pi_workers p) (iq_request_id rq) \<noteq> None"
  shows "generate rq plan cb tok p = None \<or> (\<exists>e. generate rq plan cb tok p = Some (Inl e, p, []))"
  using assms by (auto simp: generate_def launch_worker_def Let_def Err_def)


section \<open>The body of a generation\<close>

lemma extract_text_after:
  "extract_text body key =
     (case after body (key_text key) of None \<Rightarrow> []
      | Some rest \<Rightarrow> takeWhile (\<lambda>c. c \<noteq> quote) (drop 1 (dropWhile (\<lambda>c. c \<noteq> quote) rest)))"
proof (cases "str_find body (key_text key) 0")
  case (Some p)
  let ?pos = "p + length (key_text key)"
  have kt: "key_text key \<noteq> []" "?pos = p + length key + 3" by (simp_all add: key_text_def)
  have pos: "?pos \<le> length body"
    using Some occurs_at_bound [OF _ kt(1)] by (simp add: str_find_Some [OF kt(1)])
  show ?thesis
  proof (cases "quote \<in> set (drop ?pos body)")
    case True
    define q where "q = ?pos + length (takeWhile (\<lambda>c. c \<noteq> quote) (drop ?pos body))"
    have q: "str_find body [quote] ?pos = Some q" using str_find_char [OF pos, of quote] True by (simp add: q_def)
    then have "q + 1 \<le> length body" using occurs_at_bound [of body "[quote]" q] by (simp add: str_find_Some)
    moreover let ?v = "drop 1 (dropWhile (\<lambda>c. c \<noteq> quote) (drop ?pos body))"
    have "drop (q + 1) body = ?v"
      by (simp add: q_def dropWhile_eq_drop add.commute)
    ultimately have tail: "str_find body [quote] (q + 1) =
        (if quote \<in> set ?v then Some (q + 1 + length (takeWhile (\<lambda>c. c \<noteq> quote) ?v)) else None)"
      "drop (q + 1) body = ?v"
      using str_find_char [of "q + 1" body quote] by simp_all
    have e: "extract_text body key = (case str_find body [quote] (q + 1) of None \<Rightarrow> drop (q + 1) body | Some e \<Rightarrow> substr body (q + 1) (e - q - 1))"
      using Some q kt(2) by (simp add: extract_text_def)
    have "extract_text body key = takeWhile (\<lambda>c. c \<noteq> quote) ?v"
    proof (cases "quote \<in> set ?v")
      case True
      then have "extract_text body key = take (length (takeWhile (\<lambda>c. c \<noteq> quote) ?v)) ?v"
        unfolding e substr_def tail(2) unfolding tail(1) by simp
      then show ?thesis unfolding takeWhile_eq_take [symmetric] .
    next
      case False
      then have "extract_text body key = ?v" unfolding e tail(2) unfolding tail(1) by simp
      moreover have "?v = takeWhile (\<lambda>c. c \<noteq> quote) ?v"
        by (rule sym, unfold takeWhile_eq_all_conv) (use False in blast)
      ultimately show ?thesis by (rule trans)
    qed
    then show ?thesis using Some by (simp add: after_def)
  next
    case False
    then have none: "str_find body [quote] ?pos = None" using str_find_char [OF pos, of quote] by simp
    have "dropWhile (\<lambda>c. c \<noteq> quote) (drop ?pos body) = []" unfolding dropWhile_eq_Nil_conv using False by blast
    moreover have "extract_text body key = []" using none Some kt(2) by (simp add: extract_text_def)
    ultimately show ?thesis using Some by (simp add: after_def del: dropWhile_eq_Nil_conv)
  qed
qed (simp add: extract_text_def after_def)

lemma extract_int_after:
  "extract_int body key = (case after body (key_text key) of None \<Rightarrow> Some 0 | Some rest \<Rightarrow> stoi rest)"
  by (simp add: extract_int_def after_def key_text_def add.assoc numeral_3_eq_3 split: option.split)


definition generate_text :: "string \<Rightarrow> string \<Rightarrow> int \<Rightarrow> string" where
  "generate_text model prompt n = ''{'' @ key_text ''model_id'' @ in_quotes model @ '','' @ key_text ''prompt'' @ in_quotes prompt @
     '','' @ key_text ''max_tokens'' @ to_string_int n @ ''}''"

lemma generate_text_segments:
  "generate_text model prompt n = join [''{'', ''model_id'', '':'', model, '','', ''prompt'', '':'', prompt, '','', ''max_tokens'', '':'' @ to_string_int n @ ''}'']"
  by (simp add: generate_text_def key_text_def in_quotes_def join.simps)

lemma stoi_to_string_int:
  assumes "\<not> is_digit c" "- (2 ^ 31) \<le> i" "i < 2 ^ 31"
  shows "stoi (to_string_int i @ c # rest) = Some i"
  using assms by (auto simp: stoi_def to_string_int_def parse_number_dec)

text \<open>
  The fields of a body written in the order of the documentation are read back, with the defaults for empty names and for zero.
\<close>

theorem generate_body_roundtrip:
  assumes "quote \<notin> set model" "quote \<notin> set prompt" "- (2 ^ 31) \<le> n" "n < 2 ^ 31"
  shows "generate_request (generate_text model prompt n) =
    Some (make_request (Some ''http-req'') (Some (c_str (if model = [] then ''qwen3-1.8b'' else model)))
      (Some (c_str (if prompt = [] then ''Hello'' else prompt))) (word_of_int (if n = 0 then 50 else n)) (11744051 / 16777216) 2048)"
proof -
  let ?ss = "[''{'', ''model_id'', '':'', model, '','', ''prompt'', '':'', prompt, '','', ''max_tokens'', '':'' @ to_string_int n @ ''}'']"
  have nq: "no_quotes ?ss" using assms(1,2) no_quote_number(2) [of n] by simp
  have find: "after (generate_text model prompt n) (key_text key) = seg_int key ?ss" if "quote \<notin> set key" for key
    using extract_int_join [OF nq that] by (simp add: key_text_def generate_text_segments)
  have "extract_text (generate_text model prompt n) ''model_id'' = model"
    using assms(1) find [of "''model_id''"] by (simp add: extract_text_after join.simps takeWhile_until)
  moreover have "extract_text (generate_text model prompt n) ''prompt'' = prompt"
    using assms(2) find [of "''prompt''"] by (simp add: extract_text_after join.simps takeWhile_until)
  moreover have "extract_int (generate_text model prompt n) ''max_tokens'' = Some n"
    using stoi_to_string_int [of "CHR ''}''" n "[]"] assms(3,4) find [of "''max_tokens''"]
    by (simp add: extract_int_after join.simps is_digit_def)
  ultimately show ?thesis by (simp add: generate_request_def)
qed


section \<open>Examples\<close>

definition demo_http :: http_inputs where
  "demo_http = \<lparr>hi_read = 1000, hi_manifest = None, hi_random = 1, hi_now = 1, hi_token = 0\<rparr>"

definition demo_master :: "memory_db binding" where
  "demo_master = (case master_main demo_env [''--no-discovery''] 0 demo_inputs demo_http g_state of Some (Inr b) \<Rightarrow> b | _ \<Rightarrow> g_state)"

definition demo_post :: string where
  "demo_post = http_text ''POST'' ''/generate'' (generate_text ''m'' ''hi'' 3)"

lemma demo_master_serves:
  "map_option rt_state (bs_runtime demo_master) = Some kReady \<and>
   map_option (\<lambda>p. bc_mode (pi_batching p)) (Option.bind (bs_runtime demo_master) rt_pipeline) = Some kImmediate"
  by code_simp

lemma demo_post_streams: "case handle_client demo_env demo_http demo_post demo_master of Some (Streaming ctx, b') \<Rightarrow> True | _ \<Rightarrow> False"
  by code_simp

theorem request_roundtrip_witness:
  "parse_request 2 (http_text ''GET'' ''/x'' ''abc'') = Some \<lparr>hr_method = ''GET'', hr_path = ''/x'', hr_body = ''ab'' @ [CHR 0x00]\<rparr>"
proof -
  have "plain_word ''GET''" "plain_word ''/x''" by code_simp+
  moreover have "length ''abc'' < (2 :: nat) ^ 31" by simp
  moreover have "take 2 ''abc'' @ replicate (length ''abc'' - 2) CHR 0x00 = ''ab'' @ [CHR 0x00]" by code_simp
  ultimately show ?thesis using request_roundtrip [of "''GET''" "''/x''" "''abc''" 2] by metis
qed

theorem generate_body_roundtrip_witness:
  "generate_request (generate_text ''m'' ''hi'' 3) = Some (make_request (Some ''http-req'') (Some ''m'') (Some ''hi'') 3 (11744051 / 16777216) 2048)"
  using generate_body_roundtrip [of "''m''" "''hi''" 3] by (simp add: c_str_def)



end
