(* ===== verification/Downloads.thy ===== *)
theory Downloads
  imports Local_Model
begin

text \<open>
  The models that \<^verbatim>\<open>tools/master_cli.cpp\<close> and \<^verbatim>\<open>tools/worker_cli.cpp\<close> download before they start the runtime, and the
  loops that do it. The file system and the shell are parameters: which paths exist, and what a command changes
  and returns. The theorems follow the files to the place where the pipeline looks for them.
\<close>

section \<open>The tables\<close>

record model_info =
  mi_id :: string
  mi_name :: string
  mi_url :: string
  mi_filename :: string

definition master_models :: "model_info list" where
  "master_models =
     [\<lparr>mi_id = ''qwen3-1.8b'', mi_name = ''Qwen 2.5 1.5B'',
        mi_url = ''https://huggingface.co/bartowski/Qwen2.5-1.5B-Instruct-GGUF/resolve/main/Qwen2.5-1.5B-Instruct-Q4_K_M.gguf'',
        mi_filename = ''Qwen2.5-1.5B-Instruct-Q4_K_M.gguf''\<rparr>,
      \<lparr>mi_id = ''qwen3-4b'', mi_name = ''Qwen 2.5 3B'',
        mi_url = ''https://huggingface.co/bartowski/Qwen2.5-3B-Instruct-GGUF/resolve/main/Qwen2.5-3B-Instruct-Q4_K_M.gguf'',
        mi_filename = ''Qwen2.5-3B-Instruct-Q4_K_M.gguf''\<rparr>,
      \<lparr>mi_id = ''qwen3-6b'', mi_name = ''Qwen 2.5 7B'',
        mi_url = ''https://huggingface.co/bartowski/Qwen2.5-7B-Instruct-GGUF/resolve/main/Qwen2.5-7B-Instruct-Q4_K_M.gguf'',
        mi_filename = ''Qwen2.5-7B-Instruct-Q4_K_M.gguf''\<rparr>,
      \<lparr>mi_id = ''llama3-8b'', mi_name = ''Llama 3 8B'',
        mi_url = ''https://huggingface.co/bartowski/Meta-Llama-3-8B-Instruct-GGUF/resolve/main/Meta-Llama-3-8B-Instruct-Q4_K_M.gguf'',
        mi_filename = ''Meta-Llama-3-8B-Instruct-Q4_K_M.gguf''\<rparr>,
      \<lparr>mi_id = ''gemma12b'', mi_name = ''Gemma 2 9B'',
        mi_url = ''https://huggingface.co/bartowski/gemma-2-9b-it-GGUF/resolve/main/gemma-2-9b-it-Q4_K_M.gguf'',
        mi_filename = ''gemma-2-9b-it-Q4_K_M.gguf''\<rparr>,
      \<lparr>mi_id = ''gemma26b'', mi_name = ''Gemma 2 27B'',
        mi_url = ''https://huggingface.co/bartowski/gemma-2-27b-it-GGUF/resolve/main/gemma-2-27b-it-Q4_K_M.gguf'',
        mi_filename = ''gemma-2-27b-it-Q4_K_M.gguf''\<rparr>,
      \<lparr>mi_id = ''gemma4-26b'', mi_name = ''Gemma 4 26B'',
        mi_url = ''https://huggingface.co/bartowski/gemma-4-26b-it-GGUF/resolve/main/gemma-4-26b-it-Q4_K_M.gguf'',
        mi_filename = ''gemma-4-26b-it-Q4_K_M.gguf''\<rparr>,
      \<lparr>mi_id = ''socrates-debug-profiler'', mi_name = ''Profiler'',
        mi_url = ''https://huggingface.co/bartowski/Qwen2.5-0.5B-Instruct-GGUF/resolve/main/Qwen2.5-0.5B-Instruct-Q4_K_M.gguf'',
        mi_filename = ''Qwen2.5-0.5B-Instruct-Q4_K_M.gguf''\<rparr>]"

definition kModels :: "model_info list" where
  "kModels =
     [\<lparr>mi_id = ''qwen3-1.8b'', mi_name = ''Qwen 2.5 1.5B (INT4, ~1.0 GB)'',
        mi_url = ''https://huggingface.co/bartowski/Qwen2.5-1.5B-Instruct-GGUF/resolve/main/Qwen2.5-1.5B-Instruct-Q4_K_M.gguf'',
        mi_filename = ''Qwen2.5-1.5B-Instruct-Q4_K_M.gguf''\<rparr>,
      \<lparr>mi_id = ''qwen3-4b'', mi_name = ''Qwen 2.5 3B (INT4, ~2.0 GB)'',
        mi_url = ''https://huggingface.co/bartowski/Qwen2.5-3B-Instruct-GGUF/resolve/main/Qwen2.5-3B-Instruct-Q4_K_M.gguf'',
        mi_filename = ''Qwen2.5-3B-Instruct-Q4_K_M.gguf''\<rparr>,
      \<lparr>mi_id = ''qwen3-6b'', mi_name = ''Qwen 2.5 7B (INT4, ~4.5 GB)'',
        mi_url = ''https://huggingface.co/bartowski/Qwen2.5-7B-Instruct-GGUF/resolve/main/Qwen2.5-7B-Instruct-Q4_K_M.gguf'',
        mi_filename = ''Qwen2.5-7B-Instruct-Q4_K_M.gguf''\<rparr>,
      \<lparr>mi_id = ''llama3-8b'', mi_name = ''Llama 3 8B (INT4, ~5.0 GB)'',
        mi_url = ''https://huggingface.co/bartowski/Meta-Llama-3-8B-Instruct-GGUF/resolve/main/Meta-Llama-3-8B-Instruct-Q4_K_M.gguf'',
        mi_filename = ''Meta-Llama-3-8B-Instruct-Q4_K_M.gguf''\<rparr>,
      \<lparr>mi_id = ''gemma12b'', mi_name = ''Gemma 2 9B (INT4, ~5.5 GB)'',
        mi_url = ''https://huggingface.co/bartowski/gemma-2-9b-it-GGUF/resolve/main/gemma-2-9b-it-Q4_K_M.gguf'',
        mi_filename = ''gemma-2-9b-it-Q4_K_M.gguf''\<rparr>,
      \<lparr>mi_id = ''gemma26b'', mi_name = ''Gemma 2 27B (INT4, ~16 GB)'',
        mi_url = ''https://huggingface.co/bartowski/gemma-2-27b-it-GGUF/resolve/main/gemma-2-27b-it-Q4_K_M.gguf'',
        mi_filename = ''gemma-2-27b-it-Q4_K_M.gguf''\<rparr>,
      \<lparr>mi_id = ''gemma4-26b'', mi_name = ''Gemma 4 26B (INT4, ~15 GB)'',
        mi_url = ''https://huggingface.co/bartowski/gemma-4-26b-it-GGUF/resolve/main/gemma-4-26b-it-Q4_K_M.gguf'',
        mi_filename = ''gemma-4-26b-it-Q4_K_M.gguf''\<rparr>,
      \<lparr>mi_id = ''socrates-debug-profiler'', mi_name = ''Socrates Profiler (INT4, ~0.1 GB)'',
        mi_url = ''https://huggingface.co/bartowski/Qwen2.5-0.5B-Instruct-GGUF/resolve/main/Qwen2.5-0.5B-Instruct-Q4_K_M.gguf'',
        mi_filename = ''Qwen2.5-0.5B-Instruct-Q4_K_M.gguf''\<rparr>]"

section \<open>The loops\<close>

definition curl_command :: "string \<Rightarrow> string \<Rightarrow> string" where
  "curl_command path url = ''curl -L -o '' @ [CHR 0x22] @ path @ [CHR 0x22] @ '' --progress-bar '' @ [CHR 0x22] @ url @ [CHR 0x22] @ '' 2>&1''"

text \<open>
  \<open>file_exists\<close> and \<open>shell\<close> are \<open>std::filesystem::exists\<close> and \<open>system\<close>. The master ignores what the command returns.
\<close>

fun master_downloads :: "('f \<Rightarrow> string \<Rightarrow> bool) \<Rightarrow> (string \<Rightarrow> 'f \<Rightarrow> int \<times> 'f) \<Rightarrow> model_info list \<Rightarrow> 'f \<Rightarrow> 'f" where
  "master_downloads file_exists shell [] fs = fs"
| "master_downloads file_exists shell (m # ms) fs =
     (let path = ''/tmp/socrates-master/models/'' @ mi_filename m in
      if file_exists fs path then master_downloads file_exists shell ms fs
      else master_downloads file_exists shell ms (snd (shell (curl_command path (mi_url m)) fs)))"

text \<open>What the worker prints for a model.\<close>

datatype download_status = AlreadyDownloaded | DownloadFailed int | Downloaded | Vanished

fun download_models ::
  "('f \<Rightarrow> string \<Rightarrow> bool) \<Rightarrow> (string \<Rightarrow> 'f \<Rightarrow> int \<times> 'f) \<Rightarrow> string \<Rightarrow> model_info list \<Rightarrow> 'f \<Rightarrow> download_status list \<times> 'f" where
  "download_models file_exists shell model_dir [] fs = ([], fs)"
| "download_models file_exists shell model_dir (m # ms) fs =
     (let path = model_dir @ ''/'' @ mi_filename m in
      if file_exists fs path
      then (let (sts, fs') = download_models file_exists shell model_dir ms fs in (AlreadyDownloaded # sts, fs'))
      else let (ret, fs1) = shell (curl_command path (mi_url m)) fs;
               st = (if ret \<noteq> 0 then DownloadFailed ret else if file_exists fs1 path then Downloaded else Vanished);
               (sts, fs') = download_models file_exists shell model_dir ms fs1
           in (st # sts, fs'))"

section \<open>Lemmas\<close>

text \<open>The two loops do the same to the file system.\<close>

lemma same_downloads:
  "snd (download_models file_exists shell ''/tmp/socrates-master/models'' ms fs) = master_downloads file_exists shell ms fs"
  by (induction ms arbitrary: fs) (simp_all add: Let_def case_prod_beta)

definition download_path :: "string \<Rightarrow> model_info \<Rightarrow> string" where
  "download_path dir m = dir @ ''/'' @ mi_filename m"

text \<open>
  What the loops rely on: a command keeps the files that exist, and \<open>curl\<close> makes the file that it is told to write
  when its name needs no escape.
\<close>

definition curl_works :: "('f \<Rightarrow> string \<Rightarrow> bool) \<Rightarrow> (string \<Rightarrow> 'f \<Rightarrow> int \<times> 'f) \<Rightarrow> bool" where
  "curl_works file_exists shell \<longleftrightarrow>
     (\<forall>fs path url. CHR 0x22 \<notin> set path \<longrightarrow> file_exists (snd (shell (curl_command path url) fs)) path) \<and>
     (\<forall>fs path url q. file_exists fs q \<longrightarrow> file_exists (snd (shell (curl_command path url) fs)) q)"

lemma download_keeps:
  assumes "curl_works file_exists shell" "file_exists fs q"
  shows "file_exists (snd (download_models file_exists shell dir ms fs)) q"
  using assms by (induction ms arbitrary: fs) (simp_all add: Let_def case_prod_beta curl_works_def)

lemma downloads_exist:
  assumes "curl_works file_exists shell" "m \<in> set ms" "CHR 0x22 \<notin> set (download_path dir m)"
  shows "file_exists (snd (download_models file_exists shell dir ms fs)) (download_path dir m)"
  using assms(2,3)
proof (induction ms arbitrary: fs)
  case (Cons x ms)
  show ?case
  proof (cases "m = x")
    case True
    then show ?thesis using download_keeps [OF assms(1)] assms(1) Cons.prems(2)
      by (simp add: Let_def case_prod_beta download_path_def curl_works_def)
  next
    case False
    then show ?thesis using Cons by (simp add: Let_def case_prod_beta)
  qed
qed simp

text \<open>Which of the downloaded files the pipeline takes for which model.\<close>

definition matching_files :: "string \<Rightarrow> string list" where
  "matching_files mid = filter (name_matches mid) (map mi_filename kModels)"

definition own_file :: "model_info \<Rightarrow> bool" where
  "own_file m \<longleftrightarrow> matching_files (mi_id m) = [mi_filename m]"

text \<open>Lower case is one bit of the character.\<close>

lemma to_lower_bits [code]:
  "to_lower (Char b0 b1 b2 b3 b4 b5 b6 b7) =
     (if \<not> b7 \<and> b6 \<and> \<not> b5 \<and> (b0 \<or> b1 \<or> b2 \<or> b3 \<or> b4) \<and> \<not> (b4 \<and> b3 \<and> (b2 \<or> b1 \<and> b0)) then Char b0 b1 b2 b3 b4 True b6 b7
      else Char b0 b1 b2 b3 b4 b5 b6 b7)"
  by (cases b0; cases b1; cases b2; cases b3; cases b4; cases b5; cases b6; cases b7; simp add: to_lower_def char_of_def bit_0)

lemma own_files: "map own_file kModels = [True, True, False, True, True, True, True, False]"
  by code_simp

lemma filenames:
  assumes "m \<in> set kModels"
  shows "path_extension (mi_filename m) = ''.gguf''" "CHR ''/'' \<notin> set (mi_filename m)" "CHR 0x22 \<notin> set (mi_filename m)"
proof -
  have "list_all (\<lambda>m. path_extension (mi_filename m) = ''.gguf'') kModels" by code_simp
  moreover have "list_all (\<lambda>m. CHR ''/'' \<notin> set (mi_filename m) \<and> CHR 0x22 \<notin> set (mi_filename m)) kModels" by code_simp
  ultimately show "path_extension (mi_filename m) = ''.gguf''" "CHR ''/'' \<notin> set (mi_filename m)" "CHR 0x22 \<notin> set (mi_filename m)"
    using assms by (simp_all add: list_all_iff)
qed

lemma tables_agree: "map (\<lambda>m. (mi_id m, mi_url m, mi_filename m)) master_models = map (\<lambda>m. (mi_id m, mi_url m, mi_filename m)) kModels"
  by code_simp

lemma qwen_6b_files: "matching_files ''qwen3-6b'' = [''Qwen2.5-7B-Instruct-Q4_K_M.gguf'', ''gemma-2-27b-it-Q4_K_M.gguf'']"
  by code_simp

lemma profiler_files: "matching_files ''socrates-debug-profiler'' = []"
  by code_simp

lemma path_filename_slash: "CHR ''/'' \<notin> set f \<Longrightarrow> path_filename (dir @ CHR ''/'' # f) = f"
  by (simp add: path_filename_def takeWhile_append)

lemma path_filename_plain: "CHR ''/'' \<notin> set f \<Longrightarrow> path_filename f = f"
proof -
  assume "CHR ''/'' \<notin> set f"
  then have "takeWhile (\<lambda>c. c \<noteq> CHR ''/'') (rev f) = rev f" unfolding takeWhile_eq_all_conv by auto
  then show ?thesis unfolding path_filename_def by (simp only: rev_rev_ident)
qed

lemma path_extension_slash: "CHR ''/'' \<notin> set f \<Longrightarrow> path_extension (dir @ CHR ''/'' # f) = path_extension f"
  by (simp add: path_extension_def path_filename_slash path_filename_plain)

lemma downloaded_qualifies:
  assumes "m \<in> set kModels" "en_path en = download_path dir m" "en_size en = Some sz" "1000000 \<le> sz" "mid \<noteq> []"
  shows "qualifies mid en \<longleftrightarrow> mi_filename m \<in> set (matching_files mid)"
proof -
  have m: "CHR ''/'' \<notin> set (mi_filename m)" "path_extension (mi_filename m) = ''.gguf''"
    using assms(1) filenames by simp_all
  then have "path_extension (en_path en) = ''.gguf''" "path_filename (en_path en) = mi_filename m"
    using assms(2) path_extension_slash path_filename_slash by (simp_all add: download_path_def)
  then show ?thesis using assms by (simp add: qualifies_def matching_files_def image_iff) blast
qed

section \<open>Properties\<close>

text \<open>A directory that holds the downloaded files, in whatever order the file system lists them.\<close>

definition holds_downloads :: "string \<Rightarrow> dir_entry list \<Rightarrow> bool" where
  "holds_downloads dir ens \<longleftrightarrow> set (map en_path ens) = set (map (download_path dir) kModels) \<and>
     (\<forall>en \<in> set ens. case en_size en of None \<Rightarrow> False | Some sz \<Rightarrow> 1000000 \<le> sz)"

lemma find_download:
  assumes "holds_downloads dir ens" "mid \<noteq> []" "matching_files mid \<noteq> []"
  obtains en m where "List.find (qualifies mid) ens = Some en" "en_path en = download_path dir m" "m \<in> set kModels"
    "mi_filename m \<in> set (matching_files mid)"
proof -
  have q: "\<exists>m \<in> set kModels. en_path en = download_path dir m \<and> (qualifies mid en \<longleftrightarrow> mi_filename m \<in> set (matching_files mid))"
    if "en \<in> set ens" for en
  proof -
    have "en_path en \<in> set (map (download_path dir) kModels)"
      using assms(1) that unfolding holds_downloads_def by (metis image_eqI list.set_map)
    then obtain m where "m \<in> set kModels" "en_path en = download_path dir m" by auto
    moreover have "case en_size en of None \<Rightarrow> False | Some sz \<Rightarrow> 1000000 \<le> sz"
      using assms(1) that unfolding holds_downloads_def by blast
    then obtain sz where "en_size en = Some sz" "1000000 \<le> sz" by (auto split: option.splits)
    ultimately show ?thesis using downloaded_qualifies assms(2) by blast
  qed
  obtain m where m: "m \<in> set kModels" "mi_filename m \<in> set (matching_files mid)"
    using list.set_sel(1) [OF assms(3)] by (auto simp: matching_files_def simp del: list.set_sel)
  have "download_path dir m \<in> set (map en_path ens)" using assms(1) m(1) unfolding holds_downloads_def by simp
  then obtain en where en: "en \<in> set ens" "en_path en = download_path dir m" by auto
  obtain m1 where m1: "en_path en = download_path dir m1" "qualifies mid en \<longleftrightarrow> mi_filename m1 \<in> set (matching_files mid)"
    using q [OF en(1)] by blast
  with en(2) have "mi_filename m1 = mi_filename m" by (simp add: download_path_def)
  with m1 m have "qualifies mid en" by simp
  with en(1) have "List.find (qualifies mid) ens \<noteq> None" by (auto simp: find_None_iff)
  then obtain en' where f: "List.find (qualifies mid) ens = Some en'" by blast
  then have "en' \<in> set ens" "qualifies mid en'" by (auto simp: find_Some_iff)
  with q [of en'] f that show ?thesis by blast
qed


text \<open>A file system that is the list of its paths, and a shell whose \<open>curl\<close> adds the quoted path.\<close>

definition demo_shell :: "string \<Rightarrow> string list \<Rightarrow> int \<times> string list" where
  "demo_shell cmd fs = (0, takeWhile (\<lambda>c. c \<noteq> CHR 0x22) (drop 1 (dropWhile (\<lambda>c. c \<noteq> CHR 0x22) cmd)) # fs)"


definition demo_listing :: "dir_entry list" where
  "demo_listing = map (\<lambda>m. \<lparr>en_path = download_path ''/tmp/socrates-master/models'' m, en_size = Some 2000000\<rparr>) kModels"

lemma demo_shell_works: "curl_works (\<lambda>fs p. p \<in> set fs) demo_shell"
  by (auto simp: curl_works_def demo_shell_def curl_command_def takeWhile_append)


end
