(* ===== verification/Worker.thy ===== *)
theory Worker
  imports Binding_Json
begin

text \<open>
  \<^verbatim>\<open>tools/worker_cli.cpp\<close>: the program of a worker over the C interface: it waits until a snapshot of the cluster names
  a leader and then reads commands from its console. The console is the list of the characters typed so far and then
  the end of input. \<open>None\<close> is the end of the process or undefined behaviour: an exception of
  \<open>substr\<close> or of the runtime, the message of an error that is freed. Console output is left out except for the numbers and texts
  that the theorems are about.
\<close>

section \<open>Definitions\<close>

text \<open>
  One look at a snapshot: the leader that it names, if any. The position behind the key is one character too far.
\<close>

definition detect_leader :: "string \<Rightarrow> string option option" where
  "detect_leader snap =
     (case str_find snap (key_text ''leader_id'' @ [quote]) 0 of
        None \<Rightarrow> Some None
      | Some p \<Rightarrow>
          (let pos = p + 14 in
           if length snap < pos then None
           else let leader = (case str_find snap [quote] pos of None \<Rightarrow> drop pos snap | Some e \<Rightarrow> substr snap pos (e - pos))
             in Some (if leader \<noteq> [] \<and> leader \<noteq> ''null'' then Some leader else None)))"

text \<open>
  The loop over the states that the interface is in at successive looks: the leader with the state in which it was seen;
  \<open>Some None\<close> says that it still waits after the last one.
\<close>

fun wait_for_master :: "'db binding list \<Rightarrow> (string \<times> 'db binding) option option" where
  "wait_for_master [] = Some None"
| "wait_for_master (b # bs) =
     (case Option.bind (socrates_cluster_snapshot_json True b) detect_leader of
        None \<Rightarrow> None
      | Some (Some leader) \<Rightarrow> Some (Some (leader, b))
      | Some None \<Rightarrow> wait_for_master bs)"

record 'db worker_state =
  wc_binding :: "'db binding"
  wc_running :: bool
  wc_joined :: bool

record join_inputs =
  ji_manifest :: "manifest_file option"
  ji_random :: u64
  ji_now :: time_point

text \<open>A join that fails prints the message of the error.\<close>

definition worker_join :: "('c, 'db) runtime_env \<Rightarrow> join_inputs \<Rightarrow> 'db worker_state \<Rightarrow> 'db worker_state option" where
  "worker_join env ji w =
     (case socrates_join_cluster env (ji_manifest ji) (ji_random ji) (ji_now ji) True (wc_binding w) of
        None \<Rightarrow> None
      | Some (err, b') \<Rightarrow>
          if se_code err = 0 then Some (w\<lparr>wc_binding := b', wc_joined := True\<rparr>)
          else if se_message err = Freed then None
          else Some (w\<lparr>wc_binding := b'\<rparr>))"

text \<open>\<open>while ((pos = s.find(key, pos)) != npos) { ++count; ++pos; }\<close>.\<close>

function count_devices :: "string \<Rightarrow> nat \<Rightarrow> nat" where
  "count_devices s pos =
     (case str_find s (key_text ''node_id'') pos of None \<Rightarrow> 0 | Some p \<Rightarrow> Suc (count_devices s (Suc p)))"
  by pat_completeness auto
termination
proof (relation "measure (\<lambda>(s, pos). length s - pos)")
  fix s pos p
  assume "str_find s (key_text ''node_id'') pos = Some p"
  then have "pos \<le> p" "occurs_at s (key_text ''node_id'') p" by (simp_all add: str_find_Some key_text_def)
  moreover have "key_text ''node_id'' \<noteq> []" by (simp add: key_text_def)
  ultimately have "p + length (key_text ''node_id'') \<le> length s" using occurs_at_bound by blast
  with \<open>pos \<le> p\<close> show "((s, Suc p), s, pos) \<in> measure (\<lambda>(s, pos). length s - pos)" by (simp add: key_text_def)
qed simp

declare count_devices.simps [simp del]

text \<open>What the status shows: the flag, the number of devices, the snapshot.\<close>

definition show_status :: "'db worker_state \<Rightarrow> (bool \<times> nat \<times> string) option" where
  "show_status w =
     map_option (\<lambda>snap. (wc_joined w, count_devices snap 0, snap)) (socrates_cluster_snapshot_json True (wc_binding w))"

definition worker_command :: "('c, 'db) runtime_env \<Rightarrow> join_inputs \<Rightarrow> char \<Rightarrow> 'db worker_state \<Rightarrow> 'db worker_state option" where
  "worker_command env ji c w =
     (if c = CHR ''j'' then if wc_joined w then Some w else worker_join env ji w
      else if c = CHR ''l'' then Some (w\<lparr>wc_joined := False\<rparr>)
      else if c = CHR ''s'' then map_option (\<lambda>_. w) (show_status w)
      else if c = CHR ''q'' then Some (w\<lparr>wc_running := False\<rparr>)
      else Some w)"

text \<open>\<open>while (getchar() != newline) {}\<close>; at the end of the input it reads forever.\<close>

fun skip_line :: "string \<Rightarrow> string option" where
  "skip_line [] = None"
| "skip_line (c # cs) = (if c = CHR 0x0A then Some cs else skip_line cs)"

lemma skip_line_less: "skip_line cs = Some rest \<Longrightarrow> length rest < length cs"
  by (induction cs) (auto split: if_splits)

datatype loop_end = Quit | EndOfInput | Hang

function (sequential) worker_loop ::
  "('c, 'db) runtime_env \<Rightarrow> (nat \<Rightarrow> join_inputs) \<Rightarrow> string \<Rightarrow> 'db worker_state \<Rightarrow> (loop_end \<times> 'db worker_state) option" where
  "worker_loop env jis [] w = Some (if wc_running w then EndOfInput else Quit, w)"
| "worker_loop env jis (c # cs) w =
     (if \<not> wc_running w then Some (Quit, w)
      else case skip_line cs of
        None \<Rightarrow> Some (Hang, w)
      | Some rest \<Rightarrow>
          (case worker_command env (jis (length cs)) c w of None \<Rightarrow> None | Some w' \<Rightarrow> worker_loop env jis rest w'))"
  by pat_completeness auto
termination
  by (relation "measure (\<lambda>(env, jis, cs, w). length cs)") (auto dest: skip_line_less)

definition worker_config :: "bool \<Rightarrow> u32 \<Rightarrow> socrates_config" where
  "worker_config no_discovery unset = \<lparr>sc_version = 2, sc_state_directory = Some ''/tmp/socrates-worker'',
     sc_model_root = Some ''/tmp/socrates-worker/models'', sc_cluster_id = Some ''socrates-cluster'', sc_trust_mode = 0,
     sc_recovery_token_retention = unset, sc_tracing_enabled = False, sc_start_as_leech = True, sc_production_mode = False,
     sc_batching_mode = 0, sc_max_batch_size = 4, sc_batch_timeout_ms = 5, sc_long_context_threshold = 4096,
     sc_skip_discovery = no_discovery\<rparr>"

text \<open>
  \<open>main\<close> after the downloads, up to the command loop: the exit code or the state in which the loop starts. \<open>looks\<close> are the states
  of the interface at the looks for a master, given the state after the start; \<open>Inl None\<close> says that it still waits.
\<close>

definition worker_main ::
  "('c, 'db) runtime_env \<Rightarrow> string list \<Rightarrow> u32 \<Rightarrow> 'db start_inputs \<Rightarrow> join_inputs \<Rightarrow> ('db binding \<Rightarrow> 'db binding list)
     \<Rightarrow> 'db binding \<Rightarrow> (int option + 'db worker_state) option" where
  "worker_main env args unset inp ji looks b =
     (let standalone = (''--standalone'' \<in> set args); no_discovery = (''--no-discovery'' \<in> set args) in
      case socrates_init (worker_config no_discovery unset) True b of
        None \<Rightarrow> None
      | Some (err, b1) \<Rightarrow>
          if se_code err \<noteq> 0 then Some (Inl (Some 1))
          else (case socrates_start env inp True b1 of
             None \<Rightarrow> None
           | Some (err2, b2) \<Rightarrow>
               if se_code err2 \<noteq> 0 then Some (Inl (Some 1))
               else if \<not> standalone \<and> \<not> no_discovery then
                 (case wait_for_master (looks b2) of
                    None \<Rightarrow> None
                  | Some None \<Rightarrow> Some (Inl None)
                  | Some (Some (leader, b3)) \<Rightarrow> Some (Inr \<lparr>wc_binding = b3, wc_running = True, wc_joined = False\<rparr>))
               else if standalone then
                 map_option Inr (worker_join env ji \<lparr>wc_binding = b2, wc_running = True, wc_joined = False\<rparr>)
               else Some (Inr \<lparr>wc_binding = b2, wc_running = True, wc_joined = False\<rparr>)))"

section \<open>Keys in a text\<close>

lemma find_quote_text:
  assumes "pos \<le> length s"
  shows "(case str_find s [quote] pos of None \<Rightarrow> drop pos s | Some e \<Rightarrow> substr s pos (e - pos)) = takeWhile (\<lambda>c. c \<noteq> quote) (drop pos s)"
proof (cases "quote \<in> set (drop pos s)")
  case True
  then show ?thesis using str_find_char [OF assms, of quote] takeWhile_eq_take [of "\<lambda>c. c \<noteq> quote" "drop pos s"] by (simp add: substr_def)
next
  case False
  have "takeWhile (\<lambda>c. c \<noteq> quote) (drop pos s) = drop pos s" unfolding takeWhile_eq_all_conv using False by blast
  moreover have "str_find s [quote] pos = None" using False str_find_char [OF assms, of quote] by simp
  ultimately show ?thesis by (simp only: option.case)
qed

text \<open>How often a key occurs, read from left to right.\<close>

fun key_count :: "string \<Rightarrow> string \<Rightarrow> nat" where
  "key_count key [] = 0"
| "key_count key (c # cs) = (if take (length (key_text key)) (c # cs) = key_text key then 1 else 0) + key_count key cs"

lemma key_count_skip: "quote \<notin> set xs \<Longrightarrow> key_count key (xs @ ys) = key_count key ys"
  by (induction xs) (auto simp: key_text_def)

lemma key_count_quote:
  assumes "quote \<notin> set t" "quote \<notin> set key"
  shows "key_count key (quote # t @ quote # c # ys) = (if t = key \<and> c = CHR '':'' then 1 else 0) + key_count key (quote # c # ys)"
proof -
  have "take (length (key_text key)) (quote # t @ quote # c # ys) = key_text key \<longleftrightarrow> t = key \<and> c = CHR '':''"
    using prefix_at_quote [OF assms, of "'':''" "c # ys"] by (simp add: key_text_def)
  moreover have "key_count key (t @ quote # c # ys) = key_count key (quote # c # ys)" using key_count_skip [OF assms(1)] .
  ultimately show ?thesis by simp
qed

definition plain_key :: "string \<Rightarrow> bool" where
  "plain_key key \<longleftrightarrow> quote \<notin> set key \<and> key \<noteq> [] \<and> hd key \<notin> {CHR '','', CHR ''}'', CHR '':''}"

lemma key_count_other: "c \<noteq> hd key \<Longrightarrow> plain_key key \<Longrightarrow> c \<noteq> quote \<Longrightarrow> key_count key (quote # c # ys) = key_count key ys"
  by (cases key) (auto simp: key_text_def plain_key_def)

lemma key_count_char: "c \<noteq> quote \<Longrightarrow> key_count key (c # ys) = key_count key ys"
  by (simp add: key_text_def)

declare key_count.simps [simp del]

lemma key_count_key:
  assumes "plain_key key" "quote \<notin> set k"
  shows "key_count key (key_text k @ ys) = (if k = key then 1 else 0) + key_count key ys"
  using key_count_quote [OF assms(2), of key "CHR '':''" ys] key_count_other [of "CHR '':''" key ys] assms(1)
  by (auto simp: key_text_def plain_key_def)

lemma key_count_name:
  assumes "plain_key key" "quote \<notin> set v" "c = CHR '','' \<or> c = CHR ''}''"
  shows "key_count key (in_quotes v @ c # ys) = key_count key ys"
  using key_count_quote [OF assms(2), of key c ys] key_count_other [of c key ys] assms by (auto simp: in_quotes_def plain_key_def)

lemma key_count_numbers [simp]:
  "key_count key (to_string (w :: 'a::len word) @ ys) = key_count key ys" "key_count key (to_string_int i @ ys) = key_count key ys"
  "key_count key (dec n @ ys) = key_count key ys"
  by (auto intro!: key_count_skip simp: no_quote_number dest: dec_digits [of quote] simp: is_digit_def)

lemmas key_counts = key_count_key key_count_name key_count_char

lemma key_count_capability:
  assumes "plain_key key" "key \<notin> {''ram_mb'', ''cpu'', ''cores''}" "case cap of None \<Rightarrow> True | Some c \<Rightarrow> clean_text (cp_cpu_model c)"
  shows "key_count key (print_capability cap @ ys) = key_count key ys"
  using assms by (cases cap) (auto simp: print_capability_def clean_text_def key_counts)

lemma key_count_member:
  assumes "plain_key key" "key \<notin> {''state'', ''role'', ''ram_mb'', ''cpu'', ''cores'', ''models_ready''}" "clean_text (pa_node_id (mb_peer m))"
    "case mb_capability m of None \<Rightarrow> True | Some c \<Rightarrow> clean_text (cp_cpu_model c)"
  shows "key_count key (print_member m @ ys) = (if key = ''node_id'' then 1 else 0) + key_count key ys"
  using assms by (auto simp: print_member_def clean_text_def key_counts key_count_capability)

lemma key_count_stage:
  assumes "plain_key key" "key \<notin> {''ordinal'', ''backend'', ''layers''}" "clean_text (sa_node_id st)"
  shows "key_count key (print_stage st @ ys) = (if key = ''node_id'' then 1 else 0) + key_count key ys"
  using assms by (auto simp: print_stage_def clean_text_def key_counts)

lemma key_count_list:
  assumes "\<forall>x \<in> set xs. \<forall>ys. key_count key (f x @ ys) = n + key_count key ys"
  shows "key_count key (print_from st f xs @ ys) = n * length xs + key_count key ys"
  using assms by (induction xs arbitrary: st) (auto simp: key_count_char)


lemma key_count_snapshot:
  assumes "plain_key key" "key \<notin> {''state'', ''role'', ''ram_mb'', ''cpu'', ''cores'', ''models_ready'', ''ordinal'', ''backend'', ''layers'',
      ''revision'', ''local_role'', ''term'', ''devices'', ''stages''}" "clean_snapshot snap"
  shows "key_count key (print_snapshot snap) = (if key = ''leader_id'' \<and> ls_leader_id (rs_leadership snap) \<noteq> None then 1 else 0) +
    (if key = ''node_id'' then length (snap_members (rs_membership snap)) +
       (case rs_active_plan snap of None \<Rightarrow> 0 | Some plan \<Rightarrow> length (pp_stages plan)) else 0)"
proof -
  let ?n = "if key = ''node_id'' then 1 else 0 :: nat"
  have members: "key_count key (print_from False print_member (snap_members (rs_membership snap)) @ ys) =
      ?n * length (snap_members (rs_membership snap)) + key_count key ys" for ys
    using assms by (intro key_count_list ballI allI key_count_member) (auto simp: clean_snapshot_def)
  have stages: "key_count key (print_from False print_stage (pp_stages plan) @ ys) = ?n * length (pp_stages plan) + key_count key ys"
    if "rs_active_plan snap = Some plan" for plan ys
    using assms that by (intro key_count_list ballI allI key_count_stage) (auto simp: clean_snapshot_def)
  have names: "quote \<notin> set l" if "ls_leader_id (rs_leadership snap) = Some l" for l
    using assms(3) that by (simp add: clean_snapshot_def clean_text_def)
  have revision: "quote \<notin> set (to_string (snap_revision (rs_membership snap)))" using no_quote_number by blast
  have nil: "key_count key [] = 0" by (simp add: key_count.simps)
  from assms(1,2) names revision show ?thesis
    by (cases "ls_leader_id (rs_leadership snap)"; cases "rs_active_plan snap")
       (auto simp: print_snapshot_def key_counts members stages nil)
qed

text \<open>The loop of the status counts the keys.\<close>

lemma key_count_drop:
  "key_count key (drop pos s) = (if pos < length s then (if occurs_at s (key_text key) pos then 1 else 0) + key_count key (drop (Suc pos) s) else 0)"
proof (cases "pos < length s")
  case True
  then obtain c cs where "drop pos s = c # cs" "drop (Suc pos) s = cs" by (metis Cons_nth_drop_Suc)
  with True show ?thesis by (simp add: key_count.simps occurs_at_def)
qed (simp add: key_count.simps)

lemma key_count_none:
  assumes "str_find s (key_text key) pos = None"
  shows "key_count key (drop pos s) = 0"
proof -
  have "\<forall>l \<ge> pos. \<not> occurs_at s (key_text key) l" using assms by (simp add: str_find_None key_text_def)
  then show ?thesis
  proof (induction "length s - pos" arbitrary: pos)
    case 0
    then show ?case by (simp add: key_count.simps)
  next
    case (Suc n)
    then show ?case using Suc(1) [of "Suc pos"] by (subst key_count_drop) auto
  qed
qed

lemma key_count_some:
  assumes "str_find s (key_text key) pos = Some p"
  shows "key_count key (drop pos s) = Suc (key_count key (drop (Suc p) s))"
proof -
  have p: "pos \<le> p" "occurs_at s (key_text key) p" "\<forall>l. pos \<le> l \<and> l < p \<longrightarrow> \<not> occurs_at s (key_text key) l"
    using assms by (simp_all add: str_find_Some key_text_def)
  have "p < length s" using occurs_at_bound [OF p(2)] by (simp add: key_text_def)
  with p show ?thesis
  proof (induction "p - pos" arbitrary: pos)
    case 0
    then show ?case by (subst key_count_drop) simp
  next
    case (Suc n)
    then have "key_count key (drop (Suc pos) s) = Suc (key_count key (drop (Suc p) s))" by auto
    with Suc show ?case by (subst key_count_drop) auto
  qed
qed

lemma count_devices_keys: "count_devices s pos = key_count ''node_id'' (drop pos s)"
proof (induction s pos rule: count_devices.induct)
  case (1 s pos)
  then show ?case
    by (subst count_devices.simps) (auto simp: key_count_none key_count_some split: option.split)
qed


section \<open>The leader\<close>

lemma detect_leader_after:
  "detect_leader snap =
     (case after snap (key_text ''leader_id'' @ [quote]) of
        None \<Rightarrow> Some None
      | Some r \<Rightarrow> if r = [] then None
          else let v = takeWhile (\<lambda>c. c \<noteq> quote) (drop 1 r) in Some (if v \<noteq> [] \<and> v \<noteq> ''null'' then Some v else None))"
proof (cases "str_find snap (key_text ''leader_id'' @ [quote]) 0")
  case (Some p)
  let ?r = "drop (p + 13) snap"
  have len: "length (key_text ''leader_id'' @ [quote]) = 13" by (simp add: key_text_def)
  have bound: "p + 13 \<le> length snap"
    using Some occurs_at_bound [of snap "key_text ''leader_id'' @ [quote]" p] len by (simp add: str_find_Some)
  have r: "after snap (key_text ''leader_id'' @ [quote]) = Some ?r" using Some len by (simp add: after_def)
  show ?thesis
  proof (cases "p + 14 \<le> length snap")
    case True
    then have ne: "?r \<noteq> []" "drop 1 ?r = drop (p + 14) snap" by (simp_all add: add.commute)
    have "(case str_find snap [quote] (p + 14) of None \<Rightarrow> drop (p + 14) snap | Some e \<Rightarrow> substr snap (p + 14) (e - (p + 14))) =
        takeWhile (\<lambda>c. c \<noteq> quote) (drop (p + 14) snap)"
      by (rule find_quote_text [OF True])
    with True ne r Some show ?thesis by (simp add: detect_leader_def)
  next
    case False
    with bound have "?r = []" by simp
    with False r Some show ?thesis by (simp add: detect_leader_def)
  qed
qed (simp add: detect_leader_def after_def)

lemma after_join_first:
  assumes "take (length r) (join ss) = r" "ss \<noteq> []" "quote \<notin> set key"
  shows "no_quotes (s # ts) \<Longrightarrow> key \<notin> set ts \<Longrightarrow>
    after (join (s # ts @ key # ss)) (quote # key @ quote # r) = Some (drop (length r) (join ss))"
proof (induction ts arbitrary: s)
  case Nil
  then show ?case using after_join [of s key key ss r] assms by simp
next
  case (Cons t ts)
  then show ?case using after_join [of s t key "ts @ key # ss" r] assms by auto
qed

lemma number_not_leader_id: "to_string (w :: 'a::len word) \<noteq> ''leader_id''"
  using dec_digits [of "CHR ''l''" "unat w"] by (auto simp: to_string_def is_digit_def)

lemma after_snapshot:
  assumes "ls_leader_id (rs_leadership snap) = Some l" "quote \<notin> set l"
  shows "\<exists>rest. after (print_snapshot snap) (key_text ''leader_id'' @ [quote]) = Some (l @ quote # CHR '','' # quote # rest)"
proof -
  define rest where "rest = ''term'' @ quote # '':'' @ to_string (lf_term (ls_fence (rs_leadership snap))) @
     '','' @ key_text ''devices'' @ ''['' @ print_from False print_member (snap_members (rs_membership snap)) @ '']'' @
     (case rs_active_plan snap of None \<Rightarrow> []
      | Some plan \<Rightarrow> '','' @ key_text ''stages'' @ ''['' @ print_from False print_stage (pp_stages plan) @ '']'') @ ''}''"
  define st ro rev' where "st = to_string_int (runtime_state_value (rs_state snap))"
    and "ro = to_string_int (node_role_value (rs_local_role snap))" and "rev' = to_string (snap_revision (rs_membership snap))"
  define ts where "ts = [''revision'', '':'', rev', '','', ''state'', '':'' @ st @ '','', ''local_role'', '':'' @ ro @ '','']"
  define ss where "ss = ['':'', l @ quote # CHR '','' # quote # rest]"
  have nq: "quote \<notin> set st" "quote \<notin> set ro" "quote \<notin> set rev'"
    using no_quote_number by (simp_all add: st_def ro_def rev'_def)
  have "rev' \<noteq> ''leader_id''" unfolding rev'_def by (rule number_not_leader_id)
  then have ts: "no_quotes (''{'' # ts)" "''leader_id'' \<notin> set ts" using nq by (simp_all add: ts_def)
  have ss: "take (length [CHR '':'', quote]) (join ss) = [CHR '':'', quote]" "ss \<noteq> []"
    "drop (length [CHR '':'', quote]) (join ss) = l @ quote # CHR '','' # quote # rest"
    by (simp_all add: ss_def join.simps)
  have whole: "print_snapshot snap = join (''{'' # ts @ ''leader_id'' # ss)"
    using assms(1) by (simp add: print_snapshot_def key_text_def in_quotes_def join.simps rest_def ts_def ss_def st_def ro_def rev'_def)
  have "quote \<notin> set ''leader_id''" by simp
  from after_join_first [OF ss(1,2) this ts] have
    "after (print_snapshot snap) (quote # ''leader_id'' @ quote # [CHR '':'', quote]) = Some (l @ quote # CHR '','' # quote # rest)"
    unfolding whole ss(3) .
  moreover have "key_text ''leader_id'' @ [quote] = quote # ''leader_id'' @ quote # [CHR '':'', quote]" by (simp add: key_text_def)
  ultimately show ?thesis by auto
qed


section \<open>Properties\<close>

text \<open>
  C38. What a worker makes of a snapshot whose names need no escape. Without a leader it goes on waiting. With one it takes the name without its
  first character, so that a name of one character, or one that is \<open>null\<close> behind its first character, is never seen.
\<close>

theorem worker_reads_leader:
  assumes "clean_snapshot snap"
  shows "detect_leader (print_snapshot snap) =
    Some (case ls_leader_id (rs_leadership snap) of
        None \<Rightarrow> None
      | Some [] \<Rightarrow> Some '',''
      | Some (c # cs) \<Rightarrow> if cs \<noteq> [] \<and> cs \<noteq> ''null'' then Some cs else None)"
proof (cases "ls_leader_id (rs_leadership snap)")
  case None
  have "key_count ''leader_id'' (print_snapshot snap) = 0"
    using key_count_snapshot [OF _ _ assms, of "''leader_id''"] None by (simp add: plain_key_def)
  then have no: "str_find (print_snapshot snap) (key_text ''leader_id'') 0 = None"
    using key_count_some [of "print_snapshot snap" "''leader_id''" 0] by (cases "str_find (print_snapshot snap) (key_text ''leader_id'') 0") auto
  have "str_find (print_snapshot snap) (key_text ''leader_id'' @ [quote]) 0 = None"
  proof -
    have "\<not> occurs_at (print_snapshot snap) (key_text ''leader_id'') i" for i
      using no by (simp add: str_find_None key_text_def)
    moreover have "occurs_at s p i" if "occurs_at s (p @ q) i" for s p q :: string and i
      using arg_cong [OF that [unfolded occurs_at_def], of "take (length p)"] by (simp add: occurs_at_def)
    ultimately show ?thesis by (simp add: str_find_None) blast
  qed
  then show ?thesis using None by (simp add: detect_leader_def)
next
  case (Some l)
  have l: "quote \<notin> set l" using assms Some by (simp add: clean_snapshot_def clean_text_def)
  obtain rest where r: "after (print_snapshot snap) (key_text ''leader_id'' @ [quote]) = Some (l @ quote # CHR '','' # quote # rest)"
    using after_snapshot [OF Some l] by blast
  show ?thesis
  proof (cases l)
    case Nil
    then show ?thesis using Some r by (simp add: detect_leader_after)
  next
    case (Cons c cs)
    then have "takeWhile (\<lambda>c. c \<noteq> quote) (cs @ quote # CHR '','' # quote # rest) = cs" using l by (simp add: takeWhile_until)
    with Cons Some r show ?thesis by (simp add: detect_leader_after)
  qed
qed

text \<open>
  The status calls every stage of the plan a device: it shows the number of members plus the number of stages.
\<close>

theorem status_counts_stages:
  assumes "bs_runtime (wc_binding w) = Some rt" "rt_snapshot rt = Returned (Ok snap)" "clean_snapshot snap" "CHR 0x00 \<notin> set (print_snapshot snap)"
  shows "show_status w = Some (wc_joined w, length (snap_members (rs_membership snap)) +
    (case rs_active_plan snap of None \<Rightarrow> 0 | Some plan \<Rightarrow> length (pp_stages plan)), print_snapshot snap)"
proof -
  have "strdup_c (print_snapshot snap) = print_snapshot snap"
    unfolding strdup_c_def c_str_def takeWhile_eq_all_conv using assms(4) by blast
  moreover have "count_devices (print_snapshot snap) 0 = length (snap_members (rs_membership snap)) +
    (case rs_active_plan snap of None \<Rightarrow> 0 | Some plan \<Rightarrow> length (pp_stages plan))"
    using key_count_snapshot [OF _ _ assms(3), of "''node_id''"] by (simp add: count_devices_keys plain_key_def)
  ultimately show ?thesis using assms(1,2) by (simp add: show_status_def socrates_cluster_snapshot_json_def)
qed

lemma skip_line_None: "skip_line cs = None \<longleftrightarrow> CHR 0x0A \<notin> set cs"
  by (induction cs) auto

lemma skip_line_Some: "CHR 0x0A \<notin> set line \<Longrightarrow> skip_line (line @ CHR 0x0A # rest) = Some rest"
  by (induction line) auto

text \<open>
  The console of a running worker: a command without a line feed behind it is not obeyed and the program never ends, and an empty line
  swallows the line after it.
\<close>

theorem console_lines:
  assumes "wc_running w"
  shows "CHR 0x0A \<notin> set cs \<Longrightarrow> worker_loop env jis (c # cs) w = Some (Hang, w)"
    and "CHR 0x0A \<notin> set line \<Longrightarrow> worker_loop env jis (CHR 0x0A # line @ CHR 0x0A # rest) w = worker_loop env jis rest w"
proof -
  assume "CHR 0x0A \<notin> set cs"
  then have "skip_line cs = None" using skip_line_None by blast
  then show "worker_loop env jis (c # cs) w = Some (Hang, w)" using assms by simp
next
  assume "CHR 0x0A \<notin> set line"
  then show "worker_loop env jis (CHR 0x0A # line @ CHR 0x0A # rest) w = worker_loop env jis rest w"
    using assms by (simp add: skip_line_Some worker_command_def)
qed

lemma and_then_returned:
  assumes "and_then m f = (Returned v, rt', evs)"
  obtains u rt1 evs1 evs2 where "m = (Returned u, rt1, evs1)" "f u rt1 = (Returned v, rt', evs2)"
  using assms by (auto simp: and_then_def split: prod.splits completion.splits)

lemma schedule_plan_role: "schedule_plan env file rng now rt = (Returned u, rt', evs) \<Longrightarrow> rt_local_role rt' = rt_local_role rt"
  by (auto simp: schedule_plan_def adopt_plan_def Let_def split: option.splits prod.splits sum.splits)

lemma finish_join_role:
  assumes "finish_join env file rng now rt = (Returned r, rt', evs)"
  shows "rt_local_role rt' = kParticipant"
proof -
  let ?rt1 = "rt\<lparr>rt_local_models := demo_models, rt_local_role := kParticipant\<rparr>"
  obtain leader where l: "is_local_leader ?rt1 = Inr leader"
    using assms by (auto simp: finish_join_def Let_def split: sum.splits)
  with assms obtain u rt2 evs1 evs2 where s: "(if leader then schedule_plan env file rng now ?rt1 else (Returned (), ?rt1, [])) = (Returned u, rt2, evs1)"
    "and_then (rt_emit_snapshot rt2) (\<lambda>_ rt3. (Returned (Ok True), rt3, [])) = (Returned r, rt', evs2)"
    by (auto simp: finish_join_def Let_def elim: and_then_returned)
  have "rt_local_role rt2 = kParticipant" using s(1) schedule_plan_role by (fastforce split: if_splits)
  moreover have "rt' = rt2" using s(2) by (auto simp: rt_emit_snapshot_def and_then_def split: if_splits sum.splits)
  ultimately show ?thesis by simp
qed

lemma finish_join_ok: "finish_join env file rng now rt = (Returned r, rt', evs) \<Longrightarrow> r = Ok True"
  by (auto simp: finish_join_def Let_def split: sum.splits elim!: and_then_returned)

lemma join_error: "join_cluster env file rng now cancelled rt = (Returned (Inl e), rt', evs) \<Longrightarrow> err_code e \<noteq> kOk"
  by (auto simp: join_cluster_def Err_def split: if_splits elim!: and_then_returned dest: finish_join_ok)

lemma join_role:
  assumes "join_cluster env file rng now cancelled rt = (Returned (Ok v), rt', evs)"
  shows "rt_local_role rt' = kParticipant"
  using assms by (auto simp: join_cluster_def Err_def split: if_splits elim!: and_then_returned dest: finish_join_role)

text \<open>
  Leaving does not leave: after a join the command changes the flag and nothing else, so that the status says leech while the runtime
  goes on as a participant.
\<close>

theorem leave_changes_flag_only:
  assumes "worker_join env ji w = Some w1" "\<not> wc_joined w" "wc_joined w1"
  shows "\<exists>w2 rt. worker_command env ji2 (CHR ''l'') w1 = Some w2 \<and> \<not> wc_joined w2 \<and> wc_binding w2 = wc_binding w1 \<and>
    bs_runtime (wc_binding w2) = Some rt \<and> rt_local_role rt = kParticipant"
proof -
  obtain err b' where j: "socrates_join_cluster env (ji_manifest ji) (ji_random ji) (ji_now ji) True (wc_binding w) = Some (err, b')"
    "se_code err = 0" "wc_binding w1 = b'"
    using assms by (auto simp: worker_join_def split: option.splits if_splits)
  obtain rt where rt: "bs_runtime (wc_binding w) = Some rt"
    using j(1,2) by (auto simp: socrates_join_cluster_def make_error_def split: option.splits)
  have "\<exists>v rt' evs. join_cluster env (ji_manifest ji) (ji_random ji) (ji_now ji) False rt = (Returned (Inr v), rt', evs) \<and> bs_runtime b' = Some rt'"
    using j(1,2) rt join_error
    by (fastforce simp: socrates_join_cluster_def finish_def result_failure_def make_error_def error_value_zero
        split: prod.splits completion.splits sum.splits)
  then show ?thesis using join_role j(3) by (auto simp: worker_command_def)
qed


section \<open>Examples\<close>

definition demo_join :: join_inputs where
  "demo_join = \<lparr>ji_manifest = None, ji_random = 1, ji_now = 1\<rparr>"

definition demo_worker_start :: "memory_db worker_state" where
  "demo_worker_start = (case worker_main demo_env [''--no-discovery''] 0 demo_inputs demo_join (\<lambda>_. []) g_state of
     Some (Inr w) \<Rightarrow> w | _ \<Rightarrow> \<lparr>wc_binding = g_state, wc_running = False, wc_joined = True\<rparr>)"

definition demo_joined :: "memory_db worker_state \<Rightarrow> bool" where
  "demo_joined w \<longleftrightarrow> wc_joined w \<and>
     (case bs_runtime (wc_binding w) of
        None \<Rightarrow> False
      | Some rt \<Rightarrow>
          (case rt_snapshot rt of
             Returned (Inr snap) \<Rightarrow> clean_snapshot snap \<and> CHR 0x00 \<notin> set (print_snapshot snap) \<and>
               (case ls_leader_id (rs_leadership snap) of None \<Rightarrow> False | Some l \<Rightarrow> tl l \<noteq> [] \<and> tl l \<noteq> ''null'') \<and>
               length (snap_members (rs_membership snap)) = 1 \<and> map_option (\<lambda>p. length (pp_stages p)) (rs_active_plan snap) = Some 1
           | _ \<Rightarrow> False))"

lemma demo_worker_joins:
  "wc_running demo_worker_start \<and> \<not> wc_joined demo_worker_start \<and>
   (case worker_join demo_env demo_join demo_worker_start of None \<Rightarrow> False | Some w \<Rightarrow> demo_joined w)"
  by code_simp

lemma demo_worker_obtain:
  obtains w rt snap l plan where "worker_join demo_env demo_join demo_worker_start = Some w" "wc_joined w"
    "bs_runtime (wc_binding w) = Some rt" "rt_snapshot rt = Returned (Ok snap)" "clean_snapshot snap" "CHR 0x00 \<notin> set (print_snapshot snap)"
    "ls_leader_id (rs_leadership snap) = Some l" "tl l \<noteq> []" "tl l \<noteq> ''null''"
    "length (snap_members (rs_membership snap)) = 1" "rs_active_plan snap = Some plan" "length (pp_stages plan) = 1"
  using demo_worker_joins
  by (auto simp: demo_joined_def map_option_eq_Some split: option.splits completion.splits sum.splits)

theorem worker_reads_leader_witness:
  "\<exists>snap c l. clean_snapshot snap \<and> ls_leader_id (rs_leadership snap) = Some (c # l) \<and> detect_leader (print_snapshot snap) = Some (Some l)"
proof (rule demo_worker_obtain)
  fix snap l
  assume "clean_snapshot snap" "ls_leader_id (rs_leadership snap) = Some l" "tl l \<noteq> []" "tl l \<noteq> ''null''"
  with worker_reads_leader [of snap] show ?thesis
    by (cases l) (auto intro!: exI [of _ snap] exI [of _ "hd l"] exI [of _ "tl l"])
qed

theorem status_counts_stages_witness:
  "\<exists>w t. worker_join demo_env demo_join demo_worker_start = Some w \<and> show_status w = Some (True, 2, t)"
proof (rule demo_worker_obtain)
  fix w rt snap plan
  assume a: "worker_join demo_env demo_join demo_worker_start = Some w" "wc_joined w" "bs_runtime (wc_binding w) = Some rt"
    "rt_snapshot rt = Returned (Ok snap)" "clean_snapshot snap" "CHR 0x00 \<notin> set (print_snapshot snap)"
    "length (snap_members (rs_membership snap)) = 1" "rs_active_plan snap = Some plan" "length (pp_stages plan) = 1"
  with status_counts_stages [OF a(3-6)] show ?thesis by auto
qed

theorem console_lines_witness:
  "worker_loop demo_env (\<lambda>_. demo_join) ''j'' demo_worker_start = Some (Hang, demo_worker_start) \<and>
   worker_loop demo_env (\<lambda>_. demo_join) [CHR 0x0A, CHR ''q'', CHR 0x0A] demo_worker_start = Some (EndOfInput, demo_worker_start)"
proof -
  have run: "wc_running demo_worker_start" using demo_worker_joins by blast
  show ?thesis
    using console_lines(1) [OF run, of "[]" demo_env "\<lambda>_. demo_join" "CHR ''j''"] run
      console_lines(2) [OF run, of "[CHR ''q'']" demo_env "\<lambda>_. demo_join" "[]"] by simp
qed

theorem leave_changes_flag_only_witness:
  "\<exists>w1 w2 rt. worker_join demo_env demo_join demo_worker_start = Some w1 \<and> wc_joined w1 \<and>
     worker_command demo_env demo_join (CHR ''l'') w1 = Some w2 \<and> \<not> wc_joined w2 \<and>
     bs_runtime (wc_binding w2) = Some rt \<and> rt_local_role rt = kParticipant"
proof (rule demo_worker_obtain)
  fix w assume w: "worker_join demo_env demo_join demo_worker_start = Some w" "wc_joined w"
  have "\<not> wc_joined demo_worker_start" using demo_worker_joins by blast
  from leave_changes_flag_only [OF w(1) this w(2), of demo_join] w show ?thesis by blast
qed

end
