(* ===== verification/Tools.thy ===== *)
theory Tools
  imports Binding_Json Validator Profiler
begin

text \<open>
  The daemon (\<^verbatim>\<open>daemon/main.cpp\<close>) and the small tools: \<^verbatim>\<open>tools/manifest_validator.cpp\<close>, \<^verbatim>\<open>tools/profiler.cpp\<close>,
  \<^verbatim>\<open>tools/benchmark.cpp\<close> and \<^verbatim>\<open>tools/trace_replay.cpp\<close>. A tool maps its arguments and the files it reads to its exit code
  and the file it writes; \<open>None\<close> is a run that an exception ends or that never ends. Messages on the console are left out. Output
  files are taken to open.
\<close>

section \<open>The daemon\<close>

text \<open>The field \<open>local_node\<close>, which \<open>main\<close> sets, is left out: no code reads it.\<close>

definition daemon_config :: runtime_config where
  "daemon_config = default_runtime_config\<lparr>rc_cluster_id := ''socrates-cluster'', rc_state_directory := ''/var/lib/socrates'',
     rc_model_root := ''/var/lib/socrates/models''\<rparr>"

text \<open>The handler of a signal stops the runtime; \<open>stop\<close> does not throw, or the process ends.\<close>

definition signal_handler :: "'db runtime \<Rightarrow> 'db runtime option" where
  "signal_handler rt = stop_runtime rt"

fun signals :: "nat \<Rightarrow> 'db runtime \<Rightarrow> 'db runtime option" where
  "signals 0 rt = Some rt"
| "signals (Suc n) rt = Option.bind (signal_handler rt) (signals n)"

text \<open>
  \<open>main\<close> up to the loop that sleeps: the exit code or the runtime that runs; and the rest of it, once the loop sees that \<open>n > 0\<close>
  signals have come.
\<close>

definition daemon_start :: "('c, 'db) runtime_env \<Rightarrow> 'db start_inputs \<Rightarrow> (int + 'db runtime) option" where
  "daemon_start env inp =
     (case rt_start env daemon_config True inp (new_runtime default_runtime_config) of
        (Thrown _, _, _) \<Rightarrow> None
      | (Returned (Inl e), _, _) \<Rightarrow> Some (Inl 1)
      | (Returned (Inr _), rt, _) \<Rightarrow> Some (Inr rt))"

definition daemon_finish :: "nat \<Rightarrow> 'db runtime \<Rightarrow> (int \<times> 'db runtime) option" where
  "daemon_finish n rt = map_option (\<lambda>rt'. (0, rt')) (Option.bind (signals n rt) stop_runtime)"

section \<open>The manifest validator\<close>

text \<open>\<open>read_file\<close> is the content of a file that opens.\<close>

definition manifest_validator_main :: "string list \<Rightarrow> (string \<Rightarrow> string option) \<Rightarrow> int option" where
  "manifest_validator_main args read_file =
     (case args of
        [] \<Rightarrow> Some 1
      | path # _ \<Rightarrow>
          (case read_file path of
             None \<Rightarrow> Some 1
           | Some content \<Rightarrow>
               map_option (\<lambda>r. case r of Inl e \<Rightarrow> 1 | Inr errors \<Rightarrow> if errors = [] then 0 else 1) (validate content)))"

section \<open>The profiler and the benchmark\<close>

abbreviation newline :: string where
  "newline \<equiv> [CHR 0x0A]"

definition line_key :: "string \<Rightarrow> string" where
  "line_key name = in_quotes name @ '': ''"

definition profiler_text :: "capability_profile \<Rightarrow> string" where
  "profiler_text p = ''{'' @ newline @
     ''  '' @ line_key ''node_id'' @ in_quotes (cp_node_id p) @ '','' @ newline @
     ''  '' @ line_key ''cpu_model'' @ in_quotes (cp_cpu_model p) @ '','' @ newline @
     ''  '' @ line_key ''logical_cpu_count'' @ to_string (cp_logical_cpu_count p) @ '','' @ newline @
     ''  '' @ line_key ''total_memory_bytes'' @ to_string (cp_total_memory_bytes p) @ '','' @ newline @
     ''  '' @ line_key ''available_memory_bytes'' @ to_string (cp_available_memory_bytes p) @ '','' @ newline @
     ''  '' @ line_key ''accelerators'' @ ''['' @ print_from False (\<lambda>a. newline @ ''    '' @ in_quotes a) (cp_accelerators p) @ newline @ ''  ],'' @ newline @
     ''  '' @ line_key ''backends'' @ ''['' @ print_from False (\<lambda>k. newline @ ''    { '' @ line_key ''kind'' @ to_string_int (backend_value (bc_kind k)) @
        '', '' @ line_key ''version'' @ in_quotes (bc_version k) @ '' }'') (cp_backends p) @ newline @ ''  ]'' @ newline @ ''}'' @ newline"

text \<open>The exit code, and the path and content of the file written.\<close>

definition profiler_main :: "string list \<Rightarrow> time_point \<Rightarrow> platform_info \<Rightarrow> int \<times> (string \<times> string) option" where
  "profiler_main args now pf =
     (case inspect ''cli-node'' False now pf of
        Inl e \<Rightarrow> (1, None)
      | Inr p \<Rightarrow> (0, Some (case args of [] \<Rightarrow> ''capability.json'' | path # _ \<Rightarrow> path, profiler_text p)))"

record benchmark_args =
  ba_output :: string
  ba_warmup :: i32
  ba_runs :: i32

text \<open>The loop over the arguments; \<open>None\<close> is the exception of \<open>stoi\<close>.\<close>

fun benchmark_args_from :: "string list \<Rightarrow> benchmark_args \<Rightarrow> benchmark_args option" where
  "benchmark_args_from [] a = Some a"
| "benchmark_args_from [arg] a = Some a"
| "benchmark_args_from (arg # v # vs) a =
     (if arg = ''--warmup'' then Option.bind (stoi v) (\<lambda>n. benchmark_args_from vs (a\<lparr>ba_warmup := n\<rparr>))
      else if arg = ''--runs'' then Option.bind (stoi v) (\<lambda>n. benchmark_args_from vs (a\<lparr>ba_runs := n\<rparr>))
      else if arg = ''--output'' then benchmark_args_from vs (a\<lparr>ba_output := v\<rparr>)
      else benchmark_args_from (v # vs) a)"

definition benchmark_entry :: "backend_benchmark \<Rightarrow> string" where
  "benchmark_entry e = newline @ ''    {'' @
     newline @ ''      '' @ line_key ''prefill_tps'' @ show_double (bb_prefill_tokens_per_second e) @ '','' @
     newline @ ''      '' @ line_key ''decode_tps'' @ show_double (bb_decode_tokens_per_second e) @ '','' @
     newline @ ''      '' @ line_key ''first_token_latency_us'' @ to_string_int (bb_first_token_latency_us e) @ '','' @
     newline @ ''      '' @ line_key ''peak_memory_bytes'' @ to_string (bb_peak_memory_bytes e) @
     newline @ ''    }''"

definition benchmark_text :: "benchmark_args \<Rightarrow> capability_profile \<Rightarrow> string" where
  "benchmark_text a p = ''{'' @ newline @
     ''  '' @ line_key ''warmup_runs'' @ to_string_int (ba_warmup a) @ '','' @ newline @
     ''  '' @ line_key ''measured_runs'' @ to_string_int (ba_runs a) @ '','' @ newline @
     ''  '' @ line_key ''benchmarks'' @ ''['' @ print_from False benchmark_entry (cp_measured_benchmarks p) @ newline @ ''  ]'' @ newline @ ''}'' @ newline"

definition benchmark_main :: "string list \<Rightarrow> time_point \<Rightarrow> time_point \<Rightarrow> platform_info \<Rightarrow> (int \<times> (string \<times> string) option) option" where
  "benchmark_main args now1 now2 pf =
     (case benchmark_args_from args \<lparr>ba_output = ''benchmark.json'', ba_warmup = 3, ba_runs = 10\<rparr> of
        None \<Rightarrow> None
      | Some a \<Rightarrow>
          (case inspect ''bench-node'' False now1 pf of
             Inl e \<Rightarrow> Some (1, None)
           | Inr base \<Rightarrow>
               (case benchmark base False now2 of
                  Inl e \<Rightarrow> Some (1, None)
                | Inr p \<Rightarrow> Some (0, Some (ba_output a, benchmark_text a p)))))"

section \<open>Trace replay\<close>

text \<open>The last argument that is no option is the path.\<close>

fun replay_args :: "string list \<Rightarrow> bool \<times> string \<Rightarrow> bool \<times> string" where
  "replay_args [] st = st"
| "replay_args (arg # args) (summary_only, path) =
     replay_args args
       (if arg = ''--summary'' then (True, path)
        else if take 1 arg \<noteq> ''-'' then (summary_only, arg) else (summary_only, path))"

text \<open>The exit code and, for a summary, the number of bytes it reports.\<close>

definition trace_replay_main :: "string list \<Rightarrow> (string \<Rightarrow> string option) \<Rightarrow> int \<times> nat option" where
  "trace_replay_main args read_file =
     (let (summary_only, path) = replay_args args (False, []) in
      if path = [] then (1, None)
      else case read_file path of
        None \<Rightarrow> (1, None)
      | Some content \<Rightarrow> (0, if summary_only then Some (length content) else None))"

section \<open>Properties\<close>

lemma stop_runtime_stopped: "rt_state rt = kStopped \<Longrightarrow> stop_runtime rt = Some rt"
  by (simp add: stop_runtime_def rt_stop_def stop_begin_def)

definition released :: "'db runtime \<Rightarrow> bool" where
  "released rt \<longleftrightarrow> rt_state rt = kStopped \<and> rt_membership rt = None \<and> rt_election rt = None \<and> rt_pipeline rt = None \<and>
     \<not> rt_transport rt \<and> \<not> rt_discovery rt \<and> \<not> rt_heartbeat_active rt"

lemma stop_runtime_ready:
  assumes "rt_state rt \<noteq> kStopped" "rt_state rt \<noteq> kStopping"
  shows "\<exists>rt'. stop_runtime rt = Some rt' \<and> released rt'"
  using assms by (simp add: stop_runtime_def rt_stop_def stop_begin_def stop_end_def rt_emit_snapshot_def collect_snapshot_def released_def)

lemma signals_stopped: "rt_state rt = kStopped \<Longrightarrow> signals n rt = Some rt"
  by (induction n) (simp_all add: signal_handler_def stop_runtime_stopped)


text \<open>
  The benchmark measures nothing: what it writes depends on its arguments, and not on the machine or the time it takes.
\<close>

theorem benchmark_is_constant: "benchmark_main args now1 now2 pf = benchmark_main args now1' now2' pf'"
  by (simp add: benchmark_main_def inspect_def benchmark_def benchmark_text_def default_profile_def split: option.split)

text \<open>
  The validator reports success exactly for a file that opens and breaks no rule.
\<close>

theorem validator_succeeds_iff:
  "manifest_validator_main args read_file = Some 0 \<longleftrightarrow>
     (\<exists>path rest content. args = path # rest \<and> read_file path = Some content \<and> validate content = Some (Ok []))"
proof (cases args)
  case (Cons path rest)
  show ?thesis
  proof (cases "read_file path")
    case (Some content)
    have "(case r of Inl e \<Rightarrow> 1 | Inr errors \<Rightarrow> if errors = [] then 0 else 1) = (0 :: int) \<longleftrightarrow> r = Ok []" for r :: "validation_error list result"
      by (cases r) simp_all
    with Cons Some show ?thesis by (auto simp: manifest_validator_main_def)
  qed (simp add: Cons manifest_validator_main_def)
qed (simp add: manifest_validator_main_def)



end
