(* ===== verification/Spec2Isabelle.thy ===== *)
theory Spec2Isabelle
  imports Scheduler Identity Membership Election Codec Transport Store Manifest Validator Backends Stages Pipeline Protocol
    Local_Model Catalog Runtime Planning Discovery Engines Profiler Windows Trace Binding Binding_Json Tls Support
    Master Downloads Worker Tools
begin

text \<open>
  Verification of the socrates edge runtime (C++), which runs a language model on a cluster of
  ordinary devices.

  \<^bold>\<open>The program.\<close> Nodes discover each other (\<^verbatim>\<open>src/discovery\<close>) and enter each other's member table
  (\<^verbatim>\<open>src/cluster/membership_service.cpp\<close>) once their identity is accepted (\<^verbatim>\<open>src/security\<close>). Every
  change of the table is delivered to the leader election (\<^verbatim>\<open>src/cluster/bully_election.cpp\<close>). The
  leader reads a manifest (\<^verbatim>\<open>src/model\<close>), asks the scheduler (\<^verbatim>\<open>src/scheduler\<close>) to place the shards of
  the model on the members, and keeps the plan (\<^verbatim>\<open>src/persistence\<close>). The pipeline
  (\<^verbatim>\<open>src/pipeline\<close>) serves requests under a plan: it queues and batches them, sends activations from
  stage to stage (\<^verbatim>\<open>src/transport\<close>, \<^verbatim>\<open>src/inference\<close>) and streams tokens to the caller. The class of
  \<^verbatim>\<open>src/runtime/edge_runtime.cpp\<close> owns all of them.

  \<^bold>\<open>The theories.\<close>
  \<^item> \<open>Prelude\<close>: results and error codes, machine integers, and the parts of the C++ library that the
    code uses (sorting, numbers as text, substring search, checked buffers). \<open>Types\<close>: the structs and
    enums of the headers, as records and datatypes with the source's names.
  \<^item> \<open>Scheduler\<close> (\<^verbatim>\<open>memory_scheduler.cpp\<close>): placement of shards; a plan covers every layer once, respects
    the memory of each node and places every shard on a live compatible member; a feasible input
    is planned. \<open>std::sort\<close> is any function that satisfies the locale \<open>std_sort\<close>.
  \<^item> \<open>Identity\<close> (\<^verbatim>\<open>identity_provider.cpp\<close>): the three trust policies. \<open>Membership\<close>: the member table, its
    invariant over every run and the life cycle of a member. \<open>Election\<close>: one leader per term, the
    greatest live id, terms stored before they are announced.
  \<^item> \<open>Wire\<close>, \<open>Codec\<close> (\<^verbatim>\<open>tensor_codec.cpp\<close>) and \<open>Transport\<close> (\<^verbatim>\<open>grpc_transport.cpp\<close>): byte formats, checksums,
    streams and connections; exact conditions for round trips, and the sizes for which checks overflow.
  \<^item> \<open>Json\<close> and \<open>Store\<close> (\<^verbatim>\<open>sqlite_assignment_store.cpp\<close>): saved plans and token histories over an SQL
    engine given by the locale \<open>sqlite\<close>; atomicity and what is read back.
  \<^item> \<open>Manifest\<close> and \<open>Validator\<close> (\<^verbatim>\<open>src/model\<close>): the parser as an inverse of the format, immutability of
    published manifests and leases (locale \<open>write_once\<close>), and when the validator returns.
  \<^item> \<open>Backends\<close> (\<^verbatim>\<open>backend_registry.cpp\<close>, \<^verbatim>\<open>backend_dispatch.cpp\<close>) and \<open>Stages\<close> (the stage part of
    \<^verbatim>\<open>inference_pipeline.cpp\<close>): backend chains; a pass over a plan as a chain of stages.
  \<^item> \<open>Pipeline\<close> and \<open>Protocol\<close> (the rest of \<^verbatim>\<open>inference_pipeline.cpp\<close>): admission, dispatcher, workers and
    recovery as atomic steps; every interleaving of them refines the protocol of an event stream.
    \<open>Local_Model\<close>: generation with llama.cpp.
  \<^item> \<open>Catalog\<close> (\<^verbatim>\<open>model_catalog.cpp\<close>): which models a cluster can run, and with which context window.
  \<^item> \<open>Discovery\<close> (\<^verbatim>\<open>src/discovery\<close>): the broadcast format with its exact round trip and the datagrams that end a
    process, the services as instances of one contract (locale \<open>discovery_service\<close>), and the coordinator, whose runs
    refine an abstract service.
  \<^item> \<open>Engines\<close> (the backends of \<^verbatim>\<open>src/inference\<close>), \<open>Profiler\<close> (\<^verbatim>\<open>src/profiler\<close>), \<open>Printing\<close> and \<open>Trace\<close>
    (\<^verbatim>\<open>src/trace\<close>): loading with fallback, sampling, what a node reports about itself, and the record of a span as a replay.
  \<^item> \<open>Binding\<close> and \<open>Binding_Json\<close> (\<^verbatim>\<open>bindings/c/socrates.cpp\<close>): the C interface with an explicit heap of handles, its
    memory invariant over every run, exactly when a call is undefined, and its JSON text against a reference rendering.
  \<^item> \<open>Tls\<close> (the OpenSSL part of \<^verbatim>\<open>grpc_transport.cpp\<close>): connection and server objects with the descriptors and
    contexts that they own; an ownership invariant over every run, and the order in which a connection delivers its frames.
    \<open>Windows\<close> (\<^verbatim>\<open>windows_profiler.cpp\<close>) and \<open>Support\<close> (\<^verbatim>\<open>cancellation.h\<close>, \<^verbatim>\<open>logging.h\<close>): the probes of the Windows build, tokens
    that share a flag, and log lines.
  \<^item> \<open>Master\<close> (\<^verbatim>\<open>tools/master_cli.cpp\<close>): the HTTP server over the C interface: requests, answers, and the life of the context that
    a streaming client shares with the callback. \<open>Worker\<close> (\<^verbatim>\<open>tools/worker_cli.cpp\<close>): the wait for a leader and the console.
    \<open>Downloads\<close>: the model files of both and which of them the pipeline serves. \<open>Tools\<close>: the daemon, which ends after any signals, and the
    small tools.
  \<^item> \<open>Runtime\<close> and \<open>Planning\<close> (\<^verbatim>\<open>edge_runtime.cpp\<close>): the composition; its life cycle over every run, what
    stop, leave and restart do, and the way of a single node from its start to a plan of its own.

  \<^bold>\<open>State and operations.\<close> A class is a record of its members, a method a function from arguments and
  state to a result, a new state and the events it emits (calls of callbacks, stored terms, sent
  bytes). A \<open>Result\<close> is a sum, an exception the same error delivered as an outcome. Undefined behaviour, a call that
  does not return, and the end of the process are \<open>None\<close>. Requests that threads share by pointer are
  entries of a list and referred to by index.

  \<^bold>\<open>Parameters.\<close> Clock readings, random numbers, the file system, OpenSSL, SQLite, nlohmann's
  JSON parser, llama.cpp, sockets and the inference engines are arguments; what a theorem needs of
  them is a named hypothesis or a locale with an interpretation on a concrete instance.

  \<^bold>\<open>Concurrency.\<close> A method that holds its lock throughout is one step, and so is one iteration of a
  worker's, dispatcher's, liveness or heartbeat loop; theorems over runs quantify over every
  sequence of such steps. Where the code leaves its lock in the middle (the end of \<open>generate\<close> for a
  queued request, the wait of a graceful leave) the model splits the method there.

  \<^bold>\<open>Bounds and fuel.\<close> Integers have the width of the source; \<open>double\<close> is an exact rational, so rounding is not
  modelled. The generation loops are run with fuel \<open>maximum_new_tokens\<close> + 1, which is proved
  to be enough; the validator's scan is a partial function that is proved to return or not.

  \<^bold>\<open>Here.\<close> The last section composes discovery with the runtime: the configuration with which the runtime starts discovery, what
  it makes of a message, and that a broadcast peer becomes a joining member.

  \<^bold>\<open>Not modelled.\<close> What the logger's stream and the console print beyond the texts of the theorems; the sockets of transport, discovery
  and the HTTP server beyond the bytes they carry, writes to sockets that a client has closed, and how long a stop waits for a peer; data
  races between the threads of the UDP service and \<open>stop\<close>; the Apple probes of the profilers, which are Objective-C++; the engine behind
  llama.cpp; the copies of the headers under \<^verbatim>\<open>dist/\<close>, packaged from \<^verbatim>\<open>include/\<close>, one of them older; mobile and desktop applications and their
  bindings other than C.
\<close>

section \<open>Discovery and the member table\<close>

text \<open>The configuration and the advertisement with which \<open>start\<close> of the runtime starts the discovery service.\<close>

definition runtime_discovery_config :: "runtime_config \<Rightarrow> discovery_config" where
  "runtime_discovery_config config =
     \<lparr>dc_fallback_order = (if rc_skip_discovery config then [kUdpBroadcast, kBluetoothLowEnergy]
                           else [kMdns, kUdpBroadcast, kBluetoothLowEnergy]),
      dc_service_name = ''socrates-'' @ rc_cluster_id config, dc_udp_port = 9876,
      dc_scan_timeout = 1500000000, dc_announce_interval = 3000000000\<rparr>"

definition start_discovery :: "discovery_host \<Rightarrow> 'db runtime \<Rightarrow> coordinated_discovery discovery_outcome" where
  "start_discovery h rt =
     cd_start h (runtime_discovery_config (rt_config rt)) (self_peer rt) True make_coordinated_discovery"

text \<open>What the runtime makes of a message that reaches its discovery service.\<close>

definition hear ::
  "('c, 'db) runtime_env \<Rightarrow> time_point \<Rightarrow> discovery_input \<Rightarrow> coordinated_discovery \<Rightarrow> 'db runtime \<Rightarrow> 'db runtime option" where
  "hear env now i d rt =
     map_option (\<lambda>evs. fold (\<lambda>ev rt. outcome_runtime (on_discovery env now ev rt)) evs rt) (cd_input i d)"

lemma inputs_all_udp:
  assumes "\<forall>a \<in> set as. adapter_method a \<noteq> kUdpBroadcast"
  shows "inputs_all (Datagram s) (as @ [UdpAdapter b, BleAdapter c]) = udp_receive b s"
  using assms
proof (induction as)
  case Nil
  show ?case by (cases "udp_receive b s") simp_all
next
  case (Cons a as)
  then have "adapter_input (Datagram s) a = Some []" by (cases a) auto
  with Cons show ?case by (cases "udp_receive b s") simp_all
qed

lemma broadcast_tail_started:
  assumes "dh_recv_socket h" "dh_bind h" "cd_callback d"
  shows "\<exists>b c. start_adapters h [kUdpBroadcast, kBluetoothLowEnergy] d =
      (Ok (), d\<lparr>cd_adapters := cd_adapters d @ [UdpAdapter b, BleAdapter c]\<rparr>, []) \<and>
    udp_running b \<and> udp_recv_sock b \<and> udp_callback b"
  using assms
  by (simp add: udp_start_def make_udp_discovery_def ble_start_def make_bluetooth_discovery_def) (intro exI conjI, rule refl, simp_all)

lemma broadcast_head_started:
  assumes "start_adapters h (kMdns # ms) d = (Ok (), d', evs)"
  shows "\<exists>as. start_adapters h ms (d\<lparr>cd_adapters := cd_adapters d @ as\<rparr>) = (Ok (), d', evs) \<and>
    (\<forall>a \<in> set as. adapter_method a \<noteq> kUdpBroadcast)"
proof (cases "make_mdns_discovery h")
  case None
  with assms show ?thesis by (intro exI [of _ "[]"]) simp
next
  case (Some m)
  obtain r m' evs' where "mdns_start h (cd_config d) (cd_local_peer d) (cd_callback d) m = (r, m', evs')" by (metis prod_cases3)
  with assms Some show ?thesis by (intro exI [of _ "[MdnsAdapter m']"]) (auto split: sum.splits)
qed

text \<open>A discovery service that the runtime started hears a broadcast exactly as its UDP adapter does.\<close>

lemma started_hears:
  assumes h: "dh_recv_socket h" "dh_bind h" and start: "start_discovery h rt = (Ok (), d, evs)"
  shows "\<exists>b. udp_running b \<and> udp_recv_sock b \<and> udp_callback b \<and> cd_input (Datagram s) d = udp_receive b s"
proof -
  let ?cfg = "runtime_discovery_config (rt_config rt)"
  let ?d = "make_coordinated_discovery\<lparr>cd_config := ?cfg, cd_local_peer := self_peer rt, cd_callback := True, cd_running := True\<rparr>"
  have run: "start_adapters h (dc_fallback_order ?cfg) ?d = (Ok (), d, evs)"
    using start by (simp add: start_discovery_def cd_start_def make_coordinated_discovery_def)
  have "\<exists>as. start_adapters h [kUdpBroadcast, kBluetoothLowEnergy] (?d\<lparr>cd_adapters := cd_adapters ?d @ as\<rparr>) = (Ok (), d, evs) \<and>
      (\<forall>a \<in> set as. adapter_method a \<noteq> kUdpBroadcast)"
  proof (cases "rc_skip_discovery (rt_config rt)")
    case True
    with run show ?thesis by (intro exI [of _ "[]"]) (simp add: runtime_discovery_config_def del: start_adapters.simps)
  next
    case False
    then have "dc_fallback_order ?cfg = [kMdns, kUdpBroadcast, kBluetoothLowEnergy]" by (simp add: runtime_discovery_config_def)
    with run show ?thesis using broadcast_head_started [of h "[kUdpBroadcast, kBluetoothLowEnergy]" ?d d evs] by metis
  qed
  then obtain as where as: "\<forall>a \<in> set as. adapter_method a \<noteq> kUdpBroadcast"
    "start_adapters h [kUdpBroadcast, kBluetoothLowEnergy] (?d\<lparr>cd_adapters := cd_adapters ?d @ as\<rparr>) = (Ok (), d, evs)"
    by blast
  from broadcast_tail_started [OF h, of "?d\<lparr>cd_adapters := cd_adapters ?d @ as\<rparr>"] obtain b c where
    b: "cd_adapters d = as @ [UdpAdapter b, BleAdapter c]" "udp_running b" "udp_recv_sock b" "udp_callback b"
    using as(2) by (auto simp: make_coordinated_discovery_def simp del: start_adapters.simps)
  with as(1) show ?thesis using inputs_all_udp [of as s b c] by (auto simp: cd_input_def)
qed

lemma on_discovery_members:
  "rt_membership rt = Some s \<Longrightarrow> rt_membership (outcome_runtime (on_discovery env now ev rt)) =
     Some (outcome_state (observe (rt_authenticate env rt) now ev s))"
proof -
  assume s: "rt_membership rt = Some s"
  obtain r rt' evs where q: "with_membership env (observe (rt_authenticate env rt) now ev) rt = (r, rt', evs)" by (rule prod_cases3)
  from with_membership_reelects [OF q] s show ?thesis
    by (auto simp: on_discovery_def attempt_def outcome_runtime_def q reelects_def)
qed

text \<open>
  C8. A node whose runtime is ready takes every peer whose broadcast it hears into its member table: the
  peer is joining, under the id and with the fingerprint that the datagram names.
\<close>

theorem broadcast_admits_peer:
  assumes ready: "rt_reachable env rt" "rt_state rt = kReady"
    and d: "start_discovery h rt = (Ok (), d, evs)" "dh_recv_socket h" "dh_bind h"
    and s: "rt_membership rt = Some s" "find_member (pa_node_id p) (ms_members s) = None"
    and p: "CHR ''|'' \<notin> set (pa_node_id p)" "pa_node_id p \<noteq> []" "length (serialize_peer p) \<le> 2047"
  shows "\<exists>rt' s'. hear env now (Datagram (Some (serialize_peer p))) d rt = Some rt' \<and> rt_membership rt' = Some s' \<and>
    ms_members s' = ms_members s @ [joining_member (default_peer\<lparr>pa_node_id := pa_node_id p,
      pa_incarnation := ucast (ucast (pa_incarnation p) :: u32), pa_public_key_fingerprint := pa_public_key_fingerprint p\<rparr>) now]"
proof -
  let ?ev = "found (pa_node_id p) (ucast (ucast (pa_incarnation p) :: u32)) (pa_public_key_fingerprint p)"
  let ?rt = "outcome_runtime (on_discovery env now ?ev rt)"
  have inv: "open_cluster rt" "ms_running s"
    using reachable_inv [OF ready(1)] ready(2) s(1) by (auto simp: rt_inv_def)
  have "hear env now (Datagram (Some (serialize_peer p))) d rt = Some ?rt"
    using started_hears [OF d(2,3,1), of "Some (serialize_peer p)"] udp_exchange [OF _ _ _ p] by (auto simp: hear_def)
  moreover have "is_ok (rt_authenticate env rt peer fp)" for peer fp
    using inv(1) by (auto simp: open_cluster_def rt_authenticate_def authenticate_def Let_def)
  then have "ms_members (outcome_state (observe (rt_authenticate env rt) now ?ev s)) =
      ms_members s @ [joining_member (de_peer ?ev) now]"
    using inv s p(2) by (simp add: open_cluster_def observe_def found_def default_peer_def bump_and_emit_def Let_def)
  ultimately show ?thesis
    using on_discovery_members [OF s(1), of env now ?ev] by (auto simp: found_def)
qed

theorem broadcast_admits_peer_witness:
  "\<exists>d rt' s'. hear demo_env 9 (Datagram (Some ''a|1|f'')) d demo_started = Some rt' \<and> rt_membership rt' = Some s' \<and>
    mb_state (last (ms_members s')) = kJoining"
proof -
  have "case rt_membership demo_started of None \<Rightarrow> False | Some s \<Rightarrow> find_member ''a'' (ms_members s) = None" by code_simp
  then obtain s where s: "rt_membership demo_started = Some s" "find_member (pa_node_id net_peer) (ms_members s) = None"
    by (auto simp: net_peer_def split: option.splits)
  obtain r d evs where q: "start_discovery net_host demo_started = (r, d, evs)" by (rule prod_cases3)
  have "r = Ok ()"
    using cd_start_stopped [OF _ q [unfolded start_discovery_def]]
    by (auto simp: make_coordinated_discovery_def avahi_fails_def net_host_def is_ok_iff)
  with q have d: "start_discovery net_host demo_started = (Ok (), d, evs)" by simp
  have h: "dh_recv_socket net_host" "dh_bind net_host" by (simp_all add: net_host_def)
  have p: "CHR ''|'' \<notin> set (pa_node_id net_peer)" "pa_node_id net_peer \<noteq> []" "length (serialize_peer net_peer) \<le> 2047"
    unfolding net_serialized by (simp_all add: net_peer_def)
  from broadcast_admits_peer [OF demo_reachable demo_ready d h s p, of 9] obtain rt' s' where
    "hear demo_env 9 (Datagram (Some (serialize_peer net_peer))) d demo_started = Some rt'" "rt_membership rt' = Some s'"
    "mb_state (last (ms_members s')) = kJoining"
    by (auto simp: joining_member_def)
  then show ?thesis unfolding net_serialized by blast
qed

end
